(* ===== verification/Prelude.thy ===== *)
theory Prelude
  imports Main "HOL-Library.Word" "HOL-Library.While_Combinator"
begin

text \<open>
  Shared material of the development: the machine types, the outcome of an effectful C++
  computation (a value, an exception, a failed \<open>assert\<close>, a loop that does not end), the
  sequencing combinators over it, and effects that stay within a relation.
\<close>

section \<open>Named collections\<close>

named_theorems outcome_simps \<open>sequencing of effectful computations\<close>
named_theorems text_simps \<open>generated SQL and Lua texts\<close>

section \<open>Machine types\<close>

text \<open>
  \<open>DataType::Int\<close> is the 64-bit signed integer of the Lua VM (read with \<open>sint\<close>), a
  \<open>double\<close> is its 64-bit pattern.
\<close>

type_synonym i64 = "64 word"
type_synonym dbl = "64 word"

section \<open>Outcomes and sequencing\<close>

text \<open>
  Exceptions are told apart by what a C++ handler clause can tell apart:
  \<open>mysqlpp::Exception\<close>, another \<open>std::exception\<close>, or a type outside that hierarchy.
\<close>

datatype exn = Exn_std | Exn_mysqlpp | Exn_other

datatype 'a outcome = Value 'a | Throw exn | Abort | Diverge

type_synonym ('c, 'a) act = "'c \<Rightarrow> 'a outcome \<times> 'c"

definition retM :: "'a \<Rightarrow> ('c, 'a) act" where
  "retM x c = (Value x, c)"

definition throwM :: "exn \<Rightarrow> ('c, 'a) act" where
  "throwM e c = (Throw e, c)"

definition bindM :: "('c, 'a) act \<Rightarrow> ('a \<Rightarrow> ('c, 'b) act) \<Rightarrow> ('c, 'b) act" where
  "bindM m f c = (case m c of
      (Value x, c') \<Rightarrow> f x c'
    | (Throw e, c') \<Rightarrow> (Throw e, c')
    | (Abort, c') \<Rightarrow> (Abort, c')
    | (Diverge, c') \<Rightarrow> (Diverge, c'))"

text \<open>\<open>assert(b)\<close>: the builds of the repository do not define \<open>NDEBUG\<close>.\<close>

definition assertM :: "bool \<Rightarrow> ('c, unit) act" where
  "assertM b c = (if b then Value () else Abort, c)"

text \<open>\<open>expected::value()\<close> and \<open>vector::at\<close>: the contents, or an exception.\<close>

definition valueM :: "exn \<Rightarrow> 'a option \<Rightarrow> ('c, 'a) act" where
  "valueM e x = (case x of None \<Rightarrow> throwM e | Some v \<Rightarrow> retM v)"

text \<open>\<open>catch(...)\<close> catches every exception; \<open>catch_std\<close> the \<open>std::exception\<close> hierarchy.\<close>

definition catch_all :: "('c, 'a) act \<Rightarrow> ('c, 'a) act \<Rightarrow> ('c, 'a) act" where
  "catch_all m h c = (case m c of (Throw e, c') \<Rightarrow> h c' | (r, c') \<Rightarrow> (r, c'))"

definition catch_std :: "('c, 'a) act \<Rightarrow> ('c, 'a) act \<Rightarrow> ('c, 'a) act" where
  "catch_std m h c = (case m c of
      (Throw e, c') \<Rightarrow> (if e = Exn_other then (Throw e, c') else h c')
    | (r, c') \<Rightarrow> (r, c'))"

definition effect :: "('c \<Rightarrow> 'c) \<Rightarrow> ('c, unit) act" where
  "effect f c = (Value (), f c)"

definition readM :: "('c \<Rightarrow> 'a) \<Rightarrow> ('c, 'a) act" where
  "readM f c = (Value (f c), c)"

lemma bindM_retM [outcome_simps]: "bindM (retM x) f = f x"
  by (rule ext) (simp add: bindM_def retM_def)

lemma bindM_throwM [outcome_simps]: "bindM (throwM e) f = throwM e"
  by (rule ext) (simp add: bindM_def throwM_def)

lemma bindM_assoc: "bindM (bindM m f) g = bindM m (\<lambda>x. bindM (f x) g)"
  by (rule ext) (simp add: bindM_def split: prod.split outcome.split)

lemma bindM_value [outcome_simps]: "m c = (Value x, c') \<Longrightarrow> bindM m f c = f x c'"
  by (simp add: bindM_def)

lemma bindM_stop [outcome_simps]:
  "m c = (Throw e, c') \<Longrightarrow> bindM m f c = (Throw e, c')"
  "m c = (Abort, c') \<Longrightarrow> bindM m f c = (Abort, c')"
  "m c = (Diverge, c') \<Longrightarrow> bindM m f c = (Diverge, c')"
  by (simp_all add: bindM_def)

lemma act_simps [outcome_simps]:
  "retM x c = (Value x, c)"
  "throwM e c = (Throw e, c)"
  "effect g c = (Value (), g c)"
  "readM h c = (Value (h c), c)"
  by (simp_all add: retM_def throwM_def effect_def readM_def)

lemma valueM_simps [outcome_simps]:
  "valueM e (Some x) = retM x"
  "valueM e None = throwM e"
  by (simp_all add: valueM_def)

lemma assertM_simps [outcome_simps]:
  "assertM True = retM ()"
  "assertM False c = (Abort, c)"
  by (simp_all add: assertM_def retM_def fun_eq_iff)

lemma bindM_effect [outcome_simps]: "bindM (effect g) f c = f () (g c)"
  by (simp add: bindM_def effect_def)

lemma bindM_readM [outcome_simps]: "bindM (readM g) f c = f (g c) c"
  by (simp add: bindM_def readM_def)

lemma catch_all_value [outcome_simps]: "m c = (Value x, c') \<Longrightarrow> catch_all m h c = (Value x, c')"
  by (simp add: catch_all_def)

lemma catch_all_throw [outcome_simps]: "m c = (Throw e, c') \<Longrightarrow> catch_all m h c = h c'"
  by (simp add: catch_all_def)

lemma catch_all_stop [outcome_simps]:
  "m c = (Abort, c') \<Longrightarrow> catch_all m h c = (Abort, c')"
  "m c = (Diverge, c') \<Longrightarrow> catch_all m h c = (Diverge, c')"
  by (simp_all add: catch_all_def)

lemma catch_all_retM_neq_Throw: "fst (catch_all m (retM v) c) \<noteq> Throw e"
  by (simp add: catch_all_def retM_def split: prod.split outcome.split)

section \<open>Effects that stay within a relation\<close>

text \<open>
  Every run of the effect relates the state before to the state after, whatever its outcome; for a
  reflexive and transitive relation this is closed under the combinators. Two relations are used:
  a part of the state stays the same, and a predicate of the state is kept.
\<close>

definition within :: "('c \<Rightarrow> 'c \<Rightarrow> bool) \<Rightarrow> ('c, 'a) act \<Rightarrow> bool" where
  "within R m \<longleftrightarrow> (\<forall>c. R c (snd (m c)))"

definition steady :: "('c \<Rightarrow> 'c \<Rightarrow> bool) \<Rightarrow> bool" where
  "steady R \<longleftrightarrow> (\<forall>c. R c c) \<and> (\<forall>c c1 c2. R c c1 \<longrightarrow> R c1 c2 \<longrightarrow> R c c2)"

abbreviation preserves :: "('c \<Rightarrow> 's) \<Rightarrow> ('c, 'a) act \<Rightarrow> bool" where
  "preserves p \<equiv> within (\<lambda>c c'. p c' = p c)"

abbreviation maintains :: "('c \<Rightarrow> bool) \<Rightarrow> ('c, 'a) act \<Rightarrow> bool" where
  "maintains I \<equiv> within (\<lambda>c c'. I c \<longrightarrow> I c')"

named_theorems within_intros \<open>effects that stay within a relation\<close>

lemma steady_same [within_intros]: "steady (\<lambda>c c'. p c' = p c)"
  by (simp add: steady_def)

lemma steady_kept [within_intros]: "steady (\<lambda>c c'. I c \<longrightarrow> I c')"
  by (simp add: steady_def)

lemma withinD: "within R m \<Longrightarrow> R c (snd (m c))"
  by (simp add: within_def)

lemma steady_refl: "steady R \<Longrightarrow> R c c"
  by (simp add: steady_def)

lemma steady_trans: "steady R \<Longrightarrow> R c c1 \<Longrightarrow> R c1 c2 \<Longrightarrow> R c c2"
  unfolding steady_def by blast

lemma within_basic [within_intros]:
  "steady R \<Longrightarrow> within R (retM x)" "steady R \<Longrightarrow> within R (throwM e)"
  "steady R \<Longrightarrow> within R (assertM b)" "steady R \<Longrightarrow> within R (readM g)"
  "steady R \<Longrightarrow> within R (valueM e v)"
  by (auto simp: within_def steady_refl retM_def throwM_def assertM_def readM_def valueM_def
      split: option.split)

lemma within_bindM [within_intros]:
  assumes "steady R" and "within R m" and "\<And>x. within R (f x)"
  shows "within R (bindM m f)"
  unfolding within_def
proof
  fix c
  from withinD[OF assms(2), of c] withinD[OF assms(3)] steady_trans[OF assms(1)]
  show "R c (snd (bindM m f c))"
    by (force simp: bindM_def split: prod.split outcome.split)
qed

lemma within_catch_all [within_intros]:
  assumes "steady R" and "within R m" and "within R h"
  shows "within R (catch_all m h)"
  unfolding within_def
proof
  fix c
  from withinD[OF assms(2), of c] withinD[OF assms(3)] steady_trans[OF assms(1)]
  show "R c (snd (catch_all m h c))"
    by (force simp: catch_all_def split: prod.split outcome.split)
qed

lemma within_catch_std [within_intros]:
  assumes "steady R" and "within R m" and "within R h"
  shows "within R (catch_std m h)"
  unfolding within_def
proof
  fix c
  from withinD[OF assms(2), of c] withinD[OF assms(3)] steady_trans[OF assms(1)]
  show "R c (snd (catch_std m h c))"
    by (force simp: catch_std_def split: prod.split outcome.split)
qed

lemma within_if [within_intros]:
  "(b \<Longrightarrow> within R m) \<Longrightarrow> (\<not> b \<Longrightarrow> within R n) \<Longrightarrow> within R (if b then m else n)"
  by simp

lemma within_option [within_intros]:
  "within R m \<Longrightarrow> (\<And>x. within R (f x)) \<Longrightarrow> within R (case v of None \<Rightarrow> m | Some x \<Rightarrow> f x)"
  by (cases v) auto

lemma within_sum [within_intros]:
  "(\<And>a. within R (f a)) \<Longrightarrow> (\<And>b. within R (g b)) \<Longrightarrow>
     within R (case v of Inl a \<Rightarrow> f a | Inr b \<Rightarrow> g b)"
  by (cases v) auto

end
