(* ===== verification/Text_Format.thy ===== *)
theory Text_Format
  imports Prelude
begin

text \<open>
  The text conversions of the C++ standard library that the program uses: printing of integers
  (\<open>std::format\<close>, \<open>operator<<\<close>, \<open>QString::number\<close>), \<open>std::from_chars\<close> for 64-bit signed
  integers with its three results (\<open>ec\<close>, consumed characters, number), and \<open>std::format\<close> /
  \<open>QString::arg\<close> substitution of plain placeholders. The central facts: what is printed is read
  back, consuming all of it, exactly when the value fits; and the printed text of an integer
  holds digits and at most a leading minus sign.
\<close>

section \<open>Decimal digits\<close>

definition digit_char :: "nat \<Rightarrow> char" where
  "digit_char n = char_of (48 + n)"

definition is_digit :: "char \<Rightarrow> bool" where
  "is_digit c \<longleftrightarrow> 48 \<le> (of_char c :: nat) \<and> (of_char c :: nat) \<le> 57"

definition digit_val :: "char \<Rightarrow> nat" where
  "digit_val c = of_char c - 48"

lemma of_char_digit_char: "n < 10 \<Longrightarrow> of_char (digit_char n) = 48 + n"
  by (simp add: digit_char_def)

lemma is_digit_digit_char [simp]: "n < 10 \<Longrightarrow> is_digit (digit_char n)"
  by (simp add: is_digit_def of_char_digit_char)

lemma digit_val_digit_char [simp]: "n < 10 \<Longrightarrow> digit_val (digit_char n) = n"
  by (simp add: digit_val_def of_char_digit_char)

fun show_nat :: "nat \<Rightarrow> string" where
  "show_nat n = (if n < 10 then [digit_char n] else show_nat (n div 10) @ [digit_char (n mod 10)])"

declare show_nat.simps [simp del]

definition show_int :: "int \<Rightarrow> string" where
  "show_int i = (if i < 0 then CHR ''-'' # show_nat (nat (- i)) else show_nat (nat i))"

definition show_i64 :: "i64 \<Rightarrow> string" where
  "show_i64 w = show_int (sint w)"

fun read_digits :: "nat \<Rightarrow> string \<Rightarrow> nat" where
  "read_digits acc [] = acc"
| "read_digits acc (c # cs) = read_digits (10 * acc + digit_val c) cs"

lemma read_digits_append:
  "read_digits acc (xs @ ys) = read_digits (read_digits acc xs) ys"
  by (induction acc xs rule: read_digits.induct) auto

lemma show_nat_neq_Nil [simp]: "show_nat n \<noteq> []"
  by (subst show_nat.simps) simp

lemma show_nat_digits: "c \<in> set (show_nat n) \<Longrightarrow> is_digit c"
proof (induction n rule: show_nat.induct)
  case (1 n)
  then show ?case
    by (subst (asm) (2) show_nat.simps) (auto split: if_splits)
qed

lemma read_digits_show_nat: "read_digits 0 (show_nat n) = n"
proof (induction n rule: show_nat.induct)
  case (1 n)
  then show ?case
    by (subst show_nat.simps) (auto simp: read_digits_append)
qed

lemma is_digit_minus [simp]: "\<not> is_digit (CHR ''-'')"
  by (simp add: is_digit_def)

lemma hd_show_nat_digit: "is_digit (hd (show_nat n))"
  by (rule show_nat_digits[of _ n]) simp

lemma show_int_neq_Nil [simp]: "show_int i \<noteq> []"
  by (simp add: show_int_def)

lemma show_int_chars: "c \<in> set (show_int i) \<Longrightarrow> is_digit c \<or> c = CHR ''-''"
  by (auto simp: show_int_def dest: show_nat_digits split: if_splits)

section \<open>Reading integers: \<open>std::from_chars\<close>\<close>

datatype errc = Errc_ok | Invalid_argument | Result_out_of_range

definition parse_sint :: "string \<Rightarrow> (nat \<times> int) option" where
  "parse_sint s =
     (let neg = (s \<noteq> [] \<and> hd s = CHR ''-'');
          ds = takeWhile is_digit (if neg then tl s else s);
          v = int (read_digits 0 ds)
      in if ds = [] then None
         else Some (length ds + (if neg then 1 else 0), if neg then - v else v))"

definition from_chars_i64 :: "string \<Rightarrow> errc \<times> nat \<times> i64" where
  "from_chars_i64 s = (case parse_sint s of
      None \<Rightarrow> (Invalid_argument, 0, 0)
    | Some (used, i) \<Rightarrow>
        (if - (2 ^ 63) \<le> i \<and> i < 2 ^ 63 then (Errc_ok, used, word_of_int i)
         else (Result_out_of_range, used, 0)))"

lemma takeWhile_show_nat: "takeWhile is_digit (show_nat n) = show_nat n"
  using show_nat_digits by (auto simp: takeWhile_eq_all_conv)

lemma hd_show_nat_not_minus: "hd (show_nat n) \<noteq> CHR ''-''"
  using hd_show_nat_digit[of n] by auto

lemma parse_sint_show_int: "parse_sint (show_int i) = Some (length (show_int i), i)"
proof (cases "i < 0")
  case True
  then show ?thesis
    by (simp add: parse_sint_def show_int_def takeWhile_show_nat read_digits_show_nat Let_def)
next
  case False
  then show ?thesis
    by (simp add: parse_sint_def show_int_def takeWhile_show_nat read_digits_show_nat Let_def
        hd_show_nat_not_minus)
qed

lemma from_chars_show_int:
  "- (2 ^ 63) \<le> i \<Longrightarrow> i < 2 ^ 63 \<Longrightarrow>
     from_chars_i64 (show_int i) = (Errc_ok, length (show_int i), word_of_int i)"
  by (simp add: from_chars_i64_def parse_sint_show_int)

lemma from_chars_show_int_overflow:
  "i < - (2 ^ 63) \<or> 2 ^ 63 \<le> i \<Longrightarrow>
     from_chars_i64 (show_int i) = (Result_out_of_range, length (show_int i), 0)"
  by (auto simp: from_chars_i64_def parse_sint_show_int)

lemma sint_i64_range: "- (2 ^ 63) \<le> sint (w :: i64)" "sint (w :: i64) < 2 ^ 63"
  using sint_range_size[of w] by (simp_all add: word_size)

lemma from_chars_show_i64: "from_chars_i64 (show_i64 w) = (Errc_ok, length (show_i64 w), w)"
  using from_chars_show_int[OF sint_i64_range[of w]] by (simp add: show_i64_def)

section \<open>Placeholder substitution\<close>

text \<open>
  \<open>std::format\<close> with plain \<open>{}\<close> placeholders: the arguments, already printed, replace them
  from left to right. A substituted text is not scanned again.
\<close>

fun fmt :: "string \<Rightarrow> string list \<Rightarrow> string" where
  "fmt [] as = []"
| "fmt (c # s) as =
     (if c = CHR ''{'' \<and> s \<noteq> [] \<and> hd s = CHR ''}''
      then (case as of [] \<Rightarrow> [] | a # as' \<Rightarrow> a @ fmt (tl s) as')
      else c # fmt s as)"

lemma fmt_no_placeholder: "CHR ''{'' \<notin> set s \<Longrightarrow> fmt (s @ t) as = s @ fmt t as"
  by (induction s) auto

end
