(* ===== verification/Database.thy ===== *)
theory Database
  imports Text_Format
begin

text \<open>
  The schema and the stored procedures of db.sql: one record per table, the tables as lists of
  rows, one function per procedure from the database to an error or the changed database, with
  the procedure's tests in their order. A \<open>SIGNAL SQLSTATE '45000'\<close> is the error
  \<open>Signal msg\<close>. The server runs in strict mode, so a value that a column cannot hold is an
  error. What db.sql leaves to the server's configuration is the parameter \<open>sql_config\<close>: the
  collation (its sort key \<open>weight\<close>, two strings being equal when their keys are), the session
  time zone (conversion between Unix seconds and days), the row whose value a query with
  \<open>GROUP BY\<close> gives for a column outside it, and the arithmetic and printing of \<open>DOUBLE\<close>.
\<close>

section \<open>Configuration, errors, tables\<close>

record sql_config =
  weight :: "string \<Rightarrow> string"
  day_of_unix :: "int \<Rightarrow> int option"
  unix_of_day :: "int \<Rightarrow> int"
  parse_date :: "string \<Rightarrow> int option"
  pick_row :: "int list \<Rightarrow> int"
  dbl_of_text :: "string \<Rightarrow> dbl option"
  dbl_text :: "dbl \<Rightarrow> string"
  dbl_scale :: "nat \<Rightarrow> dbl \<Rightarrow> dbl"
  dbl_sum :: "dbl list \<Rightarrow> dbl"

definition sql_eq :: "sql_config \<Rightarrow> string \<Rightarrow> string \<Rightarrow> bool" where
  "sql_eq cfg a b \<longleftrightarrow> weight cfg a = weight cfg b"

datatype sql_error =
    Signal string
  | Duplicate_entry
  | Foreign_key
  | Out_of_range
  | Incorrect_value
  | Data_too_long
  | Bad_statement

record rank_row =
  r_id :: int
  r_name :: string

record user_row =
  u_login :: string
  u_sha256_pwd :: string
  u_sname :: "string option"
  u_name :: "string option"
  u_pname :: "string option"
  u_rank :: int

record customer_row =
  c_telephone :: nat
  c_sname :: "string option"
  c_name :: "string option"
  c_pname :: "string option"

record order_row =
  o_id :: int
  o_customer_tel :: nat
  o_date_of_start :: int
  o_date_of_expire :: int
  o_date_of_completion :: "int option"

record named_row =
  n_id :: int
  n_name :: string

record item_row =
  it_id :: int
  it_name :: string
  it_cost :: dbl
  it_count :: nat
  it_distributor :: int
  it_type :: int
  it_description :: string

record ordered_item_row =
  oi_id :: int
  oi_item :: int
  oi_order :: int
  oi_count :: nat

record db =
  ranks :: "rank_row list"
  users :: "user_row list"
  customers :: "customer_row list"
  orders :: "order_row list"
  distributors :: "named_row list"
  item_types :: "named_row list"
  items :: "item_row list"
  ordered_items :: "ordered_item_row list"
  next_order :: int
  next_item :: int
  next_ordered_item :: int

text \<open>The database as the script creates it, before the sample rows at its end.\<close>

definition number_rows :: "string list \<Rightarrow> named_row list" where
  "number_rows names = map (\<lambda>(i, n). \<lparr>n_id = int i, n_name = n\<rparr>) (zip [1..<Suc (length names)] names)"

definition init_db :: db where
  "init_db = \<lparr>
     ranks = [\<lparr>r_id = 1, r_name = ''Admin''\<rparr>, \<lparr>r_id = 2, r_name = ''Employee''\<rparr>,
       \<lparr>r_id = 3, r_name = ''Accountant''\<rparr>],
     users = [], customers = [], orders = [],
     distributors = number_rows [''AMD'', ''NVIDIA'', ''HP'', ''VIA'', ''ASUS'', ''Acer'', ''Lenovo'', ''DELL''],
     item_types = number_rows [''CPU'', ''GPU'', ''RAM'', ''Laptop'', ''Monitor'', ''Motherboard'',
       ''Keyboard'', ''Mice''],
     items = [], ordered_items = [],
     next_order = 1, next_item = 1, next_ordered_item = 1\<rparr>"

text \<open>\<open>INT\<close> holds \<open>-2^31 .. 2^31 - 1\<close>, \<open>INT UNSIGNED\<close> up to \<open>2^32 - 1\<close>.\<close>

definition int_max :: int where "int_max = 2 ^ 31 - 1"

definition uint_max :: nat where "uint_max = 2 ^ 32 - 1"

definition store_unsigned :: "int \<Rightarrow> sql_error + nat" where
  "store_unsigned x = (if 0 \<le> x \<and> x \<le> int uint_max then Inr (nat x) else Inl Out_of_range)"

fun map_err :: "('a \<Rightarrow> 'e + 'b) \<Rightarrow> 'a list \<Rightarrow> 'e + 'b list" where
  "map_err f [] = Inr []"
| "map_err f (x # xs) = (case f x of
      Inl e \<Rightarrow> Inl e
    | Inr y \<Rightarrow> (case map_err f xs of Inl e \<Rightarrow> Inl e | Inr ys \<Rightarrow> Inr (y # ys)))"

section \<open>Users\<close>

definition login_exists :: "sql_config \<Rightarrow> string \<Rightarrow> db \<Rightarrow> bool" where
  "login_exists cfg l db \<longleftrightarrow> list_ex (\<lambda>u. sql_eq cfg (u_login u) l) (users db)"

definition rank_exists :: "int \<Rightarrow> db \<Rightarrow> bool" where
  "rank_exists i db \<longleftrightarrow> list_ex (\<lambda>r. r_id r = i) (ranks db)"

definition CheckUserExists :: "sql_config \<Rightarrow> string \<Rightarrow> string \<Rightarrow> string \<Rightarrow> db \<Rightarrow> bool" where
  "CheckUserExists cfg login pwd rank_name db \<longleftrightarrow>
     list_ex (\<lambda>u. list_ex (\<lambda>r. u_rank u = r_id r \<and> sql_eq cfg (u_login u) login \<and>
       sql_eq cfg (r_name r) rank_name \<and> sql_eq cfg (u_sha256_pwd u) pwd) (ranks db)) (users db)"

definition DeleteUser :: "sql_config \<Rightarrow> string \<Rightarrow> db \<Rightarrow> sql_error + db" where
  "DeleteUser cfg login db =
     Inr (db\<lparr>users := filter (\<lambda>u. \<not> sql_eq cfg (u_login u) login) (users db)\<rparr>)"

definition CreateUser ::
  "sql_config \<Rightarrow> string \<Rightarrow> string \<Rightarrow> string \<Rightarrow> string \<Rightarrow> string \<Rightarrow> int \<Rightarrow> db \<Rightarrow> sql_error + db"
where
  "CreateUser cfg login pwd sname name pname rank_id db =
     (if login_exists cfg login db then Inl (Signal ''UserAlreadyExists'')
      else if \<not> rank_exists rank_id db then Inl (Signal ''RankNotExists'')
      else Inr (db\<lparr>users := users db @ [\<lparr>u_login = login, u_sha256_pwd = pwd, u_sname = Some sname,
        u_name = Some name, u_pname = Some pname, u_rank = rank_id\<rparr>]\<rparr>))"

definition UpdateUser ::
  "sql_config \<Rightarrow> string \<Rightarrow> string \<Rightarrow> string \<Rightarrow> string \<Rightarrow> int \<Rightarrow> db \<Rightarrow> sql_error + db"
where
  "UpdateUser cfg login sname name pname rank_id db =
     (if \<not> rank_exists rank_id db then Inl (Signal ''RankNotExists'')
      else Inr (db\<lparr>users := map (\<lambda>u. if sql_eq cfg (u_login u) login
        then u\<lparr>u_sname := Some sname, u_name := Some name, u_pname := Some pname, u_rank := rank_id\<rparr>
        else u) (users db)\<rparr>))"

section \<open>Customers\<close>

definition customer_exists :: "nat \<Rightarrow> db \<Rightarrow> bool" where
  "customer_exists tel db \<longleftrightarrow> list_ex (\<lambda>c. c_telephone c = tel) (customers db)"

definition CreateCustomer :: "nat \<Rightarrow> string \<Rightarrow> string \<Rightarrow> string \<Rightarrow> db \<Rightarrow> sql_error + db" where
  "CreateCustomer tel sname name pname db =
     (if customer_exists tel db then Inl (Signal ''CustomerAlreadyExists'')
      else Inr (db\<lparr>customers := customers db @ [\<lparr>c_telephone = tel, c_sname = Some sname,
        c_name = Some name, c_pname = Some pname\<rparr>]\<rparr>))"

text \<open>
  Deleting a customer deletes the customer's orders and their items: the foreign keys of
  \<open>NewOrder\<close> and \<open>OrderedItem\<close> are declared \<open>ON DELETE CASCADE\<close>.
\<close>

definition DeleteCustomer :: "nat \<Rightarrow> db \<Rightarrow> sql_error + db" where
  "DeleteCustomer tel db =
     (let gone = map o_id (filter (\<lambda>ord. o_customer_tel ord = tel) (orders db)) in
      Inr (db\<lparr>customers := filter (\<lambda>c. c_telephone c \<noteq> tel) (customers db),
        orders := filter (\<lambda>ord. o_customer_tel ord \<noteq> tel) (orders db),
        ordered_items := filter (\<lambda>oi. oi_order oi \<notin> set gone) (ordered_items db)\<rparr>))"

section \<open>Items\<close>

definition named_exists :: "int \<Rightarrow> named_row list \<Rightarrow> bool" where
  "named_exists i rows \<longleftrightarrow> list_ex (\<lambda>r. n_id r = i) rows"

definition item_exists :: "int \<Rightarrow> db \<Rightarrow> bool" where
  "item_exists i db \<longleftrightarrow> list_ex (\<lambda>it. it_id it = i) (items db)"

definition AddItem ::
  "string \<Rightarrow> dbl \<Rightarrow> nat \<Rightarrow> int \<Rightarrow> int \<Rightarrow> string \<Rightarrow> db \<Rightarrow> sql_error + db"
where
  "AddItem name cost cnt distributor_id type_id description db =
     (if \<not> named_exists distributor_id (distributors db) then Inl (Signal ''DistributorNotExists'')
      else if \<not> named_exists type_id (item_types db) then Inl (Signal ''ItemTypeNotExists'')
      else if next_item db > int_max then Inl Out_of_range
      else Inr (db\<lparr>items := items db @ [\<lparr>it_id = next_item db, it_name = name, it_cost = cost,
        it_count = cnt, it_distributor = distributor_id, it_type = type_id,
        it_description = description\<rparr>], next_item := next_item db + 1\<rparr>))"

text \<open>The trigger \<open>complete_order_check\<close>, run before each update of an \<open>Item\<close> row.\<close>

definition complete_order_check :: "item_row \<Rightarrow> sql_error + item_row" where
  "complete_order_check new =
     (if int (it_count new) < 0 then Inl (Signal ''NotEnoughItems'') else Inr new)"

definition set_count :: "item_row \<Rightarrow> int \<Rightarrow> sql_error + item_row" where
  "set_count it x = (case store_unsigned x of
      Inl e \<Rightarrow> Inl e
    | Inr n \<Rightarrow> complete_order_check (it\<lparr>it_count := n\<rparr>))"

definition AddItemCount :: "int \<Rightarrow> int \<Rightarrow> db \<Rightarrow> sql_error + db" where
  "AddItemCount i appended db =
     (case map_err (\<lambda>it. if it_id it = i then set_count it (int (it_count it) + appended) else Inr it)
        (items db) of
        Inl e \<Rightarrow> Inl e
      | Inr its \<Rightarrow> Inr (db\<lparr>items := its\<rparr>))"

section \<open>Orders\<close>

definition order_exists :: "int \<Rightarrow> db \<Rightarrow> bool" where
  "order_exists i db \<longleftrightarrow> list_ex (\<lambda>ord. o_id ord = i) (orders db)"

definition AddOrderedItem :: "int \<Rightarrow> int \<Rightarrow> nat \<Rightarrow> db \<Rightarrow> sql_error + db" where
  "AddOrderedItem order_id item_id cnt db =
     (if \<not> item_exists item_id db then Inl (Signal ''ItemNotExists'')
      else if next_ordered_item db > int_max then Inl Out_of_range
      else if \<not> order_exists order_id db then Inl Foreign_key
      else Inr (db\<lparr>ordered_items := ordered_items db @ [\<lparr>oi_id = next_ordered_item db,
        oi_item = item_id, oi_order = order_id, oi_count = cnt\<rparr>],
        next_ordered_item := next_ordered_item db + 1\<rparr>))"

text \<open>
  \<open>CURRENT_TIMESTAMP()\<close> is the time \<open>now\<close> of the call, in Unix seconds; stored in a
  \<open>DATE\<close> column it becomes its day. A NULL day does not go into a \<open>NOT NULL\<close> column.
\<close>

definition AddOrder :: "sql_config \<Rightarrow> int \<Rightarrow> nat \<Rightarrow> int option \<Rightarrow> db \<Rightarrow> sql_error + db" where
  "AddOrder cfg now tel expire db =
     (if \<not> customer_exists tel db then Inl (Signal ''CustomerNotExists'')
      else case (day_of_unix cfg now, expire) of
        (Some start, Some e) \<Rightarrow>
          (if next_order db > int_max then Inl Out_of_range
           else Inr (db\<lparr>orders := orders db @ [\<lparr>o_id = next_order db, o_customer_tel = tel,
             o_date_of_start = start, o_date_of_expire = e, o_date_of_completion = None\<rparr>],
             next_order := next_order db + 1\<rparr>))
      | _ \<Rightarrow> Inl Incorrect_value)"

text \<open>
  The derived table \<open>tbl\<close> of \<open>CompleteOrder\<close>: the ordered items of the order joined with their
  items and grouped by distributor, for each group one item id and the sum of the counts.
\<close>

definition order_lines :: "int \<Rightarrow> db \<Rightarrow> (ordered_item_row \<times> item_row) list" where
  "order_lines i db =
     [(oi, it). oi \<leftarrow> filter (\<lambda>oi. oi_order oi = i) (ordered_items db),
                it \<leftarrow> filter (\<lambda>it. it_id it = oi_item oi) (items db)]"

definition line_group ::
  "int \<Rightarrow> (ordered_item_row \<times> item_row) list \<Rightarrow> (ordered_item_row \<times> item_row) list" where
  "line_group g ls = filter (\<lambda>(oi, it). it_distributor it = g) ls"

definition complete_tbl :: "sql_config \<Rightarrow> int \<Rightarrow> db \<Rightarrow> (int \<times> nat) list" where
  "complete_tbl cfg i db =
     (let ls = order_lines i db in
      map (\<lambda>g. (pick_row cfg (map (it_id \<circ> snd) (line_group g ls)),
                sum_list (map (oi_count \<circ> fst) (line_group g ls))))
        (remdups (map (it_distributor \<circ> snd) ls)))"

definition take_stock :: "(int \<times> nat) list \<Rightarrow> item_row \<Rightarrow> sql_error + item_row" where
  "take_stock tbl it = (case map_of tbl (it_id it) of
      None \<Rightarrow> Inr it
    | Some n \<Rightarrow> set_count it (int (it_count it) - int n))"

definition order_completed :: "int \<Rightarrow> db \<Rightarrow> bool" where
  "order_completed i db \<longleftrightarrow>
     list_ex (\<lambda>ord. o_id ord = i \<and> o_date_of_completion ord \<noteq> None) (orders db)"

definition mark_completed :: "int \<Rightarrow> int option \<Rightarrow> order_row \<Rightarrow> order_row" where
  "mark_completed i d ord = (if o_id ord = i then ord\<lparr>o_date_of_completion := d\<rparr> else ord)"

definition CompleteOrder :: "sql_config \<Rightarrow> int \<Rightarrow> int \<Rightarrow> db \<Rightarrow> sql_error + db" where
  "CompleteOrder cfg now i db =
     (if order_completed i db then Inr db
      else case map_err (take_stock (complete_tbl cfg i db)) (items db) of
        Inl e \<Rightarrow> Inl e
      | Inr its \<Rightarrow> Inr (db\<lparr>items := its,
          orders := map (mark_completed i (day_of_unix cfg now)) (orders db)\<rparr>))"

section \<open>Queries\<close>

text \<open>
  The rows of each query as the client library receives them: one optional text per column.
\<close>

type_synonym row = "string option list"

definition GetRanks_columns :: "string list" where
  "GetRanks_columns = [''id'', ''name'']"

definition GetRanks :: "db \<Rightarrow> row list" where
  "GetRanks db = map (\<lambda>r. [Some (show_int (r_id r)), Some (r_name r)]) (ranks db)"

definition GetUsers_columns :: "string list" where
  "GetUsers_columns = [''login'', ''sname'', ''name'', ''pname'', ''rank'']"

definition GetUsers :: "db \<Rightarrow> row list" where
  "GetUsers db =
     [[Some (u_login u), u_sname u, u_name u, u_pname u, Some (r_name r)].
        u \<leftarrow> users db, r \<leftarrow> filter (\<lambda>r. u_rank u = r_id r) (ranks db)]"

definition GetCustomers_columns :: "string list" where
  "GetCustomers_columns = [''telephone'', ''sname'', ''name'', ''pname'']"

definition GetCustomers :: "db \<Rightarrow> row list" where
  "GetCustomers db =
     map (\<lambda>c. [Some (show_nat (c_telephone c)), c_sname c, c_name c, c_pname c]) (customers db)"

definition named_columns :: "string list" where
  "named_columns = [''id'', ''name'']"

definition named_rows :: "named_row list \<Rightarrow> row list" where
  "named_rows rs = map (\<lambda>r. [Some (show_int (n_id r)), Some (n_name r)]) rs"

definition GetDistributors :: "db \<Rightarrow> row list" where
  "GetDistributors db = named_rows (distributors db)"

definition GetItemTypes :: "db \<Rightarrow> row list" where
  "GetItemTypes db = named_rows (item_types db)"

definition Order_columns :: "string list" where
  "Order_columns = [''id'', ''date_of_start'', ''date_of_expire'', ''date_of_completion'',
     ''c_telephone'', ''c_sname'', ''c_name'', ''c_pname'']"

definition order_rows :: "sql_config \<Rightarrow> (order_row \<Rightarrow> bool) \<Rightarrow> db \<Rightarrow> row list" where
  "order_rows cfg P db =
     [[Some (show_int (o_id ord)), Some (show_int (unix_of_day cfg (o_date_of_start ord))),
       Some (show_int (unix_of_day cfg (o_date_of_expire ord))),
       map_option (\<lambda>d. show_int (unix_of_day cfg d)) (o_date_of_completion ord),
       Some (show_nat (c_telephone c)), c_sname c, c_name c, c_pname c].
        ord \<leftarrow> filter P (orders db),
        c \<leftarrow> filter (\<lambda>c. o_customer_tel ord = c_telephone c) (customers db)]"

definition GetOrders :: "sql_config \<Rightarrow> db \<Rightarrow> row list" where
  "GetOrders cfg db = order_rows cfg (\<lambda>ord. True) db"

text \<open>
  The test of \<open>GetExpiredOrders\<close>: a completion day is compared with the expiry day, the
  current time stamp with the midnight at which the expiry day begins.
\<close>

definition order_expired :: "sql_config \<Rightarrow> int \<Rightarrow> order_row \<Rightarrow> bool" where
  "order_expired cfg now ord = (case o_date_of_completion ord of
      Some d \<Rightarrow> d > o_date_of_expire ord
    | None \<Rightarrow> now > unix_of_day cfg (o_date_of_expire ord))"

definition GetExpiredOrders :: "sql_config \<Rightarrow> int \<Rightarrow> db \<Rightarrow> row list" where
  "GetExpiredOrders cfg now db = order_rows cfg (order_expired cfg now) db"

text \<open>A comparison with a NULL bound is not true.\<close>

definition completed_between :: "int option \<Rightarrow> int option \<Rightarrow> order_row \<Rightarrow> bool" where
  "completed_between start end ord =
     (case (o_date_of_completion ord, start, end) of
        (Some d, Some s, Some e) \<Rightarrow> s \<le> d \<and> d \<le> e
      | _ \<Rightarrow> False)"

definition GetCompletedOrders ::
  "sql_config \<Rightarrow> int option \<Rightarrow> int option \<Rightarrow> db \<Rightarrow> row list" where
  "GetCompletedOrders cfg start end db = order_rows cfg (completed_between start end) db"

definition GetOrderItems_columns :: "string list" where
  "GetOrderItems_columns = [''id'', ''count_in_order'', ''name'', ''cost'', ''distributor'',
     ''description'', ''type'', ''common_cost'']"

definition GetOrderItems :: "sql_config \<Rightarrow> int \<Rightarrow> db \<Rightarrow> row list" where
  "GetOrderItems cfg i db =
     [[Some (show_int (oi_id oi)), Some (show_nat (oi_count oi)), Some (it_name it),
       Some (dbl_text cfg (it_cost it)), Some (n_name dist), Some (it_description it),
       Some (n_name ty), Some (dbl_text cfg (dbl_scale cfg (oi_count oi) (it_cost it)))].
        (oi, it) \<leftarrow> order_lines i db,
        dist \<leftarrow> filter (\<lambda>r. it_distributor it = n_id r) (distributors db),
        ty \<leftarrow> filter (\<lambda>r. it_type it = n_id r) (item_types db)]"

definition GetItems_columns :: "string list" where
  "GetItems_columns = [''id'', ''name'', ''cost'', ''count_on_warehouse'', ''distributor'',
     ''type'', ''description'']"

definition GetItems :: "sql_config \<Rightarrow> db \<Rightarrow> row list" where
  "GetItems cfg db =
     [[Some (show_int (it_id it)), Some (it_name it), Some (dbl_text cfg (it_cost it)),
       Some (show_nat (it_count it)), Some (n_name dist), Some (n_name ty), Some (it_description it)].
        it \<leftarrow> items db,
        dist \<leftarrow> filter (\<lambda>r. it_distributor it = n_id r) (distributors db),
        ty \<leftarrow> filter (\<lambda>r. it_type it = n_id r) (item_types db)]"

text \<open>The sales the two reports sum over: item lines of the orders completed in the period.\<close>

definition sold_lines ::
  "int option \<Rightarrow> int option \<Rightarrow> db \<Rightarrow> (ordered_item_row \<times> item_row) list" where
  "sold_lines start end db =
     [(oi, it). oi \<leftarrow> ordered_items db,
                it \<leftarrow> filter (\<lambda>it. oi_item oi = it_id it) (items db),
                ord \<leftarrow> filter (\<lambda>ord. oi_order oi = o_id ord \<and> completed_between start end ord) (orders db)]"

definition line_cost :: "sql_config \<Rightarrow> ordered_item_row \<times> item_row \<Rightarrow> dbl" where
  "line_cost cfg l = dbl_scale cfg (oi_count (fst l)) (it_cost (snd l))"

definition GetIncome :: "sql_config \<Rightarrow> int option \<Rightarrow> int option \<Rightarrow> db \<Rightarrow> row list" where
  "GetIncome cfg start end db =
     (case sold_lines start end db of
        [] \<Rightarrow> [[Some ''0'']]
      | ls \<Rightarrow> [[Some (dbl_text cfg (dbl_sum cfg (map (line_cost cfg) ls)))]])"

definition GetStatistics_columns :: "string list" where
  "GetStatistics_columns = [''common_cost'', ''common_count'', ''distributor'']"

definition statistics_lines ::
  "int option \<Rightarrow> int option \<Rightarrow> db \<Rightarrow> ((ordered_item_row \<times> item_row) \<times> string) list" where
  "statistics_lines start end db =
     [(l, n_name dist). l \<leftarrow> sold_lines start end db,
        dist \<leftarrow> filter (\<lambda>r. it_distributor (snd l) = n_id r) (distributors db)]"

text \<open>Groups by the distributor's name, up to the collation; each group shows its first name.\<close>

definition GetSellsStatiscticsByDistributors ::
  "sql_config \<Rightarrow> int option \<Rightarrow> int option \<Rightarrow> db \<Rightarrow> row list" where
  "GetSellsStatiscticsByDistributors cfg start end db =
     (let ls = statistics_lines start end db in
      map (\<lambda>g. let grp = filter (\<lambda>l. weight cfg (snd l) = g) ls in
          [Some (dbl_text cfg (dbl_sum cfg (map (line_cost cfg \<circ> fst) grp))),
           Some (show_nat (sum_list (map (oi_count \<circ> fst \<circ> fst) grp))),
           Some (snd (hd grp))])
        (remdups (map (weight cfg \<circ> snd) ls)))"

section \<open>Short facts on the tests\<close>

lemma exists_iff:
  "rank_exists i db \<longleftrightarrow> i \<in> r_id ` set (ranks db)"
  "customer_exists tel db \<longleftrightarrow> tel \<in> c_telephone ` set (customers db)"
  "named_exists i rows \<longleftrightarrow> i \<in> n_id ` set rows"
  "item_exists i db \<longleftrightarrow> i \<in> it_id ` set (items db)"
  "order_exists i db \<longleftrightarrow> i \<in> o_id ` set (orders db)"
  by (auto simp: rank_exists_def customer_exists_def named_exists_def item_exists_def
      order_exists_def list_ex_iff)

lemma login_exists_iff:
  "login_exists cfg l db \<longleftrightarrow> weight cfg l \<in> (weight cfg \<circ> u_login) ` set (users db)"
  by (auto simp: login_exists_def list_ex_iff sql_eq_def image_iff eq_commute)

lemma map_err_Inr_iff: "map_err f xs = Inr ys \<longleftrightarrow> list_all2 (\<lambda>x y. f x = Inr y) xs ys"
proof (induction xs arbitrary: ys)
  case Nil
  then show ?case by auto
next
  case (Cons x xs)
  show ?case
    by (cases ys) (auto simp: Cons.IH [symmetric] split: sum.split)
qed

lemma map_err_Inl_cases:
  "map_err f xs = Inl e \<Longrightarrow> \<exists>x \<in> set xs. f x = Inl e"
  by (induction xs) (auto split: sum.splits)

lemma mark_completed_simps [simp]:
  "o_id (mark_completed i d ord) = o_id ord"
  "o_customer_tel (mark_completed i d ord) = o_customer_tel ord"
  "o_date_of_start (mark_completed i d ord) = o_date_of_start ord"
  "o_date_of_expire (mark_completed i d ord) = o_date_of_expire ord"
  "o_date_of_completion (mark_completed i d ord) =
     (if o_id ord = i then d else o_date_of_completion ord)"
  by (simp_all add: mark_completed_def)

lemma complete_order_check_Inr [simp]: "complete_order_check it = Inr it"
  by (simp add: complete_order_check_def)

lemma set_count_eq:
  "set_count it x =
     (if 0 \<le> x \<and> x \<le> int uint_max then Inr (it\<lparr>it_count := nat x\<rparr>) else Inl Out_of_range)"
  by (simp add: set_count_def store_unsigned_def)

end
