(* ===== verification/Database_Invariant.thy ===== *)
theory Database_Invariant
  imports Database
begin

text \<open>
  The integrity of the database as an invariant of the stored procedures: primary keys are
  unique, foreign keys have targets, identifiers stay below the auto-increment counters and
  counts within their column (\<open>db_inv\<close>), and the nullable name columns hold no NULL while
  telephone numbers fit the signed 64-bit integers of the server (\<open>names_ok\<close>). One preservation
  lemma per procedure, then the step relation of all procedures and its reachable states, through
  the locale \<open>invariant_system\<close> that any transition system of the development can use.
\<close>

section \<open>Transition systems with an invariant\<close>

locale invariant_system =
  fixes start :: "'s \<Rightarrow> bool"
    and step :: "'s \<Rightarrow> 's \<Rightarrow> bool"
    and inv :: "'s \<Rightarrow> bool"
  assumes start_inv: "start s \<Longrightarrow> inv s"
    and step_inv: "step s t \<Longrightarrow> inv s \<Longrightarrow> inv t"
begin

lemma steps_inv: "step\<^sup>*\<^sup>* s t \<Longrightarrow> inv s \<Longrightarrow> inv t"
  by (induction rule: rtranclp_induct) (auto intro: step_inv)

lemma reachable_inv: "start s \<Longrightarrow> step\<^sup>*\<^sup>* s t \<Longrightarrow> inv t"
  using steps_inv start_inv by blast

end

section \<open>The invariant\<close>

definition keys_ok :: "sql_config \<Rightarrow> db \<Rightarrow> bool" where
  "keys_ok cfg db \<longleftrightarrow>
     distinct (map r_id (ranks db)) \<and> distinct (map (weight cfg \<circ> u_login) (users db)) \<and>
     distinct (map c_telephone (customers db)) \<and> distinct (map o_id (orders db)) \<and>
     distinct (map n_id (distributors db)) \<and> distinct (map n_id (item_types db)) \<and>
     distinct (map it_id (items db)) \<and> distinct (map oi_id (ordered_items db))"

definition refs_ok :: "db \<Rightarrow> bool" where
  "refs_ok db \<longleftrightarrow>
     (\<forall>u \<in> set (users db). rank_exists (u_rank u) db) \<and>
     (\<forall>ord \<in> set (orders db). customer_exists (o_customer_tel ord) db) \<and>
     (\<forall>it \<in> set (items db). named_exists (it_distributor it) (distributors db) \<and>
        named_exists (it_type it) (item_types db)) \<and>
     (\<forall>oi \<in> set (ordered_items db). item_exists (oi_item oi) db \<and> order_exists (oi_order oi) db)"

definition id_ok :: "int \<Rightarrow> int \<Rightarrow> bool" where
  "id_ok next i \<longleftrightarrow> 1 \<le> i \<and> i < next"

definition ids_ok :: "db \<Rightarrow> bool" where
  "ids_ok db \<longleftrightarrow>
     (\<forall>ord \<in> set (orders db). id_ok (next_order db) (o_id ord)) \<and>
     (\<forall>it \<in> set (items db). id_ok (next_item db) (it_id it) \<and> it_count it \<le> uint_max) \<and>
     (\<forall>oi \<in> set (ordered_items db). id_ok (next_ordered_item db) (oi_id oi) \<and> oi_count oi \<le> uint_max) \<and>
     (\<forall>r \<in> set (ranks db). id_ok (int_max + 1) (r_id r)) \<and>
     (\<forall>r \<in> set (distributors db). id_ok (int_max + 1) (n_id r)) \<and>
     (\<forall>r \<in> set (item_types db). id_ok (int_max + 1) (n_id r)) \<and>
     1 \<le> next_order db \<and> 1 \<le> next_item db \<and> 1 \<le> next_ordered_item db \<and>
     next_order db \<le> int_max + 1 \<and> next_item db \<le> int_max + 1 \<and> next_ordered_item db \<le> int_max + 1"

definition db_inv :: "sql_config \<Rightarrow> db \<Rightarrow> bool" where
  "db_inv cfg db \<longleftrightarrow> keys_ok cfg db \<and> refs_ok db \<and> ids_ok db"

definition names_ok :: "db \<Rightarrow> bool" where
  "names_ok db \<longleftrightarrow>
     (\<forall>u \<in> set (users db). u_sname u \<noteq> None \<and> u_name u \<noteq> None \<and> u_pname u \<noteq> None) \<and>
     (\<forall>c \<in> set (customers db). c_sname c \<noteq> None \<and> c_name c \<noteq> None \<and> c_pname c \<noteq> None \<and>
        c_telephone c < 2 ^ 63)"

lemmas db_inv_defs = db_inv_def keys_ok_def refs_ok_def ids_ok_def id_ok_def exists_iff

lemma init_db_inv: "db_inv cfg init_db"
  by (simp add: db_inv_defs init_db_def number_rows_def int_max_def upt_rec)

lemma init_db_names: "names_ok init_db"
  by (simp add: names_ok_def init_db_def)

section \<open>Every procedure preserves it\<close>

lemma DeleteUser_inv: "DeleteUser cfg l db = Inr db' \<Longrightarrow> db_inv cfg db \<Longrightarrow> db_inv cfg db'"
  by (auto simp: DeleteUser_def db_inv_defs intro: distinct_map_filter)

lemma CreateUser_inv:
  "CreateUser cfg l p s n pn r db = Inr db' \<Longrightarrow> db_inv cfg db \<Longrightarrow> db_inv cfg db'"
  by (auto simp: CreateUser_def login_exists_iff db_inv_defs split: if_splits)

lemma UpdateUser_inv:
  assumes "UpdateUser cfg l s n pn r db = Inr db'" and "db_inv cfg db"
  shows "db_inv cfg db'"
proof -
  define f where "f = (\<lambda>u :: user_row. if sql_eq cfg (u_login u) l
    then u\<lparr>u_sname := Some s, u_name := Some n, u_pname := Some pn, u_rank := r\<rparr> else u)"
  have db': "db' = db\<lparr>users := map f (users db)\<rparr>" and r: "rank_exists r db"
    using assms(1) by (auto simp: UpdateUser_def f_def split: if_splits)
  have login: "u_login (f u) = u_login u" for u
    by (simp add: f_def)
  have rank: "u_rank (f u) = r \<or> u_rank (f u) = u_rank u" for u
    by (simp add: f_def)
  have "rank_exists (u_rank (f u)) db" if "u \<in> set (users db)" for u
    using rank[of u] r that assms(2) by (auto simp: db_inv_def refs_ok_def)
  then show ?thesis
    using assms(2) by (simp add: db' db_inv_defs login comp_def)
qed

lemma CreateCustomer_inv:
  "CreateCustomer t s n pn db = Inr db' \<Longrightarrow> db_inv cfg db \<Longrightarrow> db_inv cfg db'"
  by (auto simp: CreateCustomer_def db_inv_defs split: if_splits)

lemma image_filter_compl: "x \<in> f ` S \<Longrightarrow> x \<notin> f ` {y \<in> S. Q y} \<Longrightarrow> x \<in> f ` {y \<in> S. \<not> Q y}"
  by auto

lemma DeleteCustomer_inv:
  assumes "DeleteCustomer t db = Inr db'" and "db_inv cfg db"
  shows "db_inv cfg db'"
proof -
  have keys: "keys_ok cfg db" and refs: "refs_ok db" and ids: "ids_ok db"
    using assms(2) by (simp_all add: db_inv_def)
  define gone where "gone = o_id ` {ord \<in> set (orders db). o_customer_tel ord = t}"
  have db': "db' = db\<lparr>customers := filter (\<lambda>c. c_telephone c \<noteq> t) (customers db),
      orders := filter (\<lambda>ord. o_customer_tel ord \<noteq> t) (orders db),
      ordered_items := filter (\<lambda>oi. oi_order oi \<notin> gone) (ordered_items db)\<rparr>"
    using assms(1) by (simp add: DeleteCustomer_def Let_def gone_def)
  have "keys_ok cfg db'"
    using keys by (simp add: keys_ok_def db' distinct_map_filter)
  moreover have "ids_ok db'"
    using ids by (simp add: ids_ok_def db')
  moreover have "refs_ok db'"
    using refs by (auto simp: refs_ok_def exists_iff db' gone_def intro: image_filter_compl)
  ultimately show ?thesis by (simp add: db_inv_def)
qed

lemma fresh_id: "(\<And>x. x \<in> set xs \<Longrightarrow> id_ok n (f x)) \<Longrightarrow> n \<notin> f ` set xs"
  by (force simp: id_ok_def)

lemma id_ok_Suc: "id_ok n i \<Longrightarrow> id_ok (n + 1) i"
  by (simp add: id_ok_def)

lemma id_ok_new: "1 \<le> n \<Longrightarrow> id_ok (n + 1) n"
  by (simp add: id_ok_def)

lemma db_invI: "keys_ok cfg db \<Longrightarrow> refs_ok db \<Longrightarrow> ids_ok db \<Longrightarrow> db_inv cfg db"
  by (simp add: db_inv_def)

lemma AddItem_inv:
  assumes "AddItem n c k d t ds db = Inr db'" and "k \<le> uint_max" and "db_inv cfg db"
  shows "db_inv cfg db'"
proof (rule db_invI)
  have inv: "keys_ok cfg db" "refs_ok db" "ids_ok db"
    using assms(3) by (simp_all add: db_inv_def)
  have "next_item db \<notin> it_id ` set (items db)"
    using inv(3) by (intro fresh_id) (simp add: ids_ok_def)
  then show "keys_ok cfg db'"
    using assms(1) inv(1) by (auto simp: AddItem_def keys_ok_def split: if_splits)
  show "refs_ok db'"
    using assms(1) inv(2) by (auto simp: AddItem_def refs_ok_def exists_iff split: if_splits)
  show "ids_ok db'"
    using assms(1,2) inv(3) by (auto simp: AddItem_def ids_ok_def id_ok_Suc id_ok_new split: if_splits)
qed

lemma AddOrder_inv:
  assumes "AddOrder cfg now t e db = Inr db'" and "db_inv cfg db"
  shows "db_inv cfg db'"
proof (rule db_invI)
  have inv: "keys_ok cfg db" "refs_ok db" "ids_ok db"
    using assms(2) by (simp_all add: db_inv_def)
  have "next_order db \<notin> o_id ` set (orders db)"
    using inv(3) by (intro fresh_id) (simp add: ids_ok_def)
  then show "keys_ok cfg db'"
    using assms(1) inv(1) by (auto simp: AddOrder_def keys_ok_def split: if_splits option.splits)
  show "refs_ok db'"
    using assms(1) inv(2)
    by (auto simp: AddOrder_def refs_ok_def exists_iff split: if_splits option.splits)
  show "ids_ok db'"
    using assms(1) inv(3)
    by (auto simp: AddOrder_def ids_ok_def id_ok_Suc id_ok_new split: if_splits option.splits)
qed

lemma AddOrderedItem_inv:
  assumes "AddOrderedItem i it k db = Inr db'" and "k \<le> uint_max" and "db_inv cfg db"
  shows "db_inv cfg db'"
proof (rule db_invI)
  have inv: "keys_ok cfg db" "refs_ok db" "ids_ok db"
    using assms(3) by (simp_all add: db_inv_def)
  have "next_ordered_item db \<notin> oi_id ` set (ordered_items db)"
    using inv(3) by (intro fresh_id) (simp add: ids_ok_def)
  then show "keys_ok cfg db'"
    using assms(1) inv(1) by (auto simp: AddOrderedItem_def keys_ok_def split: if_splits)
  show "refs_ok db'"
    using assms(1) inv(2) by (auto simp: AddOrderedItem_def refs_ok_def exists_iff split: if_splits)
  show "ids_ok db'"
    using assms(1,2) inv(3) by (auto simp: AddOrderedItem_def ids_ok_def id_ok_Suc id_ok_new split: if_splits)
qed

text \<open>Updates of the stock change counts only, within their column.\<close>

definition restocked :: "item_row list \<Rightarrow> item_row list \<Rightarrow> bool" where
  "restocked its its' \<longleftrightarrow> list_all2 (\<lambda>it it'. \<exists>n \<le> uint_max. it' = it\<lparr>it_count := n\<rparr>) its its'"

lemma restocked_maps:
  assumes "restocked its its'"
  shows "map it_id its' = map it_id its"
    and "map it_distributor its' = map it_distributor its" and "map it_type its' = map it_type its"
  using assms unfolding restocked_def by (induction rule: list_all2_induct) auto

lemma restocked_ball:
  assumes "restocked its its'"
    and "\<And>it n. it \<in> set its \<Longrightarrow> n \<le> uint_max \<Longrightarrow> P (it\<lparr>it_count := n\<rparr>)"
  shows "\<forall>it' \<in> set its'. P it'"
  using assms unfolding restocked_def by (induction rule: list_all2_induct) auto

lemma restocked_inv:
  assumes "db_inv cfg db" and r: "restocked (items db) its"
  shows "db_inv cfg (db\<lparr>items := its\<rparr>)"
proof -
  have inv: "keys_ok cfg db" "refs_ok db" "ids_ok db"
    using assms(1) by (simp_all add: db_inv_def)
  have ids: "it_id ` set its = it_id ` set (items db)"
    using restocked_maps(1)[OF r] by (metis set_map)
  have "keys_ok cfg (db\<lparr>items := its\<rparr>)"
    using inv(1) restocked_maps(1)[OF r] by (simp add: keys_ok_def)
  moreover have "\<forall>it \<in> set its. named_exists (it_distributor it) (distributors db) \<and>
      named_exists (it_type it) (item_types db)"
    using inv(2) by (intro restocked_ball[OF r]) (simp add: refs_ok_def)
  then have "refs_ok (db\<lparr>items := its\<rparr>)"
    using inv(2) ids by (simp add: refs_ok_def exists_iff)
  moreover have "\<forall>it \<in> set its. id_ok (next_item db) (it_id it) \<and> it_count it \<le> uint_max"
    using inv(3) by (intro restocked_ball[OF r]) (simp add: ids_ok_def)
  then have "ids_ok (db\<lparr>items := its\<rparr>)"
    using inv(3) by (simp add: ids_ok_def)
  ultimately show ?thesis by (simp add: db_inv_def)
qed

lemma set_count_Inr: "set_count it x = Inr it' \<Longrightarrow> \<exists>n \<le> uint_max. it' = it\<lparr>it_count := n\<rparr>"
  by (auto simp: set_count_eq split: if_splits intro!: exI[of _ "nat x"])

lemma same_count: "it_count it \<le> uint_max \<Longrightarrow> \<exists>n \<le> uint_max. it = it\<lparr>it_count := n\<rparr>"
  by (intro exI[of _ "it_count it"]) simp

lemma map_err_restocked:
  assumes "map_err f (items db) = Inr its" and "ids_ok db"
    and "\<And>it it'. f it = Inr it' \<Longrightarrow> it' = it \<or> (\<exists>x. set_count it x = Inr it')"
  shows "restocked (items db) its"
  unfolding restocked_def
proof (rule list.rel_mono_strong)
  show "list_all2 (\<lambda>x y. f x = Inr y) (items db) its"
    using assms(1) by (simp add: map_err_Inr_iff)
  fix it it' assume it: "it \<in> set (items db)" "f it = Inr it'"
  then have "it_count it \<le> uint_max" using assms(2) by (simp add: ids_ok_def)
  with assms(3)[OF it(2)] same_count set_count_Inr
  show "\<exists>n \<le> uint_max. it' = it\<lparr>it_count := n\<rparr>" by metis
qed

lemma AddItemCount_inv:
  assumes "AddItemCount i k db = Inr db'" and "db_inv cfg db"
  shows "db_inv cfg db'"
proof -
  obtain its where db': "db' = db\<lparr>items := its\<rparr>"
    and m: "map_err (\<lambda>it. if it_id it = i then set_count it (int (it_count it) + k) else Inr it)
      (items db) = Inr its"
    using assms(1) by (auto simp: AddItemCount_def split: sum.splits)
  have "restocked (items db) its"
    using assms(2) by (intro map_err_restocked[OF m]) (auto simp: db_inv_def split: if_splits)
  with assms(2) show ?thesis
    unfolding db' by (rule restocked_inv)
qed

lemma complete_orders_inv:
  "db_inv cfg db \<Longrightarrow> db_inv cfg (db\<lparr>orders := map (mark_completed i d) (orders db)\<rparr>)"
  by (auto simp: db_inv_def keys_ok_def refs_ok_def ids_ok_def exists_iff comp_def image_image)

lemma take_stock_Inr: "take_stock tbl it = Inr it' \<Longrightarrow> it' = it \<or> (\<exists>x. set_count it x = Inr it')"
  by (auto simp: take_stock_def split: option.splits)

lemma CompleteOrder_cases:
  assumes "CompleteOrder cfg now i db = Inr db'"
  obtains "order_completed i db" "db' = db"
  | its where "\<not> order_completed i db"
      "map_err (take_stock (complete_tbl cfg i db)) (items db) = Inr its"
      "db' = db\<lparr>items := its, orders := map (mark_completed i (day_of_unix cfg now)) (orders db)\<rparr>"
  using assms by (auto simp: CompleteOrder_def split: if_splits sum.splits)

lemma CompleteOrder_inv:
  assumes "CompleteOrder cfg now i db = Inr db'" and "db_inv cfg db"
  shows "db_inv cfg db'"
  using assms(1)
proof (cases rule: CompleteOrder_cases)
  case 1
  with assms(2) show ?thesis by simp
next
  case (2 its)
  have "restocked (items db) its"
    using 2(2) assms(2) by (intro map_err_restocked[OF 2(2)]) (auto simp: db_inv_def dest: take_stock_Inr)
  then have "db_inv cfg (db\<lparr>items := its\<rparr>)"
    using assms(2) by (rule restocked_inv[rotated])
  from complete_orders_inv[OF this, of i "day_of_unix cfg now"] show ?thesis
    by (simp add: 2(3))
qed

section \<open>All procedures together\<close>

text \<open>
  One step of the database: a successful call of a procedure. \<open>INT UNSIGNED\<close> arguments and
  telephone numbers are as the server can send them.
\<close>

inductive proc_step :: "sql_config \<Rightarrow> db \<Rightarrow> db \<Rightarrow> bool" for cfg :: sql_config where
  delete_user: "DeleteUser cfg l db = Inr db' \<Longrightarrow> proc_step cfg db db'"
| create_user: "CreateUser cfg l p s n pn r db = Inr db' \<Longrightarrow> proc_step cfg db db'"
| update_user: "UpdateUser cfg l s n pn r db = Inr db' \<Longrightarrow> proc_step cfg db db'"
| create_customer: "CreateCustomer t s n pn db = Inr db' \<Longrightarrow> t < 2 ^ 63 \<Longrightarrow> proc_step cfg db db'"
| delete_customer: "DeleteCustomer t db = Inr db' \<Longrightarrow> proc_step cfg db db'"
| add_item: "AddItem n c k d ty ds db = Inr db' \<Longrightarrow> k \<le> uint_max \<Longrightarrow> proc_step cfg db db'"
| add_item_count: "AddItemCount i x db = Inr db' \<Longrightarrow> proc_step cfg db db'"
| add_order: "AddOrder cfg now t e db = Inr db' \<Longrightarrow> proc_step cfg db db'"
| add_ordered_item: "AddOrderedItem i it k db = Inr db' \<Longrightarrow> k \<le> uint_max \<Longrightarrow> proc_step cfg db db'"
| complete_order: "CompleteOrder cfg now i db = Inr db' \<Longrightarrow> proc_step cfg db db'"

inductive_cases proc_stepE: "proc_step cfg db db'"

lemma proc_step_inv: "proc_step cfg db db' \<Longrightarrow> db_inv cfg db \<Longrightarrow> db_inv cfg db'"
  by (elim proc_stepE)
    (auto dest: DeleteUser_inv CreateUser_inv UpdateUser_inv CreateCustomer_inv DeleteCustomer_inv
      AddItem_inv AddItemCount_inv AddOrder_inv AddOrderedItem_inv CompleteOrder_inv)

lemma proc_step_names: "proc_step cfg db db' \<Longrightarrow> names_ok db \<Longrightarrow> names_ok db'"
  by (elim proc_stepE)
    (auto simp: names_ok_def DeleteUser_def CreateUser_def UpdateUser_def CreateCustomer_def
      DeleteCustomer_def AddItem_def AddItemCount_def AddOrder_def AddOrderedItem_def Let_def
      elim!: CompleteOrder_cases split: if_splits sum.splits option.splits)

interpretation dbsys: invariant_system "\<lambda>db. db = init_db" "proc_step cfg"
  "\<lambda>db. db_inv cfg db \<and> names_ok db" for cfg
  by unfold_locales (auto simp: init_db_inv init_db_names dest: proc_step_inv proc_step_names)

end
