(* ===== verification/Sample_Data.thy ===== *)
theory Sample_Data
  imports Database_Invariant
begin

text \<open>
  The sample rows at the end of db.sql as a run of the stored procedures, and one configuration
  under which the development's witnesses evaluate: a binary collation, a session in UTC, the
  first row of a group as its representative, amounts of money as whole numbers.
\<close>

section \<open>The script\<close>

fun run_all :: "(db \<Rightarrow> sql_error + db) list \<Rightarrow> db \<Rightarrow> sql_error + db" where
  "run_all [] db = Inr db"
| "run_all (f # fs) db = (case f db of Inl e \<Rightarrow> Inl e | Inr db' \<Rightarrow> run_all fs db')"

definition pwd_amogus :: string where
  "pwd_amogus = ''80c5e536eec8387cccad28b8b17b933832244998d85918abf18cc9bada5d4fe9''"

definition pwd_abobus :: string where
  "pwd_abobus = ''32c9a2ec9e0c4e3a4cc93012b2e72c04b2c395578dcc80b535e951b452eaf9a3''"

definition pwd_amongaust :: string where
  "pwd_amongaust = ''a2c1492a15db8248ab62f9575d18753b5fda78b7ab3e89111af2ece23849a51c''"

definition seed_script ::
  "sql_config \<Rightarrow> (string \<Rightarrow> dbl) \<Rightarrow> int \<Rightarrow> int \<Rightarrow> (db \<Rightarrow> sql_error + db) list" where
  "seed_script cfg cost now year_later =
    [CreateUser cfg ''amogus'' pwd_amogus ''amogus_sname'' ''amogus_name'' ''amogus_pname'' 1,
     CreateUser cfg ''abobus'' pwd_abobus ''amogus_sname'' ''amogus_name'' ''amogus_pname'' 2,
     CreateUser cfg ''amongaust'' pwd_amongaust ''amogus_sname'' ''amogus_name'' ''amogus_pname'' 3,
     CreateCustomer 123 ''c1_name'' ''c1_sname'' ''c1_pname'',
     CreateCustomer 456 ''c2_name'' ''c2_sname'' ''c2_pname'',
     CreateCustomer 789 ''c3_name'' ''c3_sname'' ''c3_pname'',
     AddItem ''Ryzen 5 1600'' (cost ''250.09'') 189 1 1 ''Ryzen 5 1600, 6 cores, 12 threads'',
     AddItem ''NVIDIA GTX 1080Ti'' (cost ''1058.4'') 53 2 2 ''GPU NVIDIA GTX1080Ti'',
     AddItem ''Intel Core i3 9100F'' (cost ''135.3'') 456 3 1 ''Intel Core i3 9100F 4 cores, 8 threads'',
     AddOrder cfg now 123 (day_of_unix cfg year_later),
     AddOrderedItem 1 1 18,
     AddOrderedItem 1 2 7,
     AddOrderedItem 1 3 75,
     AddOrderedItem 1 1 9]"

section \<open>A configuration and the resulting database\<close>

definition sample_cfg :: sql_config where
  "sample_cfg = \<lparr>
     weight = (\<lambda>s. s),
     day_of_unix = (\<lambda>t. if 0 \<le> t then Some (t div 86400) else None),
     unix_of_day = (\<lambda>d. d * 86400),
     parse_date = (\<lambda>s. None),
     pick_row = hd,
     dbl_of_text = (\<lambda>s. case parse_sint s of
        Some (used, i) \<Rightarrow> if used = length s then Some (word_of_int i) else None | None \<Rightarrow> None),
     dbl_text = (\<lambda>d. show_nat (unat d)),
     dbl_scale = (\<lambda>n d. of_nat n * d),
     dbl_sum = sum_list\<rparr>"

definition sample_cost :: "string \<Rightarrow> dbl" where
  "sample_cost s = word_of_nat (read_digits 0 (takeWhile is_digit s))"

definition sample_now :: int where "sample_now = 1700000000"

definition sample_db :: db where
  "sample_db = (case run_all (seed_script sample_cfg sample_cost sample_now 1731536000) init_db of
     Inr db \<Rightarrow> db | Inl e \<Rightarrow> init_db)"

lemma init_db_fields [simp]:
  "users init_db = []" "customers init_db = []" "orders init_db = []" "items init_db = []"
  "ordered_items init_db = []" "next_order init_db = 1" "next_item init_db = 1"
  "next_ordered_item init_db = 1"
  "ranks init_db = [\<lparr>r_id = 1, r_name = ''Admin''\<rparr>, \<lparr>r_id = 2, r_name = ''Employee''\<rparr>,
     \<lparr>r_id = 3, r_name = ''Accountant''\<rparr>]"
  by (simp_all add: init_db_def)

lemma init_db_distributors [simp]:
  "distributors init_db = [\<lparr>n_id = 1, n_name = ''AMD''\<rparr>, \<lparr>n_id = 2, n_name = ''NVIDIA''\<rparr>,
     \<lparr>n_id = 3, n_name = ''HP''\<rparr>, \<lparr>n_id = 4, n_name = ''VIA''\<rparr>, \<lparr>n_id = 5, n_name = ''ASUS''\<rparr>,
     \<lparr>n_id = 6, n_name = ''Acer''\<rparr>, \<lparr>n_id = 7, n_name = ''Lenovo''\<rparr>, \<lparr>n_id = 8, n_name = ''DELL''\<rparr>]"
  by (simp add: init_db_def number_rows_def upt_rec)

lemma init_db_item_types [simp]:
  "item_types init_db = [\<lparr>n_id = 1, n_name = ''CPU''\<rparr>, \<lparr>n_id = 2, n_name = ''GPU''\<rparr>,
     \<lparr>n_id = 3, n_name = ''RAM''\<rparr>, \<lparr>n_id = 4, n_name = ''Laptop''\<rparr>, \<lparr>n_id = 5, n_name = ''Monitor''\<rparr>,
     \<lparr>n_id = 6, n_name = ''Motherboard''\<rparr>, \<lparr>n_id = 7, n_name = ''Keyboard''\<rparr>, \<lparr>n_id = 8, n_name = ''Mice''\<rparr>]"
  by (simp add: init_db_def number_rows_def upt_rec)

lemma sample_db_eval:
  "sample_db = init_db\<lparr>
     users := [
       \<lparr>u_login = ''amogus'', u_sha256_pwd = pwd_amogus, u_sname = Some ''amogus_sname'',
         u_name = Some ''amogus_name'', u_pname = Some ''amogus_pname'', u_rank = 1\<rparr>,
       \<lparr>u_login = ''abobus'', u_sha256_pwd = pwd_abobus, u_sname = Some ''amogus_sname'',
         u_name = Some ''amogus_name'', u_pname = Some ''amogus_pname'', u_rank = 2\<rparr>,
       \<lparr>u_login = ''amongaust'', u_sha256_pwd = pwd_amongaust, u_sname = Some ''amogus_sname'',
         u_name = Some ''amogus_name'', u_pname = Some ''amogus_pname'', u_rank = 3\<rparr>],
     customers := [
       \<lparr>c_telephone = 123, c_sname = Some ''c1_name'', c_name = Some ''c1_sname'', c_pname = Some ''c1_pname''\<rparr>,
       \<lparr>c_telephone = 456, c_sname = Some ''c2_name'', c_name = Some ''c2_sname'', c_pname = Some ''c2_pname''\<rparr>,
       \<lparr>c_telephone = 789, c_sname = Some ''c3_name'', c_name = Some ''c3_sname'', c_pname = Some ''c3_pname''\<rparr>],
     items := [
       \<lparr>it_id = 1, it_name = ''Ryzen 5 1600'', it_cost = 250, it_count = 189, it_distributor = 1,
         it_type = 1, it_description = ''Ryzen 5 1600, 6 cores, 12 threads''\<rparr>,
       \<lparr>it_id = 2, it_name = ''NVIDIA GTX 1080Ti'', it_cost = 1058, it_count = 53, it_distributor = 2,
         it_type = 2, it_description = ''GPU NVIDIA GTX1080Ti''\<rparr>,
       \<lparr>it_id = 3, it_name = ''Intel Core i3 9100F'', it_cost = 135, it_count = 456, it_distributor = 3,
         it_type = 1, it_description = ''Intel Core i3 9100F 4 cores, 8 threads''\<rparr>],
     next_item := 4,
     orders := [\<lparr>o_id = 1, o_customer_tel = 123, o_date_of_start = 19675, o_date_of_expire = 20040,
       o_date_of_completion = None\<rparr>],
     next_order := 2,
     ordered_items := [
       \<lparr>oi_id = 1, oi_item = 1, oi_order = 1, oi_count = 18\<rparr>,
       \<lparr>oi_id = 2, oi_item = 2, oi_order = 1, oi_count = 7\<rparr>,
       \<lparr>oi_id = 3, oi_item = 3, oi_order = 1, oi_count = 75\<rparr>,
       \<lparr>oi_id = 4, oi_item = 1, oi_order = 1, oi_count = 9\<rparr>],
     next_ordered_item := 5\<rparr>"
  by (simp add: sample_db_def seed_script_def CreateUser_def CreateCustomer_def AddItem_def AddOrder_def
      AddOrderedItem_def login_exists_def rank_exists_def customer_exists_def named_exists_def
      item_exists_def order_exists_def sql_eq_def sample_cfg_def sample_cost_def sample_now_def
      is_digit_def digit_val_def int_max_def pwd_amogus_def)

lemma sample_db_inv: "db_inv sample_cfg sample_db"
  by (simp add: sample_db_eval db_inv_defs sample_cfg_def int_max_def uint_max_def)

lemma sample_names_ok: "names_ok sample_db"
  by (simp add: sample_db_eval names_ok_def)

text \<open>
  A second item of the first distributor, ordered together with the first one; and an order that
  asks for more than the stock.
\<close>

definition clash_db :: db where
  "clash_db = sample_db\<lparr>
     items := items sample_db @ [\<lparr>it_id = 4, it_name = ''Ryzen 7 1700'', it_cost = 300, it_count = 20,
       it_distributor = 1, it_type = 1, it_description = ''Ryzen 7 1700''\<rparr>],
     next_item := 5,
     ordered_items := [\<lparr>oi_id = 1, oi_item = 1, oi_order = 1, oi_count = 5\<rparr>,
       \<lparr>oi_id = 2, oi_item = 4, oi_order = 1, oi_count = 6\<rparr>]\<rparr>"

definition greedy_db :: db where
  "greedy_db = sample_db\<lparr>ordered_items := [\<lparr>oi_id = 1, oi_item = 2, oi_order = 1, oi_count = 54\<rparr>]\<rparr>"

lemma clash_db_inv: "db_inv sample_cfg clash_db"
  by (simp add: clash_db_def sample_db_eval db_inv_defs sample_cfg_def int_max_def uint_max_def)

lemma greedy_db_ids: "ids_ok greedy_db"
  by (simp add: greedy_db_def sample_db_eval ids_ok_def id_ok_def int_max_def uint_max_def)

end
