(* ===== verification/Order_Completion.thy ===== *)
theory Order_Completion
  imports Sample_Data
begin

text \<open>
  What completing an order does to the stock (\<open>CompleteOrder\<close> of db.sql). The derived table of
  the procedure groups the ordered items by distributor and keeps one item id per group, so the
  whole sum of a distributor is taken from that one item. The lemmas give the table's content,
  the exact effect when an order has at most one item per distributor, what is conserved always,
  and what goes wrong otherwise.
\<close>

definition pick_ok :: "sql_config \<Rightarrow> bool" where
  "pick_ok cfg \<longleftrightarrow> (\<forall>xs. xs \<noteq> [] \<longrightarrow> pick_row cfg xs \<in> set xs)"

definition ordered_total :: "int \<Rightarrow> int \<Rightarrow> db \<Rightarrow> nat" where
  "ordered_total i item db =
     sum_list (map oi_count (filter (\<lambda>oi. oi_order oi = i \<and> oi_item oi = item) (ordered_items db)))"

definition stock :: "int \<Rightarrow> db \<Rightarrow> nat" where
  "stock item db = sum_list (map it_count (filter (\<lambda>it. it_id it = item) (items db)))"

definition distributor_stock :: "int \<Rightarrow> db \<Rightarrow> nat" where
  "distributor_stock g db = sum_list (map it_count (filter (\<lambda>it. it_distributor it = g) (items db)))"

definition distributor_ordered :: "int \<Rightarrow> int \<Rightarrow> db \<Rightarrow> nat" where
  "distributor_ordered i g db = sum_list (map (oi_count \<circ> fst) (line_group g (order_lines i db)))"

section \<open>The derived table\<close>

lemma map_of_graph:
  assumes "\<And>g. g \<in> set gs \<Longrightarrow> f g = k \<Longrightarrow> g = g0"
  shows "map_of (map (\<lambda>g. (f g, h g)) gs) k = (if g0 \<in> set gs \<and> f g0 = k then Some (h g0) else None)"
  using assms by (induction gs) auto

lemma order_lines_items: "(oi, it) \<in> set (order_lines i db) \<Longrightarrow> it \<in> set (items db)"
  by (auto simp: order_lines_def)

lemma items_eqI:
  assumes "db_inv cfg db" and "x \<in> set (items db)" and "y \<in> set (items db)" and "it_id x = it_id y"
  shows "x = y"
  using assms by (auto simp: db_inv_def keys_ok_def distinct_map inj_on_def)

lemma group_nonempty_iff:
  "line_group g ls \<noteq> [] \<longleftrightarrow> g \<in> set (map (it_distributor \<circ> snd) ls)"
  by (force simp: line_group_def filter_empty_conv)

lemma complete_tbl_lookup:
  fixes i :: int
  assumes inv: "db_inv cfg db" and "pick_ok cfg" and it: "it \<in> set (items db)"
  defines "grp \<equiv> line_group (it_distributor it) (order_lines i db)"
  shows "map_of (complete_tbl cfg i db) (it_id it) =
     (if grp \<noteq> [] \<and> pick_row cfg (map (it_id \<circ> snd) grp) = it_id it
      then Some (distributor_ordered i (it_distributor it) db) else None)"
proof -
  let ?ls = "order_lines i db"
  have uniq: "g = it_distributor it"
    if "g \<in> set (remdups (map (it_distributor \<circ> snd) ?ls))"
      and pick: "pick_row cfg (map (it_id \<circ> snd) (line_group g ?ls)) = it_id it" for g
  proof -
    have "line_group g ?ls \<noteq> []"
      using that(1) by (subst group_nonempty_iff) simp
    then have "it_id it \<in> set (map (it_id \<circ> snd) (line_group g ?ls))"
      using \<open>pick_ok cfg\<close> pick by (metis map_is_Nil_conv pick_ok_def)
    then obtain oi it' where l: "(oi, it') \<in> set ?ls" "it_distributor it' = g" "it_id it' = it_id it"
      by (auto simp: line_group_def)
    have "it' = it"
      by (rule items_eqI[OF inv order_lines_items[OF l(1)] it l(3)])
    with l(2) show ?thesis by simp
  qed
  have "map_of (complete_tbl cfg i db) (it_id it) =
     (if it_distributor it \<in> set (remdups (map (it_distributor \<circ> snd) ?ls)) \<and>
         pick_row cfg (map (it_id \<circ> snd) (line_group (it_distributor it) ?ls)) = it_id it
      then Some (distributor_ordered i (it_distributor it) db) else None)"
    unfolding complete_tbl_def Let_def distributor_ordered_def by (rule map_of_graph) (rule uniq)
  then show ?thesis
    unfolding grp_def group_nonempty_iff by (simp only: set_remdups)
qed

definition taken :: "sql_config \<Rightarrow> int \<Rightarrow> db \<Rightarrow> item_row \<Rightarrow> nat" where
  "taken cfg i db it = (case map_of (complete_tbl cfg i db) (it_id it) of None \<Rightarrow> 0 | Some n \<Rightarrow> n)"

lemma take_stock_count:
  assumes "take_stock (complete_tbl cfg i db) it = Inr it'"
  shows "it_id it' = it_id it \<and> it_distributor it' = it_distributor it \<and>
     it_count it' + taken cfg i db it = it_count it"
  using assms by (auto simp: take_stock_def taken_def set_count_eq split: option.splits if_splits)

text \<open>The effect on the list of items, for an order that was still open.\<close>

lemma CompleteOrder_items:
  assumes "CompleteOrder cfg now i db = Inr db'" and "\<not> order_completed i db"
  shows "list_all2 (\<lambda>it it'. it_id it' = it_id it \<and> it_distributor it' = it_distributor it \<and>
     it_count it' + taken cfg i db it = it_count it) (items db) (items db')"
  using assms(1)
proof (cases rule: CompleteOrder_cases)
  case 1
  with assms(2) show ?thesis by simp
next
  case (2 its)
  then have "list_all2 (\<lambda>it it'. take_stock (complete_tbl cfg i db) it = Inr it') (items db) its"
    by (simp add: map_err_Inr_iff)
  then show ?thesis
    unfolding 2(3) by (auto elim!: list_all2_mono dest!: take_stock_count)
qed

section \<open>Sums over the stock\<close>

lemma sum_list_all2:
  assumes "list_all2 (\<lambda>x y. f y + d x = f x \<and> (P y \<longleftrightarrow> P x)) xs ys"
  shows "sum_list (map f (filter P ys)) + sum_list (map d (filter P xs)) =
     (sum_list (map f (filter P xs)) :: nat)"
  using assms by (induction rule: list_all2_induct) auto

lemma sum_list_key:
  assumes "distinct (map key xs)" and "x \<in> set xs"
  shows "sum_list (map (\<lambda>y. if key y = key x then n else 0) xs) = (n :: nat)"
  using assms
proof (induction xs)
  case Nil
  then show ?case by simp
next
  case (Cons a xs)
  show ?case
  proof (cases "x = a")
    case True
    with Cons.prems(1) have "sum_list (map (\<lambda>y. if key y = key x then n else 0) xs) = 0"
      by (auto simp: sum_list_eq_0_iff image_iff)
    with True show ?thesis by simp
  next
    case False
    with Cons.prems have "key a \<noteq> key x" "x \<in> set xs" by auto
    with Cons show ?thesis by simp
  qed
qed

lemma sum_list_single:
  assumes "distinct (map key xs)" and "x \<in> set xs"
    and "\<And>y. y \<in> set xs \<Longrightarrow> f y = (if key y = key x then n else 0)"
  shows "sum_list (map f xs) = (n :: nat)"
proof -
  have "map f xs = map (\<lambda>y. if key y = key x then n else 0) xs"
    using assms(3) by (intro map_cong) auto
  then show ?thesis
    by (simp only: sum_list_key[OF assms(1,2)])
qed

lemma all2_set1: "list_all2 P xs ys \<Longrightarrow> x \<in> set xs \<Longrightarrow> \<exists>y \<in> set ys. P x y"
  by (induction rule: list_all2_induct) auto

lemma taken_eq:
  assumes "db_inv cfg db" and "pick_ok cfg" and "it \<in> set (items db)"
  shows "taken cfg i db it =
     (if line_group (it_distributor it) (order_lines i db) \<noteq> [] \<and>
         pick_row cfg (map (it_id \<circ> snd) (line_group (it_distributor it) (order_lines i db))) = it_id it
      then distributor_ordered i (it_distributor it) db else 0)"
  by (simp add: taken_def complete_tbl_lookup[OF assms])

lemma pick_group:
  assumes "pick_ok cfg" and "line_group g (order_lines i db) \<noteq> []"
  obtains oi it where "(oi, it) \<in> set (order_lines i db)" and "it_distributor it = g"
    and "pick_row cfg (map (it_id \<circ> snd) (line_group g (order_lines i db))) = it_id it"
proof -
  have "pick_row cfg (map (it_id \<circ> snd) (line_group g (order_lines i db))) \<in>
      set (map (it_id \<circ> snd) (line_group g (order_lines i db)))"
    using assms by (metis map_is_Nil_conv pick_ok_def)
  then obtain l where l: "l \<in> set (line_group g (order_lines i db))"
    and p: "pick_row cfg (map (it_id \<circ> snd) (line_group g (order_lines i db))) = it_id (snd l)"
    by auto
  then show thesis by (intro that[of "fst l" "snd l"]) (auto simp: line_group_def)
qed

text \<open>Whatever the items: per distributor the stock falls by what was ordered of it.\<close>

lemma taken_distributor:
  assumes inv: "db_inv cfg db" and pick: "pick_ok cfg"
  shows "sum_list (map (taken cfg i db) (filter (\<lambda>it. it_distributor it = g) (items db))) =
     distributor_ordered i g db"
proof (cases "line_group g (order_lines i db) = []")
  case True
  have "taken cfg i db it = 0" if "it \<in> set (items db)" "it_distributor it = g" for it
    using taken_eq[OF inv pick that(1), of i] that(2) True by simp
  then have "map (taken cfg i db) (filter (\<lambda>it. it_distributor it = g) (items db)) =
      map (\<lambda>_. 0) (filter (\<lambda>it. it_distributor it = g) (items db))"
    by (intro map_cong) auto
  then show ?thesis
    using True by (simp add: distributor_ordered_def)
next
  case False
  then obtain x where x: "x \<in> set (items db)" "it_distributor x = g"
    and px: "pick_row cfg (map (it_id \<circ> snd) (line_group g (order_lines i db))) = it_id x"
    using pick_group[OF pick] order_lines_items by metis
  have "distinct (map it_id (filter (\<lambda>it. it_distributor it = g) (items db)))"
    using inv by (simp add: db_inv_def keys_ok_def distinct_map_filter)
  then show ?thesis
    by (rule sum_list_single[of _ _ x]) (use x False in \<open>auto simp: taken_eq[OF inv pick] px\<close>)
qed

lemma distributor_stock_conserved:
  assumes "db_inv cfg db" and "pick_ok cfg"
    and "CompleteOrder cfg now i db = Inr db'" and "\<not> order_completed i db"
  shows "distributor_stock g db' + distributor_ordered i g db = distributor_stock g db"
proof -
  have "list_all2 (\<lambda>it it'. it_count it' + taken cfg i db it = it_count it \<and>
      (it_distributor it' = g \<longleftrightarrow> it_distributor it = g)) (items db) (items db')"
    using CompleteOrder_items[OF assms(3,4)] by (auto elim!: list_all2_mono)
  from sum_list_all2[OF this] show ?thesis
    by (simp add: taken_distributor[OF assms(1,2)] distributor_stock_def)
qed

section \<open>One item\<close>

lemma stock_item:
  assumes "db_inv cfg db" and "it \<in> set (items db)"
  shows "stock (it_id it) db = it_count it"
proof -
  have *: "sum_list (map it_count (filter (\<lambda>y. it_id y = k) xs)) =
      sum_list (map (\<lambda>y. if it_id y = k then it_count y else 0) xs)" for k and xs :: "item_row list"
    by (induction xs) auto
  have "distinct (map it_id (items db))"
    using assms(1) by (simp add: db_inv_def keys_ok_def)
  then show ?thesis
    unfolding stock_def *
    by (rule sum_list_single[OF _ assms(2)]) (use items_eqI[OF assms(1) _ assms(2)] in auto)
qed

lemma stock_taken:
  assumes "db_inv cfg db" and "it \<in> set (items db)"
    and "CompleteOrder cfg now i db = Inr db'" and "\<not> order_completed i db"
  shows "stock (it_id it) db' + taken cfg i db it = stock (it_id it) db"
proof -
  obtain it' where it': "it' \<in> set (items db')" "it_id it' = it_id it"
    and c: "it_count it' + taken cfg i db it = it_count it"
    using all2_set1[OF CompleteOrder_items[OF assms(3,4)] assms(2)] by blast
  have "stock (it_id it) db' = it_count it'"
    using stock_item[OF CompleteOrder_inv[OF assms(3,1)] it'(1)] it'(2) by simp
  with c show ?thesis
    by (simp add: stock_item[OF assms(1,2)])
qed

lemma filter_key: "distinct (map key xs) \<Longrightarrow> x \<in> set xs \<Longrightarrow> filter (\<lambda>y. key y = key x) xs = [x]"
  by (induction xs) (auto simp: filter_empty_conv image_iff)

lemma order_lines_fst:
  assumes "db_inv cfg db"
  shows "map fst (order_lines i db) = filter (\<lambda>oi. oi_order oi = i) (ordered_items db)"
proof -
  have single: "map fst (map (Pair oi) (filter (\<lambda>it. it_id it = oi_item oi) (items db))) = [oi]"
    if oi: "oi \<in> set (ordered_items db)" for oi
  proof -
    have "oi_item oi \<in> it_id ` set (items db)"
      using assms oi by (simp add: db_inv_def refs_ok_def exists_iff)
    then obtain it where it: "it \<in> set (items db)" "oi_item oi = it_id it" by auto
    have "distinct (map it_id (items db))"
      using assms by (simp add: db_inv_def keys_ok_def)
    from filter_key[OF this it(1)] show ?thesis by (simp add: it(2))
  qed
  have "map fst (concat (map (\<lambda>oi. map (Pair oi) (filter (\<lambda>it. it_id it = oi_item oi) (items db))) ois)) = ois"
    if "set ois \<subseteq> set (ordered_items db)" for ois
    using that by (induction ois) (simp_all add: single del: map_map)
  then show ?thesis
    by (simp add: order_lines_def filter_is_subset)
qed

lemma order_lines_item: "(oi, it) \<in> set (order_lines i db) \<Longrightarrow> oi_item oi = it_id it"
  by (auto simp: order_lines_def)

lemma lines_of_item_total:
  assumes "db_inv cfg db"
  shows "sum_list (map (oi_count \<circ> fst) (filter (\<lambda>l. oi_item (fst l) = k) (order_lines i db))) =
     ordered_total i k db"
proof -
  have "map (oi_count \<circ> fst) (filter (\<lambda>l. oi_item (fst l) = k) (order_lines i db)) =
      map oi_count (filter (\<lambda>oi. oi_item oi = k) (map fst (order_lines i db)))"
    by (simp add: filter_map comp_def)
  then show ?thesis
    by (simp add: order_lines_fst[OF assms] ordered_total_def conj_commute)
qed

definition one_per_distributor :: "int \<Rightarrow> db \<Rightarrow> bool" where
  "one_per_distributor i db \<longleftrightarrow>
     list_all (\<lambda>l. list_all (\<lambda>l'. it_distributor (snd l) = it_distributor (snd l') \<longrightarrow>
       it_id (snd l) = it_id (snd l')) (order_lines i db)) (order_lines i db)"

lemma one_per_distributorD:
  assumes "one_per_distributor i db" and "(oi, it) \<in> set (order_lines i db)"
    and "(oi', it') \<in> set (order_lines i db)" and "it_distributor it = it_distributor it'"
  shows "it_id it = it_id it'"
  using assms unfolding one_per_distributor_def list_all_iff by (metis snd_conv)

lemma taken_one_per_distributor:
  assumes inv: "db_inv cfg db" and pick: "pick_ok cfg" and one: "one_per_distributor i db"
    and it: "it \<in> set (items db)"
  shows "taken cfg i db it = ordered_total i (it_id it) db"
proof (cases "\<exists>oi. (oi, it) \<in> set (order_lines i db)")
  case True
  then obtain oi where oi: "(oi, it) \<in> set (order_lines i db)" by blast
  let ?g = "it_distributor it"
  have same: "it_distributor (snd l) = ?g \<longleftrightarrow> oi_item (fst l) = it_id it"
    if l: "l \<in> set (order_lines i db)" for l
  proof -
    obtain oi' it' where l': "l = (oi', it')" by (cases l)
    have "it_distributor it' = ?g \<Longrightarrow> it_id it' = it_id it"
      using one_per_distributorD[OF one _ oi] l l' by simp
    moreover have "it_id it' = it_id it \<Longrightarrow> it' = it"
      using items_eqI[OF inv order_lines_items it] l l' by blast
    ultimately show ?thesis
      using order_lines_item[of oi' it' i db] l l' by auto
  qed
  have grp: "line_group ?g (order_lines i db) =
      filter (\<lambda>l. oi_item (fst l) = it_id it) (order_lines i db)"
    unfolding line_group_def using same by (intro filter_cong) auto
  have ne: "line_group ?g (order_lines i db) \<noteq> []"
    using oi by (auto simp: line_group_def filter_empty_conv)
  obtain oi' x where x: "(oi', x) \<in> set (order_lines i db)" "it_distributor x = ?g"
    and p: "pick_row cfg (map (it_id \<circ> snd) (line_group ?g (order_lines i db))) = it_id x"
    by (rule pick_group[OF pick ne])
  then have "it_id x = it_id it"
    using one_per_distributorD[OF one x(1) oi] by simp
  then show ?thesis
    using ne p by (simp add: taken_eq[OF inv pick it] distributor_ordered_def grp lines_of_item_total[OF inv])
next
  case False
  have no: "oi_item (fst l) \<noteq> it_id it" if "l \<in> set (order_lines i db)" for l
    using that False items_eqI[OF inv order_lines_items it] order_lines_item
    by (metis prod.collapse)
  then have "filter (\<lambda>l. oi_item (fst l) = it_id it) (order_lines i db) = []"
    by (simp add: filter_empty_conv)
  then have "ordered_total i (it_id it) db = 0"
    using lines_of_item_total[OF inv, of "it_id it" i] by simp
  moreover have "pick_row cfg (map (it_id \<circ> snd) (line_group (it_distributor it) (order_lines i db))) \<noteq> it_id it"
    if "line_group (it_distributor it) (order_lines i db) \<noteq> []"
  proof (rule pick_group[OF pick that])
    fix oi x assume x: "(oi, x) \<in> set (order_lines i db)"
      and p: "pick_row cfg (map (it_id \<circ> snd) (line_group (it_distributor it) (order_lines i db))) = it_id x"
    show ?thesis
      using no[OF x] order_lines_item[OF x] p by simp
  qed
  ultimately show ?thesis
    unfolding taken_eq[OF inv pick it] by auto
qed

lemma stock_no_item: "k \<notin> it_id ` set (items db) \<Longrightarrow> stock k db = 0"
  by (auto simp: stock_def filter_empty_conv image_iff)

lemma ordered_no_item:
  assumes "db_inv cfg db" and "k \<notin> it_id ` set (items db)"
  shows "ordered_total i k db = 0"
proof -
  have "filter (\<lambda>oi. oi_order oi = i \<and> oi_item oi = k) (ordered_items db) = []"
    using assms by (auto simp: db_inv_def refs_ok_def exists_iff filter_empty_conv)
  then show ?thesis by (simp add: ordered_total_def)
qed

lemma all2_image: "list_all2 (\<lambda>x y. g y = g x \<and> Q x y) xs ys \<Longrightarrow> g ` set ys = g ` set xs"
  by (induction rule: list_all2_induct) auto

lemma CompleteOrder_item_ids:
  "CompleteOrder cfg now i db = Inr db' \<Longrightarrow> \<not> order_completed i db \<Longrightarrow>
     it_id ` set (items db') = it_id ` set (items db)"
  by (rule all2_image[OF CompleteOrder_items])

section \<open>The sample order\<close>

lemma sample_pick_ok: "pick_ok sample_cfg"
  by (simp add: pick_ok_def sample_cfg_def)

lemmas completion_evals = CompleteOrder_def order_completed_def complete_tbl_def order_lines_def
  line_group_def take_stock_def set_count_eq uint_max_def sample_cfg_def sample_now_def
  mark_completed_def

lemma sample_one_per_distributor: "one_per_distributor 1 sample_db"
  by (simp add: one_per_distributor_def order_lines_def sample_db_eval)

lemma sample_open: "\<not> order_completed 1 sample_db" "\<not> order_completed 1 clash_db"
  by (simp_all add: order_completed_def sample_db_eval clash_db_def)

lemma sample_completes: "\<exists>db'. CompleteOrder sample_cfg sample_now 1 sample_db = Inr db'"
  by (simp add: completion_evals sample_db_eval)

lemma clash_completes: "\<exists>db'. CompleteOrder sample_cfg sample_now 1 clash_db = Inr db'"
  by (simp add: completion_evals sample_db_eval clash_db_def)

lemma greedy_fails: "CompleteOrder sample_cfg sample_now 1 greedy_db = Inl Out_of_range"
  by (simp add: completion_evals sample_db_eval greedy_db_def)

lemma sample_stock:
  "stock 1 sample_db = 189" "ordered_total 1 1 sample_db = 27"
  "distributor_stock 1 clash_db = 209" "distributor_ordered 1 1 clash_db = 11"
  by (simp_all add: stock_def ordered_total_def distributor_stock_def distributor_ordered_def
      line_group_def order_lines_def sample_db_eval clash_db_def)

section \<open>What the procedure promises\<close>

text \<open>
  C6: Completing an open order whose items come from pairwise different distributors takes from
  the stock of every item exactly the total count ordered of it, and nothing else.
\<close>

theorem CompleteOrder_exact:
  assumes "db_inv cfg db" and "pick_ok cfg" and "one_per_distributor i db"
    and "CompleteOrder cfg now i db = Inr db'" and "\<not> order_completed i db"
  shows "stock k db' + ordered_total i k db = stock k db"
proof (cases "k \<in> it_id ` set (items db)")
  case True
  then obtain it where "it \<in> set (items db)" "k = it_id it" by auto
  then show ?thesis
    using stock_taken[OF assms(1) _ assms(4,5)] taken_one_per_distributor[OF assms(1,2,3)] by metis
next
  case False
  then show ?thesis
    using CompleteOrder_item_ids[OF assms(4,5)]
    by (simp add: stock_no_item ordered_no_item[OF assms(1)])
qed

theorem CompleteOrder_exact_witness:
  "\<exists>db'. CompleteOrder sample_cfg sample_now 1 sample_db = Inr db' \<and> stock 1 db' = 162"
proof -
  obtain db' where db': "CompleteOrder sample_cfg sample_now 1 sample_db = Inr db'"
    using sample_completes by blast
  have "stock 1 db' + ordered_total 1 1 sample_db = stock 1 sample_db"
    by (rule CompleteOrder_exact[OF sample_db_inv sample_pick_ok sample_one_per_distributor db' sample_open(1)])
  with db' show ?thesis by (simp add: sample_stock)
qed

text \<open>
  C22: Completing any open order conserves the sums per distributor: the stock of a distributor's
  items falls by exactly what the order holds of that distributor, whatever the items are.
\<close>

theorem CompleteOrder_conserves_distributor:
  assumes "db_inv cfg db" and "pick_ok cfg"
    and "CompleteOrder cfg now i db = Inr db'" and "\<not> order_completed i db"
  shows "distributor_stock g db' + distributor_ordered i g db = distributor_stock g db"
  by (rule distributor_stock_conserved[OF assms])

theorem CompleteOrder_conserves_distributor_witness:
  "\<exists>db'. CompleteOrder sample_cfg sample_now 1 clash_db = Inr db' \<and> distributor_stock 1 db' = 198"
proof -
  obtain db' where db': "CompleteOrder sample_cfg sample_now 1 clash_db = Inr db'"
    using clash_completes by blast
  have "distributor_stock 1 db' + distributor_ordered 1 1 clash_db = distributor_stock 1 clash_db"
    by (rule CompleteOrder_conserves_distributor[OF clash_db_inv sample_pick_ok db' sample_open(2)])
  with db' show ?thesis by (simp add: sample_stock)
qed

text \<open>
  Two different items of one distributor in the same order: after completion the stock of
  one of them is what it was, however many of it were ordered, because the procedure groups by
  distributor instead of by item.
\<close>

theorem CompleteOrder_merges_distributor:
  assumes "db_inv cfg db" and "pick_ok cfg"
    and "CompleteOrder cfg now i db = Inr db'" and "\<not> order_completed i db"
    and "(oi, x) \<in> set (order_lines i db)" and "(oi', y) \<in> set (order_lines i db)"
    and "it_distributor x = it_distributor y" and "it_id x \<noteq> it_id y"
  shows "stock (it_id x) db' = stock (it_id x) db \<or> stock (it_id y) db' = stock (it_id y) db"
proof -
  have x: "x \<in> set (items db)" and y: "y \<in> set (items db)"
    using assms(5,6) order_lines_items by blast+
  have "taken cfg i db x = 0 \<or> taken cfg i db y = 0"
    using assms(8) by (auto simp: taken_eq[OF assms(1,2)] x y assms(7))
  then show ?thesis
    using stock_taken[OF assms(1) x assms(3,4)] stock_taken[OF assms(1) y assms(3,4)] by auto
qed

theorem CompleteOrder_merges_distributor_witness:
  "\<exists>db'. CompleteOrder sample_cfg sample_now 1 clash_db = Inr db' \<and>
     (stock 1 db' = stock 1 clash_db \<or> stock 4 db' = stock 4 clash_db)"
proof -
  obtain db' where db': "CompleteOrder sample_cfg sample_now 1 clash_db = Inr db'"
    using clash_completes by blast
  let ?x = "items clash_db ! 0" and ?y = "items clash_db ! 3"
  let ?ox = "ordered_items clash_db ! 0" and ?oy = "ordered_items clash_db ! 1"
  have "(?ox, ?x) \<in> set (order_lines 1 clash_db)" "(?oy, ?y) \<in> set (order_lines 1 clash_db)"
    and "it_distributor ?x = it_distributor ?y" "it_id ?x \<noteq> it_id ?y"
    and ids: "it_id ?x = 1" "it_id ?y = 4"
    by (simp_all add: order_lines_def clash_db_def sample_db_eval)
  from CompleteOrder_merges_distributor[OF clash_db_inv sample_pick_ok db' sample_open(2) this(1-4)]
  show ?thesis using db' unfolding ids by blast
qed

text \<open>
  Completing an order again changes nothing: neither the stock nor the recorded day.
\<close>

theorem CompleteOrder_idempotent:
  assumes "CompleteOrder cfg now i db = Inr db'" and "order_exists i db"
    and "day_of_unix cfg now \<noteq> None"
  shows "CompleteOrder cfg later i db' = Inr db'"
proof -
  have "order_completed i db'"
    using assms(1)
  proof (cases rule: CompleteOrder_cases)
    case (2 its)
    then show ?thesis
      using assms(2,3) by (auto simp: order_completed_def list_ex_iff exists_iff)
  qed simp
  then show ?thesis by (simp add: CompleteOrder_def)
qed

theorem CompleteOrder_idempotent_witness:
  "\<exists>db'. CompleteOrder sample_cfg sample_now 1 sample_db = Inr db' \<and>
     CompleteOrder sample_cfg (sample_now + 86400) 1 db' = Inr db'"
proof -
  obtain db' where db': "CompleteOrder sample_cfg sample_now 1 sample_db = Inr db'"
    using sample_completes by blast
  have "order_exists 1 sample_db" "day_of_unix sample_cfg sample_now \<noteq> None"
    by (simp_all add: order_exists_def sample_db_eval sample_cfg_def sample_now_def)
  from CompleteOrder_idempotent[OF db' this] db' show ?thesis by blast
qed

text \<open>
  C23: The only error completing an order can raise is the range error of the unsigned stock
  column, and it is raised only when some item's stock is smaller than what is taken from it; the
  trigger's own message \<open>NotEnoughItems\<close> never reaches the caller.
\<close>

theorem CompleteOrder_error:
  assumes "CompleteOrder cfg now i db = Inl e" and "ids_ok db"
  shows "e = Out_of_range \<and> (\<exists>it \<in> set (items db). it_count it < taken cfg i db it)"
proof -
  have "map_err (take_stock (complete_tbl cfg i db)) (items db) = Inl e"
    using assms(1) by (auto simp: CompleteOrder_def split: if_splits sum.splits)
  then obtain it where it: "it \<in> set (items db)" "take_stock (complete_tbl cfg i db) it = Inl e"
    by (blast dest: map_err_Inl_cases)
  moreover have "it_count it \<le> uint_max"
    using assms(2) it(1) by (simp add: ids_ok_def)
  ultimately show ?thesis
    by (auto simp: take_stock_def taken_def set_count_eq split: option.splits if_splits intro!: bexI[of _ it])
qed

theorem CompleteOrder_error_witness:
  "CompleteOrder sample_cfg sample_now 1 greedy_db = Inl Out_of_range \<and>
     (\<exists>it \<in> set (items greedy_db). it_count it < taken sample_cfg 1 greedy_db it)"
  using CompleteOrder_error[OF greedy_fails greedy_db_ids] greedy_fails by blast

end
