(* ===== verification/Lua_Value.thy ===== *)
theory Lua_Value
  imports Text_Format
begin

text \<open>
  The values of the embedded Lua VM as the C++ code sees them through \<open>LuaWay::Ref\<close>, with the
  operations of that class the code calls. \<open>LuaWay\<close> is not in the repository: the accessors
  state the contract its callers use (\<open>GetRaw<T>\<close> yields a value exactly when the field holds
  the VM type of \<open>T\<close>; a missing field is \<open>nil\<close>), and what the code cannot know about the VM
  (the order in which \<open>next\<close> enumerates a table, whether an integer is accepted where a
  \<open>double\<close> is asked for, what \<open>expected::value()\<close> throws, how a \<open>double\<close> is printed and read)
  is a field of the environment record that every definition takes as a parameter.
\<close>

section \<open>Values and types\<close>

text \<open>
  A table is its string-keyed entries, in the order in which \<open>next\<close> enumerates them, and its
  sequence part \<open>1 .. #t\<close>. No code of the repository reads any other entry of a table.
  \<open>LOpaque\<close> stands for the four pointer-like types.
\<close>

datatype opaque = Op_CFunction | Op_LightUserdata | Op_Userdata | Op_Thread

datatype lua =
    LNone
  | LNil
  | LBool bool
  | LInt i64
  | LNumber dbl
  | LString string
  | LTable "(string \<times> lua) list" "lua list"
  | LFunction
  | LOpaque opaque i64

datatype vm_type =
    VM_None | VM_Nil | VM_Bool | VM_Int | VM_Number | VM_String | VM_Table
  | VM_Function | VM_Opaque

fun type_of :: "lua \<Rightarrow> vm_type" where
  "type_of LNone = VM_None"
| "type_of LNil = VM_Nil"
| "type_of (LBool _) = VM_Bool"
| "type_of (LInt _) = VM_Int"
| "type_of (LNumber _) = VM_Number"
| "type_of (LString _) = VM_String"
| "type_of (LTable _ _) = VM_Table"
| "type_of LFunction = VM_Function"
| "type_of (LOpaque _ _) = VM_Opaque"

definition holds :: "lua \<Rightarrow> vm_type \<Rightarrow> bool" where
  "holds v t \<longleftrightarrow> type_of v = t"

section \<open>The environment\<close>

text \<open>
  \<open>number_from_chars\<close> has the three results of \<open>std::from_chars\<close>; \<open>number_format\<close> is the
  \<open>{}\<close> of \<open>std::format\<close>, \<open>number_ostream\<close> the \<open>operator<<\<close> of a default-initialised stream,
  \<open>opaque_ostream\<close> that of the pointer-like values. \<open>clock\<close> is the system clock, in seconds
  since the epoch.
\<close>

record env =
  value_exn :: exn
  int_as_number :: "i64 \<Rightarrow> dbl option"
  number_from_chars :: "string \<Rightarrow> errc \<times> nat \<times> dbl"
  number_format :: "dbl \<Rightarrow> string"
  number_ostream :: "dbl \<Rightarrow> string"
  opaque_ostream :: "opaque \<Rightarrow> i64 \<Rightarrow> string"
  vm_order :: "(string \<times> lua) list \<Rightarrow> (string \<times> lua) list"
  clock :: int

section \<open>Reading a table\<close>

definition get_raw_ref :: "lua \<Rightarrow> string \<Rightarrow> lua" where
  "get_raw_ref t k = (case t of
      LTable fs arr \<Rightarrow> (case map_of fs k of Some v \<Rightarrow> v | None \<Rightarrow> LNil)
    | _ \<Rightarrow> LNone)"

definition get_raw_string :: "lua \<Rightarrow> string \<Rightarrow> string option" where
  "get_raw_string t k = (case get_raw_ref t k of LString s \<Rightarrow> Some s | _ \<Rightarrow> None)"

definition get_raw_int :: "lua \<Rightarrow> string \<Rightarrow> i64 option" where
  "get_raw_int t k = (case get_raw_ref t k of LInt i \<Rightarrow> Some i | _ \<Rightarrow> None)"

definition get_raw_number :: "env \<Rightarrow> lua \<Rightarrow> string \<Rightarrow> dbl option" where
  "get_raw_number E t k = (case get_raw_ref t k of
      LNumber d \<Rightarrow> Some d
    | LInt i \<Rightarrow> int_as_number E i
    | _ \<Rightarrow> None)"

definition get_length :: "lua \<Rightarrow> nat" where
  "get_length t = (case t of LTable fs arr \<Rightarrow> length arr | _ \<Rightarrow> 0)"

definition get_raw_at :: "lua \<Rightarrow> nat \<Rightarrow> lua" where
  "get_raw_at t i = (case t of
      LTable fs arr \<Rightarrow> (if 1 \<le> i \<and> i \<le> length arr then arr ! (i - 1) else LNil)
    | _ \<Rightarrow> LNone)"

section \<open>Building a table\<close>

text \<open>
  \<open>SetRaw\<close> with a string key replaces the entry or adds one, after which the VM enumerates the
  entries in an order of its own; the code only sets keys it has not set before, and sequence
  entries in the order \<open>1, 2, \<dots>\<close>.
\<close>

definition upd_field :: "string \<Rightarrow> lua \<Rightarrow> (string \<times> lua) list \<Rightarrow> (string \<times> lua) list" where
  "upd_field k v fs = filter (\<lambda>p. fst p \<noteq> k) fs @ [(k, v)]"

definition set_raw :: "env \<Rightarrow> lua \<Rightarrow> string \<Rightarrow> lua \<Rightarrow> lua" where
  "set_raw E t k v = (case t of
      LTable fs arr \<Rightarrow> LTable (vm_order E (upd_field k v fs)) arr
    | _ \<Rightarrow> t)"

definition push_raw :: "lua \<Rightarrow> lua \<Rightarrow> lua" where
  "push_raw t v = (case t of LTable fs arr \<Rightarrow> LTable fs (arr @ [v]) | _ \<Rightarrow> t)"

definition create_table :: lua where
  "create_table = LTable [] []"

text \<open>What the VM may do with the order: the same entries, arranged in some way.\<close>

definition order_ok :: "env \<Rightarrow> bool" where
  "order_ok E \<longleftrightarrow> (\<forall>fs. distinct (map fst fs) \<longrightarrow>
     distinct (map fst (vm_order E fs)) \<and> set (vm_order E fs) = set fs)"

lemma get_raw_string_LTable:
  "get_raw_string (LTable fs arr) k = (case map_of fs k of Some (LString s) \<Rightarrow> Some s | _ \<Rightarrow> None)"
  by (simp add: get_raw_string_def get_raw_ref_def split: option.split)

lemma set_upd_field: "set (upd_field k v fs) = {p \<in> set fs. fst p \<noteq> k} \<union> {(k, v)}"
  by (auto simp: upd_field_def)

lemma distinct_upd_field:
  "distinct (map fst fs) \<Longrightarrow> distinct (map fst (upd_field k v fs))"
  by (auto simp: upd_field_def distinct_map_filter)

lemma map_of_upd_field:
  "map_of (upd_field k v fs) k' = (if k' = k then Some v else map_of fs k')"
proof -
  have *: "map_of (filter (\<lambda>p. fst p \<noteq> k) fs) k' = (if k' = k then None else map_of fs k')"
    by (induction fs) auto
  show ?thesis
    by (simp add: upd_field_def map_add_def * split: option.split)
qed

lemma map_of_vm_order:
  assumes "order_ok E" and "distinct (map fst fs)"
  shows "map_of (vm_order E fs) = map_of fs"
  using assms by (intro map_of_eqI) (auto simp: order_ok_def image_iff map_of_eq_Some_iff)

lemma get_raw_ref_set_raw:
  assumes "order_ok E" and "distinct (map fst fs)"
  shows "get_raw_ref (set_raw E (LTable fs arr) k v) k' =
     (if k' = k then v else get_raw_ref (LTable fs arr) k')"
  using assms by (simp add: set_raw_def get_raw_ref_def map_of_vm_order distinct_upd_field map_of_upd_field)

end
