(* ===== verification/Lua_Serialize.thy ===== *)
theory Lua_Serialize
  imports Lua_Value
begin

text \<open>
  \<open>LuaConfSerialize\<close> (pc_course_server/LuaConfSerialize.hpp), the printer of every response body,
  and \<open>make_response_str\<close> (AsioDefs.hpp). The printer is the recursion of the C++ function with
  its \<open>is_first\<close> flag threaded through the two loops; \<open>serialize_table\<close> shows that the flag
  amounts to joining the printed entries with a separator.
\<close>

section \<open>The printer\<close>

definition write_tabs :: "nat \<Rightarrow> string" where
  "write_tabs n = replicate n (CHR 0x09)"

text \<open>\<open>std::quoted\<close>: double quotes around, a backslash before each quote and backslash.\<close>

fun quoted_body :: "string \<Rightarrow> string" where
  "quoted_body [] = []"
| "quoted_body (c # s) =
     (if c = CHR 0x22 \<or> c = CHR 0x5C then CHR 0x5C # c # quoted_body s else c # quoted_body s)"

definition std_quoted :: "string \<Rightarrow> string" where
  "std_quoted s = CHR 0x22 # quoted_body s @ [CHR 0x22]"

definition is_function_or_none :: "lua \<Rightarrow> bool" where
  "is_function_or_none v \<longleftrightarrow> holds v VM_Function \<or> holds v VM_None"

fun scalar_text :: "env \<Rightarrow> lua \<Rightarrow> string" where
  "scalar_text E (LBool b) = (if b then ''true'' else ''false'')"
| "scalar_text E (LInt i) = show_i64 i"
| "scalar_text E (LNumber d) = number_ostream E d"
| "scalar_text E (LString s) = std_quoted s"
| "scalar_text E LNil = ''nil''"
| "scalar_text E (LOpaque k p) = opaque_ostream E k p"
| "scalar_text E _ = []"

fun LuaConfSerialize :: "env \<Rightarrow> lua \<Rightarrow> string \<Rightarrow> nat \<Rightarrow> string"
  and write_fields :: "env \<Rightarrow> (string \<times> lua) list \<Rightarrow> nat \<Rightarrow> bool \<Rightarrow> string \<times> bool"
  and write_items :: "env \<Rightarrow> lua list \<Rightarrow> nat \<Rightarrow> bool \<Rightarrow> string"
where
  "LuaConfSerialize E LNone name tabs = []"
| "LuaConfSerialize E LFunction name tabs = []"
| "LuaConfSerialize E (LTable fs arr) name tabs =
     (if name \<noteq> [] then write_tabs tabs @ name @ '' =\<newline>'' else []) @
     write_tabs tabs @ ''{\<newline>'' @
     (case write_fields E fs tabs True of
        (text, is_first) \<Rightarrow> text @ write_items E arr tabs is_first) @
     ''\<newline>'' @ write_tabs tabs @ ''}''"
| "LuaConfSerialize E v name tabs =
     write_tabs tabs @ (if name \<noteq> [] then name @ '' = '' else []) @ scalar_text E v"
| "write_fields E [] tabs is_first = ([], is_first)"
| "write_fields E ((key, v) # fs) tabs is_first =
     (if \<not> is_function_or_none v
      then (case write_fields E fs tabs False of (text, is_first') \<Rightarrow>
        ((if \<not> is_first then '',\<newline>'' else []) @ LuaConfSerialize E v key (tabs + 1) @ text, is_first'))
      else write_fields E fs tabs is_first)"
| "write_items E [] tabs is_first = []"
| "write_items E (v # vs) tabs is_first =
     (if \<not> is_function_or_none v
      then (if \<not> is_first then '',\<newline>'' else []) @ LuaConfSerialize E v [] (tabs + 1) @
           write_items E vs tabs False
      else write_items E vs tabs is_first)"

definition make_response_str :: "string \<Rightarrow> string" where
  "make_response_str msg = fmt ''response = '{}'{}'' [msg, ''\<newline>'']"

section \<open>The separator flag is a join\<close>

fun join :: "string \<Rightarrow> string list \<Rightarrow> string" where
  "join sep [] = []"
| "join sep [x] = x"
| "join sep (x # y # xs) = x @ sep @ join sep (y # xs)"

definition printed_fields :: "env \<Rightarrow> (string \<times> lua) list \<Rightarrow> nat \<Rightarrow> string list" where
  "printed_fields E fs tabs =
     map (\<lambda>(k, v). LuaConfSerialize E v k (tabs + 1)) (filter (\<lambda>p. \<not> is_function_or_none (snd p)) fs)"

definition printed_items :: "env \<Rightarrow> lua list \<Rightarrow> nat \<Rightarrow> string list" where
  "printed_items E arr tabs =
     map (\<lambda>v. LuaConfSerialize E v [] (tabs + 1)) (filter (\<lambda>v. \<not> is_function_or_none v) arr)"

definition sep_prefix :: "bool \<Rightarrow> string list \<Rightarrow> string" where
  "sep_prefix is_first xs = (if is_first then join '',\<newline>'' xs else concat (map ((@) '',\<newline>'') xs))"

lemma join_Cons: "join sep (x # xs) = x @ concat (map ((@) sep) xs)"
  by (induction xs arbitrary: x) auto

lemma sep_prefix_simps [simp]:
  "sep_prefix b [] = []"
  "sep_prefix b (x # xs) = (if b then [] else '',\<newline>'') @ x @ sep_prefix False xs"
  by (auto simp: sep_prefix_def join_Cons)

lemma write_fields_eq:
  "write_fields E fs tabs b =
     (sep_prefix b (printed_fields E fs tabs), b \<and> printed_fields E fs tabs = [])"
  by (induction fs arbitrary: b) (auto simp: printed_fields_def)

lemma write_items_eq: "write_items E arr tabs b = sep_prefix b (printed_items E arr tabs)"
  by (induction arr arbitrary: b) (auto simp: printed_items_def)

lemma sep_prefix_append: "sep_prefix b (xs @ ys) = sep_prefix b xs @ sep_prefix (b \<and> xs = []) ys"
  by (induction xs arbitrary: b) auto

lemma serialize_table:
  "LuaConfSerialize E (LTable fs arr) name tabs =
     (if name \<noteq> [] then write_tabs tabs @ name @ '' =\<newline>'' else []) @
     write_tabs tabs @ ''{\<newline>'' @
     join '',\<newline>'' (printed_fields E fs tabs @ printed_items E arr tabs) @
     ''\<newline>'' @ write_tabs tabs @ ''}''"
  using sep_prefix_append[of True "printed_fields E fs tabs" "printed_items E arr tabs"]
  by (simp add: write_fields_eq write_items_eq sep_prefix_def)

end
