(* ===== verification/Query_Result.thy ===== *)
theory Query_Result
  imports Lua_Serialize
begin

text \<open>
  The database interface of the server (the part of mysql++ it uses) and the conversion of query
  results to Lua tables: \<open>FieldAndType\<close>, \<open>serialize_one_query_result\<close>,
  \<open>serialize_query_result\<close> and \<open>invoke_stored_procedure\<close> of pc_course_server/Request.hpp.
  mysql++ and the MySQL server are not in the repository: they are the \<open>driver\<close> parameter, a
  record of the calls the code makes, over an arbitrary type \<open>'c\<close> of connection states. The
  connections are opened with \<open>mysqlpp::Connection(false)\<close>, which switches the exceptions of
  failing queries off, so a failed query is a falsy result.
\<close>

section \<open>The database driver\<close>

record store_result =
  sr_ok :: bool
  sr_columns :: "string list"
  sr_rows :: "string option list list"

text \<open>
  \<open>query_store\<close>, \<open>query_exec\<close>, \<open>query_store_next\<close>, \<open>query_error\<close> and \<open>query_insert_id\<close> are the
  methods of \<open>mysqlpp::Query\<close>, \<open>field_num\<close> that of a result, \<open>null_data\<close> the characters a NULL
  \<open>mysqlpp::String\<close> holds, and the last three fields are the statements that
  \<open>mysqlpp::Transaction\<close> issues.
\<close>

record 'c driver =
  query_store :: "string \<Rightarrow> 'c \<Rightarrow> store_result \<times> 'c"
  query_exec :: "string \<Rightarrow> 'c \<Rightarrow> bool \<times> 'c"
  query_store_next :: "'c \<Rightarrow> bool \<times> 'c"
  query_error :: "'c \<Rightarrow> string"
  query_insert_id :: "'c \<Rightarrow> 64 word"
  field_num :: "string list \<Rightarrow> string \<Rightarrow> int"
  null_data :: string
  tx_start :: "'c \<Rightarrow> 'c"
  tx_commit :: "'c \<Rightarrow> 'c"
  tx_rollback :: "'c \<Rightarrow> 'c"

text \<open>\<open>while(query.store_next());\<close> calls until a call returns a falsy result, or for ever.\<close>

definition drain :: "'c driver \<Rightarrow> ('c, unit) act" where
  "drain d c =
     (case while_option fst (\<lambda>(b, c). query_store_next d c) (query_store_next d c) of
        None \<Rightarrow> (Diverge, c)
      | Some (b, c') \<Rightarrow> (Value (), c'))"

text \<open>The two instances of \<open>invoke_stored_procedure\<close>: with a result set, and without one.\<close>

definition invoke_store ::
  "'c driver \<Rightarrow> string \<Rightarrow> (store_result \<Rightarrow> ('c, 'a) act) \<Rightarrow> ('c, 'a) act" where
  "invoke_store d query f c =
     (case query_store d query c of (res, c1) \<Rightarrow>
        bindM (f res) (\<lambda>v. bindM (drain d) (\<lambda>_. retM v)) c1)"

definition invoke_exec ::
  "'c driver \<Rightarrow> string \<Rightarrow> (bool \<Rightarrow> ('c, 'a) act) \<Rightarrow> ('c, 'a) act" where
  "invoke_exec d query f c =
     (case query_exec d query c of (res, c1) \<Rightarrow>
        bindM (f res) (\<lambda>v. bindM (drain d) (\<lambda>_. retM v)) c1)"

section \<open>Reading one cell\<close>

record field_and_type =
  field_name :: string
  field_type :: vm_type
  deny_null :: bool

definition FieldAndType :: "string \<Rightarrow> vm_type \<Rightarrow> field_and_type" where
  "FieldAndType n t = \<lparr>field_name = n, field_type = t, deny_null = True\<rparr>"

definition FieldAndType_null :: "string \<Rightarrow> vm_type \<Rightarrow> field_and_type" where
  "FieldAndType_null n t = \<lparr>field_name = n, field_type = t, deny_null = False\<rparr>"

text \<open>\<open>Row::at\<close> and the row access of a result throw when the index is out of range.\<close>

definition row_at :: "'a list \<Rightarrow> int \<Rightarrow> 'a option" where
  "row_at row i = (if 0 \<le> i \<and> nat i < length row then Some (row ! nat i) else None)"

definition cell_data :: "'c driver \<Rightarrow> string option \<Rightarrow> string" where
  "cell_data d cell = (case cell of Some s \<Rightarrow> s | None \<Rightarrow> null_data d)"

text \<open>The \<open>switch(field.type)\<close> of both serialisers.\<close>

definition convert_cell :: "env \<Rightarrow> vm_type \<Rightarrow> string \<Rightarrow> ('c, lua) act" where
  "convert_cell E ty data =
     (case ty of
        VM_Bool \<Rightarrow> (case from_chars_i64 data of (ec, ptr, num) \<Rightarrow>
          bindM (assertM (ec = Errc_ok)) (\<lambda>_.
          bindM (assertM (ptr = length data)) (\<lambda>_. retM (LBool (num \<noteq> 0)))))
      | VM_Int \<Rightarrow> (case from_chars_i64 data of (ec, ptr, num) \<Rightarrow>
          bindM (assertM (ec = Errc_ok)) (\<lambda>_.
          bindM (assertM (ptr = length data)) (\<lambda>_. retM (LInt num))))
      | VM_Number \<Rightarrow> (case number_from_chars E data of (ec, ptr, num) \<Rightarrow>
          bindM (assertM (ec = Errc_ok)) (\<lambda>_.
          bindM (assertM (ptr = length data)) (\<lambda>_. retM (LNumber num))))
      | VM_String \<Rightarrow> retM (LString data)
      | _ \<Rightarrow> bindM (assertM False) (\<lambda>_. retM LNone))"

section \<open>The serialisers\<close>

definition serialize_one_query_result ::
  "env \<Rightarrow> 'c driver \<Rightarrow> store_result \<Rightarrow> field_and_type \<Rightarrow> ('c, string) act" where
  "serialize_one_query_result E d res field =
     (let index = field_num d (sr_columns res) (field_name field) in
      bindM (assertM (index \<ge> 0)) (\<lambda>_.
      bindM (assertM (length (sr_rows res) \<ge> 1)) (\<lambda>_.
      bindM (valueM Exn_std (row_at (sr_rows res) 0)) (\<lambda>row.
      bindM (valueM Exn_mysqlpp (row_at row index)) (\<lambda>row_data.
      bindM (assertM ((row_data \<noteq> None \<and> deny_null field) \<or> \<not> deny_null field)) (\<lambda>_.
      if row_data = None \<and> deny_null field then retM []
      else bindM (convert_cell E (field_type field) (cell_data d row_data)) (\<lambda>ref.
        retM (LuaConfSerialize E ref (field_name field) 0))))))))"

fun find_indices ::
  "'c driver \<Rightarrow> store_result \<Rightarrow> field_and_type list \<Rightarrow> ('c, int list) act" where
  "find_indices d res [] = retM []"
| "find_indices d res (f # fs) =
     (let i = field_num d (sr_columns res) (field_name f) in
      bindM (assertM (i \<ge> 0)) (\<lambda>_.
      bindM (find_indices d res fs) (\<lambda>is. retM (i # is))))"

fun fill_item ::
  "env \<Rightarrow> 'c driver \<Rightarrow> string option list \<Rightarrow> (field_and_type \<times> int) list \<Rightarrow> lua \<Rightarrow> ('c, lua) act"
where
  "fill_item E d row [] item = retM item"
| "fill_item E d row ((f, i) # fis) item =
     bindM (valueM Exn_mysqlpp (row_at row i)) (\<lambda>row_data.
     bindM (assertM ((row_data \<noteq> None \<and> deny_null f) \<or> \<not> deny_null f)) (\<lambda>_.
     if row_data = None \<and> \<not> deny_null f then fill_item E d row fis item
     else bindM (convert_cell E (field_type f) (cell_data d row_data)) (\<lambda>v.
       fill_item E d row fis (set_raw E item (field_name f) v))))"

fun fill_table ::
  "env \<Rightarrow> 'c driver \<Rightarrow> (field_and_type \<times> int) list \<Rightarrow> string option list list \<Rightarrow> lua \<Rightarrow> ('c, lua) act"
where
  "fill_table E d fis [] tbl = retM tbl"
| "fill_table E d fis (row # rows) tbl =
     bindM (fill_item E d row fis create_table) (\<lambda>item.
       fill_table E d fis rows (push_raw tbl item))"

definition serialize_query_result ::
  "env \<Rightarrow> 'c driver \<Rightarrow> store_result \<Rightarrow> string \<Rightarrow> field_and_type list \<Rightarrow> ('c, string) act" where
  "serialize_query_result E d res table_name flds =
     bindM (find_indices d res flds) (\<lambda>indices.
     bindM (fill_table E d (zip flds indices) (sr_rows res) create_table) (\<lambda>tbl.
       retM (LuaConfSerialize E tbl table_name 0)))"

section \<open>The result of the conversion\<close>

text \<open>What a cell converts to; \<open>None\<close> where an assertion fails.\<close>

definition cell_result :: "env \<Rightarrow> vm_type \<Rightarrow> string \<Rightarrow> lua option" where
  "cell_result E ty data =
     (case ty of
        VM_Bool \<Rightarrow> (case from_chars_i64 data of (ec, ptr, num) \<Rightarrow>
          if ec = Errc_ok \<and> ptr = length data then Some (LBool (num \<noteq> 0)) else None)
      | VM_Int \<Rightarrow> (case from_chars_i64 data of (ec, ptr, num) \<Rightarrow>
          if ec = Errc_ok \<and> ptr = length data then Some (LInt num) else None)
      | VM_Number \<Rightarrow> (case number_from_chars E data of (ec, ptr, num) \<Rightarrow>
          if ec = Errc_ok \<and> ptr = length data then Some (LNumber num) else None)
      | VM_String \<Rightarrow> Some (LString data)
      | _ \<Rightarrow> None)"

lemma convert_cell_eq:
  "convert_cell E ty data c =
     (case cell_result E ty data of None \<Rightarrow> (Abort, c) | Some v \<Rightarrow> (Value v, c))"
  by (cases ty)
    (auto simp: convert_cell_def cell_result_def assertM_def bindM_def retM_def split: prod.split)

lemma cell_result_Int [simp]: "cell_result E VM_Int (show_i64 w) = Some (LInt w)"
  by (simp add: cell_result_def from_chars_show_i64)

lemma cell_result_Int_show_int:
  "- (2 ^ 63) \<le> i \<Longrightarrow> i < 2 ^ 63 \<Longrightarrow>
     cell_result E VM_Int (show_int i) = Some (LInt (word_of_int i))"
  by (simp add: cell_result_def from_chars_show_int)

lemma cell_result_Int_overflow: "2 ^ 63 \<le> i \<Longrightarrow> cell_result E VM_Int (show_int i) = None"
  by (simp add: cell_result_def from_chars_show_int_overflow)

lemma cell_result_String [simp]: "cell_result E VM_String s = Some (LString s)"
  by (simp add: cell_result_def)

definition cell_ok :: "env \<Rightarrow> field_and_type \<Rightarrow> string option \<Rightarrow> bool" where
  "cell_ok E f cell = (case cell of
      None \<Rightarrow> \<not> deny_null f
    | Some s \<Rightarrow> cell_result E (field_type f) s \<noteq> None)"

text \<open>The table of one row, and of all rows.\<close>

fun build_item :: "env \<Rightarrow> string option list \<Rightarrow> (field_and_type \<times> int) list \<Rightarrow> lua \<Rightarrow> lua" where
  "build_item E row [] item = item"
| "build_item E row ((f, i) # fis) item =
     (case row ! nat i of
        None \<Rightarrow> build_item E row fis item
      | Some s \<Rightarrow> build_item E row fis
          (set_raw E item (field_name f) (the (cell_result E (field_type f) s))))"

definition row_ok :: "env \<Rightarrow> (field_and_type \<times> int) list \<Rightarrow> string option list \<Rightarrow> bool" where
  "row_ok E fis row \<longleftrightarrow>
     (\<forall>(f, i) \<in> set fis. 0 \<le> i \<and> nat i < length row \<and> cell_ok E f (row ! nat i))"

lemma fill_item_value:
  "row_ok E fis row \<Longrightarrow> fill_item E d row fis item c = (Value (build_item E row fis item), c)"
  by (induction fis arbitrary: item)
    (auto simp: row_ok_def cell_ok_def row_at_def cell_data_def outcome_simps convert_cell_eq bindM_def
      split: option.splits)

lemma fill_table_value:
  assumes "list_all (row_ok E fis) rows"
  shows "fill_table E d fis rows (LTable fs arr) c =
     (Value (LTable fs (arr @ map (\<lambda>row. build_item E row fis create_table) rows)), c)"
  using assms
  by (induction rows arbitrary: arr)
    (simp_all add: outcome_simps fill_item_value bindM_def push_raw_def)

definition col_indices :: "'c driver \<Rightarrow> store_result \<Rightarrow> field_and_type list \<Rightarrow> int list" where
  "col_indices d res flds = map (\<lambda>f. field_num d (sr_columns res) (field_name f)) flds"

definition result_ok :: "env \<Rightarrow> 'c driver \<Rightarrow> store_result \<Rightarrow> field_and_type list \<Rightarrow> bool" where
  "result_ok E d res flds \<longleftrightarrow>
     list_all (\<lambda>i. 0 \<le> i) (col_indices d res flds) \<and>
     list_all (row_ok E (zip flds (col_indices d res flds))) (sr_rows res)"

definition result_table :: "env \<Rightarrow> 'c driver \<Rightarrow> store_result \<Rightarrow> field_and_type list \<Rightarrow> lua" where
  "result_table E d res flds =
     LTable [] (map (\<lambda>row. build_item E row (zip flds (col_indices d res flds)) create_table)
       (sr_rows res))"

lemma find_indices_value:
  "list_all (\<lambda>i. 0 \<le> i) (col_indices d res flds) \<Longrightarrow>
     find_indices d res flds c = (Value (col_indices d res flds), c)"
  by (induction flds) (simp_all add: col_indices_def Let_def outcome_simps bindM_def assertM_def)

lemma serialize_query_result_value:
  "result_ok E d res flds \<Longrightarrow>
     serialize_query_result E d res name flds c =
       (Value (LuaConfSerialize E (result_table E d res flds) name 0), c)"
  by (simp add: serialize_query_result_def result_ok_def find_indices_value fill_table_value
      create_table_def result_table_def outcome_simps bindM_def)

section \<open>The conversion does not touch the connection\<close>

lemma within_convert_cell [within_intros]: "steady R \<Longrightarrow> within R (convert_cell E ty data)"
  by (simp add: within_def steady_refl convert_cell_eq split: option.split)

lemma within_find_indices [within_intros]: "steady R \<Longrightarrow> within R (find_indices d res flds)"
  by (induction flds) (auto simp: Let_def intro!: within_intros)

lemma within_fill_item [within_intros]: "steady R \<Longrightarrow> within R (fill_item E d row fis item)"
  by (induction fis arbitrary: item) (auto intro!: within_intros)

lemma within_fill_table [within_intros]: "steady R \<Longrightarrow> within R (fill_table E d fis rows tbl)"
  by (induction rows arbitrary: tbl) (auto intro!: within_intros)

lemma within_serialize [within_intros]:
  assumes "steady R"
  shows "within R (serialize_query_result E d res name flds)"
    and "within R (serialize_one_query_result E d res field)"
  unfolding serialize_query_result_def serialize_one_query_result_def Let_def
  by (intro within_intros assms)+

end
