(* ===== verification/Request.thy ===== *)
theory Request
  imports Query_Result
begin

text \<open>
  The request handlers of pc_course_server/Request.hpp: the check of the caller's account and
  rank, the queries, the changes, and the two handlers that run inside a transaction. Every
  handler takes the environment, the database driver and the request's table, and is an effect
  on the connection that yields the reply's text, throws, or stops the process. Texts are
  written with the format strings of the source.
\<close>

section \<open>Shared by the handlers\<close>

definition bad_config :: string where "bad_config = make_response_str ''bad_config''"
definition access_denied :: string where "access_denied = make_response_str ''access_denied''"
definition success :: string where "success = make_response_str ''success''"

definition string_value :: "env \<Rightarrow> lua \<Rightarrow> string \<Rightarrow> ('c, string) act" where
  "string_value E t k = valueM (value_exn E) (get_raw_string t k)"

definition int_value :: "env \<Rightarrow> lua \<Rightarrow> string \<Rightarrow> ('c, i64) act" where
  "int_value E t k = valueM (value_exn E) (get_raw_int t k)"

definition number_value :: "env \<Rightarrow> lua \<Rightarrow> string \<Rightarrow> ('c, dbl) act" where
  "number_value E t k = valueM (value_exn E) (get_raw_number E t k)"

definition reply_error :: "'c driver \<Rightarrow> ('c, string) act" where
  "reply_error d = bindM (readM (query_error d)) (\<lambda>e. retM (make_response_str e))"

definition check_user_existance ::
  "env \<Rightarrow> 'c driver \<Rightarrow> lua \<Rightarrow> string list \<Rightarrow> ('c, string) act" where
  "check_user_existance E d config rank_names =
     catch_all
       (let user = get_raw_ref config ''user'' in
        if \<not> holds user VM_Table then retM bad_config
        else
          bindM (string_value E user ''login'') (\<lambda>login.
          bindM (string_value E user ''password'') (\<lambda>password.
          bindM (string_value E user ''rank'') (\<lambda>rank.
          if \<not> list_ex (\<lambda>desired. desired = rank) rank_names then retM access_denied
          else invoke_store d
            (fmt ''CALL CheckUserExists('{}', '{}', '{}');'' [login, password, rank])
            (\<lambda>res.
              if \<not> sr_ok res then reply_error d
              else
                bindM (valueM Exn_std (row_at (sr_rows res) 0)) (\<lambda>row.
                bindM (valueM Exn_mysqlpp (row_at row 0)) (\<lambda>cell.
                if cell_data d cell = ''0'' then retM bad_config else retM [])))))))
       (retM bad_config)"

text \<open>The first statement of a guarded handler: a non-empty answer of the check is the reply.\<close>

definition guarded ::
  "env \<Rightarrow> 'c driver \<Rightarrow> lua \<Rightarrow> string list \<Rightarrow> ('c, string) act \<Rightarrow> ('c, string) act" where
  "guarded E d config rank_names body =
     bindM (check_user_existance E d config rank_names) (\<lambda>str.
       if str \<noteq> [] then retM str else body)"

definition try_bad_config :: "('c, string) act \<Rightarrow> ('c, string) act" where
  "try_bad_config body = catch_all body (retM bad_config)"

definition store_reply ::
  "env \<Rightarrow> 'c driver \<Rightarrow> string \<Rightarrow> string \<Rightarrow> field_and_type list \<Rightarrow> ('c, string) act" where
  "store_reply E d query table_name flds =
     invoke_store d query (\<lambda>res.
       bindM (serialize_query_result E d res table_name flds) (\<lambda>s. retM (success @ s)))"

text \<open>The two ways a change is reported: whatever the result, or by the result.\<close>

definition exec_always :: "'c driver \<Rightarrow> string \<Rightarrow> ('c, string) act" where
  "exec_always d query = invoke_exec d query (\<lambda>res. retM success)"

definition exec_checked :: "'c driver \<Rightarrow> string \<Rightarrow> ('c, string) act" where
  "exec_checked d query = invoke_exec d query (\<lambda>res. if \<not> res then reply_error d else retM success)"

section \<open>Queries\<close>

definition auth :: "env \<Rightarrow> 'c driver \<Rightarrow> lua \<Rightarrow> ('c, string) act" where
  "auth E d config = guarded E d config [''Admin'', ''Employee'', ''Accountant''] (retM success)"

definition users_fields :: "field_and_type list" where
  "users_fields = [FieldAndType ''login'' VM_String, FieldAndType ''sname'' VM_String,
     FieldAndType ''name'' VM_String, FieldAndType ''pname'' VM_String, FieldAndType ''rank'' VM_String]"

definition get_users :: "env \<Rightarrow> 'c driver \<Rightarrow> lua \<Rightarrow> ('c, string) act" where
  "get_users E d config = guarded E d config [''Admin'']
     (store_reply E d ''CALL GetUsers();'' ''users'' users_fields)"

definition id_name_fields :: "field_and_type list" where
  "id_name_fields = [FieldAndType ''id'' VM_Int, FieldAndType ''name'' VM_String]"

definition get_ranks :: "env \<Rightarrow> 'c driver \<Rightarrow> lua \<Rightarrow> ('c, string) act" where
  "get_ranks E d config = store_reply E d ''CALL GetRanks();'' ''ranks'' id_name_fields"

definition customers_fields :: "field_and_type list" where
  "customers_fields = [FieldAndType ''telephone'' VM_Int, FieldAndType ''sname'' VM_String,
     FieldAndType ''name'' VM_String, FieldAndType ''pname'' VM_String]"

definition get_customers :: "env \<Rightarrow> 'c driver \<Rightarrow> lua \<Rightarrow> ('c, string) act" where
  "get_customers E d config = store_reply E d ''CALL GetCustomers();'' ''customers'' customers_fields"

definition orders_fields :: "field_and_type list" where
  "orders_fields = [FieldAndType ''id'' VM_Int, FieldAndType ''date_of_start'' VM_Int,
     FieldAndType ''date_of_expire'' VM_Int, FieldAndType_null ''date_of_completion'' VM_Int,
     FieldAndType ''c_telephone'' VM_Int, FieldAndType ''c_sname'' VM_String,
     FieldAndType ''c_name'' VM_String, FieldAndType ''c_pname'' VM_String]"

definition get_orders :: "env \<Rightarrow> 'c driver \<Rightarrow> lua \<Rightarrow> ('c, string) act" where
  "get_orders E d config = store_reply E d ''CALL GetOrders();'' ''orders'' orders_fields"

definition order_items_fields :: "field_and_type list" where
  "order_items_fields = [FieldAndType ''id'' VM_Int, FieldAndType ''count_in_order'' VM_Int,
     FieldAndType ''name'' VM_String, FieldAndType ''cost'' VM_Number,
     FieldAndType ''distributor'' VM_String, FieldAndType ''description'' VM_String,
     FieldAndType ''common_cost'' VM_Number]"

definition get_order_items :: "env \<Rightarrow> 'c driver \<Rightarrow> lua \<Rightarrow> ('c, string) act" where
  "get_order_items E d config =
     (case get_raw_int config ''order_id'' of
        None \<Rightarrow> retM bad_config
      | Some order_id \<Rightarrow>
          store_reply E d (fmt ''CALL GetOrderItems({});'' [show_i64 order_id])
            ''order_items'' order_items_fields)"

definition items_fields :: "field_and_type list" where
  "items_fields = [FieldAndType ''id'' VM_Int, FieldAndType ''name'' VM_String,
     FieldAndType ''cost'' VM_Number, FieldAndType ''count_on_warehouse'' VM_Int,
     FieldAndType ''distributor'' VM_String, FieldAndType ''type'' VM_String,
     FieldAndType ''description'' VM_String]"

definition get_items :: "env \<Rightarrow> 'c driver \<Rightarrow> lua \<Rightarrow> ('c, string) act" where
  "get_items E d config = store_reply E d ''CALL GetItems();'' ''items'' items_fields"

definition get_distributors :: "env \<Rightarrow> 'c driver \<Rightarrow> lua \<Rightarrow> ('c, string) act" where
  "get_distributors E d config =
     store_reply E d ''CALL GetDistributors();'' ''distributors'' id_name_fields"

definition get_item_types :: "env \<Rightarrow> 'c driver \<Rightarrow> lua \<Rightarrow> ('c, string) act" where
  "get_item_types E d config = store_reply E d ''CALL GetItemTypes();'' ''item_types'' id_name_fields"

section \<open>Changes\<close>

definition delete_user :: "env \<Rightarrow> 'c driver \<Rightarrow> lua \<Rightarrow> ('c, string) act" where
  "delete_user E d config = guarded E d config [''Admin''] (try_bad_config
     (bindM (string_value E config ''delete_user_login'') (\<lambda>user_login.
      exec_always d (fmt ''CALL DeleteUser('{}');'' [user_login]))))"

definition update_user :: "env \<Rightarrow> 'c driver \<Rightarrow> lua \<Rightarrow> ('c, string) act" where
  "update_user E d config = guarded E d config [''Admin''] (try_bad_config
     (let u = get_raw_ref config ''update_user'' in
      bindM (string_value E u ''login'') (\<lambda>login.
      bindM (string_value E u ''sname'') (\<lambda>sname.
      bindM (string_value E u ''name'') (\<lambda>name.
      bindM (string_value E u ''pname'') (\<lambda>pname.
      bindM (int_value E u ''rank'') (\<lambda>rank.
      exec_checked d (fmt ''CALL UpdateUser('{}', '{}', '{}', '{}', '{}');''
        [login, sname, name, pname, show_i64 rank]))))))))"

text \<open>\<open>create_user\<close> catches \<open>mysqlpp::Exception\<close> and \<open>std::exception\<close> only.\<close>

definition create_user :: "env \<Rightarrow> 'c driver \<Rightarrow> lua \<Rightarrow> ('c, string) act" where
  "create_user E d config = guarded E d config [''Admin''] (catch_std
     (let u = get_raw_ref config ''new_user'' in
      bindM (string_value E u ''login'') (\<lambda>login.
      bindM (string_value E u ''password'') (\<lambda>pwd.
      bindM (string_value E u ''sname'') (\<lambda>sname.
      bindM (string_value E u ''name'') (\<lambda>name.
      bindM (string_value E u ''pname'') (\<lambda>pname.
      bindM (int_value E u ''rank'') (\<lambda>rank.
      exec_checked d (fmt ''CALL CreateUser('{}', '{}', '{}', '{}', '{}', '{}');''
        [login, pwd, sname, name, pname, show_i64 rank]))))))))
     (retM bad_config))"

definition create_customer :: "env \<Rightarrow> 'c driver \<Rightarrow> lua \<Rightarrow> ('c, string) act" where
  "create_customer E d config = guarded E d config [''Employee'', ''Admin''] (try_bad_config
     (let u = get_raw_ref config ''new_customer'' in
      bindM (int_value E u ''telephone'') (\<lambda>tel.
      bindM (string_value E u ''sname'') (\<lambda>sname.
      bindM (string_value E u ''name'') (\<lambda>name.
      bindM (string_value E u ''pname'') (\<lambda>pname.
      exec_checked d (fmt ''CALL CreateCustomer('{}', '{}', '{}', '{}');''
        [show_i64 tel, sname, name, pname])))))))"

definition delete_customer :: "env \<Rightarrow> 'c driver \<Rightarrow> lua \<Rightarrow> ('c, string) act" where
  "delete_customer E d config = guarded E d config [''Employee'', ''Admin''] (try_bad_config
     (bindM (int_value E config ''delete_customer_telephone'') (\<lambda>tel.
      exec_always d (fmt ''CALL DeleteCustomer('{}');'' [show_i64 tel]))))"

definition add_item :: "env \<Rightarrow> 'c driver \<Rightarrow> lua \<Rightarrow> ('c, string) act" where
  "add_item E d config = guarded E d config [''Employee'', ''Admin''] (try_bad_config
     (let u = get_raw_ref config ''new_item'' in
      bindM (string_value E u ''name'') (\<lambda>name.
      bindM (number_value E u ''cost'') (\<lambda>cost.
      bindM (int_value E u ''count'') (\<lambda>count.
      bindM (int_value E u ''distributor_id'') (\<lambda>distributor_id.
      bindM (int_value E u ''type_id'') (\<lambda>type_id.
      bindM (string_value E u ''description'') (\<lambda>description.
      exec_checked d (fmt ''CALL AddItem('{}', {}, {}, {}, {}, '{}');''
        [name, number_format E cost, show_i64 count, show_i64 distributor_id, show_i64 type_id,
         description])))))))))"

definition add_item_count :: "env \<Rightarrow> 'c driver \<Rightarrow> lua \<Rightarrow> ('c, string) act" where
  "add_item_count E d config = guarded E d config [''Employee'', ''Admin''] (try_bad_config
     (let u = get_raw_ref config ''item'' in
      bindM (int_value E u ''id'') (\<lambda>id.
      bindM (int_value E u ''appended_count'') (\<lambda>appended_count.
      exec_always d (fmt ''CALL AddItemCount('{}', '{}');'' [show_i64 id, show_i64 appended_count])))))"

section \<open>Transactions\<close>

text \<open>
  The scope of a \<open>mysqlpp::Transaction\<close> object: the constructor starts the transaction, the
  destructor rolls back unless the body has committed or rolled back, also when an exception
  leaves the scope. The body yields its value and whether the object is finished.
\<close>

definition with_transaction :: "'c driver \<Rightarrow> ('c, 'a \<times> bool) act \<Rightarrow> ('c, 'a) act" where
  "with_transaction d body c =
     (case body (tx_start d c) of
        (Value (v, finished), c') \<Rightarrow> (Value v, if finished then c' else tx_rollback d c')
      | (Throw e, c') \<Rightarrow> (Throw e, tx_rollback d c')
      | (Abort, c') \<Rightarrow> (Abort, c')
      | (Diverge, c') \<Rightarrow> (Diverge, c'))"

definition rollback_reply :: "'c driver \<Rightarrow> ('c, string) act" where
  "rollback_reply d = bindM (effect (tx_rollback d)) (\<lambda>_. reply_error d)"

definition complete_order :: "env \<Rightarrow> 'c driver \<Rightarrow> lua \<Rightarrow> ('c, string) act" where
  "complete_order E d config = guarded E d config [''Employee'', ''Admin''] (try_bad_config
     (bindM (int_value E config ''order_id'') (\<lambda>id.
      let query = fmt ''CALL CompleteOrder('{}');'' [show_i64 id] in
      with_transaction d
        (invoke_exec d query (\<lambda>res.
          if \<not> res then bindM (rollback_reply d) (\<lambda>r. retM (r, True))
          else bindM (effect (tx_commit d)) (\<lambda>_. retM (success, True)))))))"

text \<open>The ordered items, held as \<open>int\<close> and \<open>uint32_t\<close>.\<close>

record ordered_item =
  item_id :: "32 word"
  count_in_order :: "32 word"

fun collect_items :: "env \<Rightarrow> lua \<Rightarrow> nat list \<Rightarrow> ('c, ordered_item list) act" where
  "collect_items E new_order [] = retM []"
| "collect_items E new_order (i # is) =
     (let ord_item = get_raw_at new_order i in
      bindM (int_value E ord_item ''item_id'') (\<lambda>item.
      bindM (int_value E ord_item ''count_in_order'') (\<lambda>cnt.
      bindM (collect_items E new_order is) (\<lambda>rest.
        retM (\<lparr>item_id = ucast item, count_in_order = ucast cnt\<rparr> # rest)))))"

definition add_order_text :: "i64 \<Rightarrow> i64 \<Rightarrow> string" where
  "add_order_text customer_tel date_of_expire =
     fmt ''CALL AddOrder('{}', 'FROM_UNIXTIME{}');'' [show_i64 customer_tel, show_i64 date_of_expire]"

definition add_ordered_item_text :: "32 word \<Rightarrow> ordered_item \<Rightarrow> string" where
  "add_ordered_item_text order_id item =
     fmt ''CALL AddOrderedItem('{}', '{}', '{}');''
       [show_int (sint order_id), show_int (sint (item_id item)), show_nat (unat (count_in_order item))]"

text \<open>The loop over the items: the text of the first failure, or the empty text.\<close>

fun add_ordered_items :: "'c driver \<Rightarrow> 32 word \<Rightarrow> ordered_item list \<Rightarrow> ('c, string) act" where
  "add_ordered_items d order_id [] = retM []"
| "add_ordered_items d order_id (item # items) =
     bindM (invoke_exec d (add_ordered_item_text order_id item)
         (\<lambda>res. if \<not> res then rollback_reply d else retM []))
       (\<lambda>item_add_result.
          if item_add_result \<noteq> [] then retM item_add_result
          else add_ordered_items d order_id items)"

text \<open>The part of \<open>add_order\<close> in the scope of the transaction object.\<close>

definition add_order_transaction ::
  "'c driver \<Rightarrow> i64 \<Rightarrow> i64 \<Rightarrow> ordered_item list \<Rightarrow> ('c, string \<times> bool) act" where
  "add_order_transaction d customer_tel date_of_expire items =
     bindM (invoke_exec d (add_order_text customer_tel date_of_expire) (\<lambda>res.
         if \<not> res then bindM (rollback_reply d) (\<lambda>e. retM (Inl e))
         else bindM (readM (query_insert_id d)) (\<lambda>i. retM (Inr (ucast i)))))
       (\<lambda>new_order_id. case new_order_id of
           Inl e \<Rightarrow> retM (e, True)
         | Inr order_id \<Rightarrow>
             bindM (add_ordered_items d order_id items) (\<lambda>r.
             if r \<noteq> [] then retM (r, True)
             else bindM (effect (tx_commit d)) (\<lambda>_. retM (success, True))))"

definition add_order :: "env \<Rightarrow> 'c driver \<Rightarrow> lua \<Rightarrow> ('c, string) act" where
  "add_order E d config = guarded E d config [''Employee'', ''Admin''] (try_bad_config
     (let new_order = get_raw_ref config ''new_order'' in
      bindM (int_value E new_order ''customer_telephone'') (\<lambda>customer_tel.
      bindM (int_value E new_order ''date_of_expire'') (\<lambda>date_of_expire.
      if clock E > sint date_of_expire then retM bad_config
      else if get_length new_order = 0 then retM bad_config
      else
        bindM (collect_items E new_order [1..<Suc (get_length new_order)]) (\<lambda>items.
        with_transaction d (add_order_transaction d customer_tel date_of_expire items))))))"

section \<open>Reports\<close>

definition get_expired_orders :: "env \<Rightarrow> 'c driver \<Rightarrow> lua \<Rightarrow> ('c, string) act" where
  "get_expired_orders E d config = guarded E d config [''Admin'', ''Employee'', ''Accountant'']
     (store_reply E d ''CALL GetExpiredOrders();'' ''expired_orders'' orders_fields)"

definition with_dates :: "env \<Rightarrow> lua \<Rightarrow> (i64 \<Rightarrow> i64 \<Rightarrow> ('c, string) act) \<Rightarrow> ('c, string) act" where
  "with_dates E config f = try_bad_config
     (let dates = get_raw_ref config ''dates'' in
      bindM (int_value E dates ''start_date'') (\<lambda>start.
      bindM (int_value E dates ''end_date'') (\<lambda>end. f start end)))"

definition get_completed_orders :: "env \<Rightarrow> 'c driver \<Rightarrow> lua \<Rightarrow> ('c, string) act" where
  "get_completed_orders E d config = with_dates E config (\<lambda>start end.
     store_reply E d
       (fmt ''CALL GetCompletedOrders(FROM_UNIXTIME({}), FROM_UNIXTIME({}));'' [show_i64 start, show_i64 end])
       ''completed_orders'' orders_fields)"

definition get_income :: "env \<Rightarrow> 'c driver \<Rightarrow> lua \<Rightarrow> ('c, string) act" where
  "get_income E d config = with_dates E config (\<lambda>start end.
     invoke_store d
       (fmt ''CALL GetIncome(FROM_UNIXTIME({}), FROM_UNIXTIME({}));'' [show_i64 start, show_i64 end])
       (\<lambda>res. bindM (serialize_one_query_result E d res (FieldAndType ''income'' VM_Number))
          (\<lambda>s. retM (success @ s))))"

definition statistics_fields :: "field_and_type list" where
  "statistics_fields = [FieldAndType ''common_cost'' VM_Number, FieldAndType ''common_count'' VM_Int,
     FieldAndType ''distributor'' VM_String]"

definition get_statistics :: "env \<Rightarrow> 'c driver \<Rightarrow> lua \<Rightarrow> ('c, string) act" where
  "get_statistics E d config = with_dates E config (\<lambda>start end.
     store_reply E d
       (fmt ''CALL GetSellsStatiscticsByDistributors(FROM_UNIXTIME({}), FROM_UNIXTIME({}));''
          [show_i64 start, show_i64 end])
       ''statistics'' statistics_fields)"

end
