(* ===== verification/Sql_Text.thy ===== *)
theory Sql_Text
  imports Lua_Serialize
begin

text \<open>
  The text of the statements the server sends, \<open>CALL Name(arg, \<dots>);\<close>, and how a SQL server reads
  it back: the documented lexical rules of string literals (a doubled quote, backslash escapes),
  numerals, and \<open>FROM_UNIXTIME(n)\<close>. The statements are assembled by pasting argument texts
  between quotes; \<open>parse_call_text\<close> shows that this is read back as the intended call when no
  argument holds a quote or a backslash.
\<close>

section \<open>Arguments and statements\<close>

abbreviation quote_char :: char where "quote_char \<equiv> CHR 0x27"
abbreviation backslash_char :: char where "backslash_char \<equiv> CHR 0x5C"

datatype sql_arg = Arg_string string | Arg_number string | Arg_from_unixtime string

fun arg_text :: "sql_arg \<Rightarrow> string" where
  "arg_text (Arg_string s) = quote_char # s @ [quote_char]"
| "arg_text (Arg_number s) = s"
| "arg_text (Arg_from_unixtime s) = ''FROM_UNIXTIME('' @ s @ '')''"

definition call_text :: "string \<Rightarrow> sql_arg list \<Rightarrow> string" where
  "call_text name args = ''CALL '' @ name @ ''('' @ join '', '' (map arg_text args) @ '');''"

definition safe_string :: "string \<Rightarrow> bool" where
  "safe_string s \<longleftrightarrow> quote_char \<notin> set s \<and> backslash_char \<notin> set s"

definition numeral_char :: "char \<Rightarrow> bool" where
  "numeral_char c \<longleftrightarrow> is_digit c \<or> c \<in> {CHR ''-'', CHR ''+'', CHR ''.'', CHR ''e'', CHR ''E''}"

definition ident_char :: "char \<Rightarrow> bool" where
  "ident_char c \<longleftrightarrow> is_digit c \<or> c = CHR ''_'' \<or>
     (65 \<le> (of_char c :: nat) \<and> (of_char c :: nat) \<le> 90) \<or>
     (97 \<le> (of_char c :: nat) \<and> (of_char c :: nat) \<le> 122)"

definition numeral_text :: "string \<Rightarrow> bool" where
  "numeral_text s \<longleftrightarrow> s \<noteq> [] \<and> list_all numeral_char s"

fun safe_arg :: "sql_arg \<Rightarrow> bool" where
  "safe_arg (Arg_string s) = safe_string s"
| "safe_arg (Arg_number s) = numeral_text s"
| "safe_arg (Arg_from_unixtime s) = numeral_text s"

definition safe_call :: "string \<Rightarrow> sql_arg list \<Rightarrow> bool" where
  "safe_call name args \<longleftrightarrow> name \<noteq> [] \<and> list_all ident_char name \<and> list_all safe_arg args"

section \<open>Reading a statement\<close>

definition unescape :: "char \<Rightarrow> string" where
  "unescape c = (if c = CHR ''n'' then [CHR 0x0A] else if c = CHR ''r'' then [CHR 0x0D]
     else if c = CHR ''t'' then [CHR 0x09] else if c = CHR ''b'' then [CHR 0x08]
     else if c = CHR ''0'' then [CHR 0x00] else if c = CHR ''Z'' then [CHR 0x1A]
     else if c = CHR ''%'' \<or> c = CHR ''_'' then [backslash_char, c] else [c])"

text \<open>The contents of a string literal after its opening quote, and what follows it.\<close>

fun scan_string :: "string \<Rightarrow> (string \<times> string) option" where
  "scan_string [] = None"
| "scan_string [c] = (if c = quote_char then Some ([], []) else None)"
| "scan_string (c # d # s) =
     (if c = quote_char then
        (if d = quote_char then map_option (apfst ((#) quote_char)) (scan_string s)
         else Some ([], d # s))
      else if c = backslash_char then map_option (apfst ((@) (unescape d))) (scan_string s)
      else map_option (apfst ((#) c)) (scan_string (d # s)))"

definition parse_arg :: "string \<Rightarrow> (sql_arg \<times> string) option" where
  "parse_arg s =
     (if s \<noteq> [] \<and> hd s = quote_char then map_option (apfst Arg_string) (scan_string (tl s))
      else if take 14 s = ''FROM_UNIXTIME('' then
        (let r = drop 14 s; n = takeWhile numeral_char r; r' = dropWhile numeral_char r in
         if n \<noteq> [] \<and> r' \<noteq> [] \<and> hd r' = CHR '')'' then Some (Arg_from_unixtime n, tl r') else None)
      else
        (let n = takeWhile numeral_char s in
         if n \<noteq> [] then Some (Arg_number n, dropWhile numeral_char s) else None))"

text \<open>The arguments up to the closing parenthesis; the fuel bounds their number.\<close>

fun parse_args :: "nat \<Rightarrow> string \<Rightarrow> (sql_arg list \<times> string) option" where
  "parse_args 0 s = None"
| "parse_args (Suc n) s =
     (case parse_arg s of
        None \<Rightarrow> None
      | Some (a, r) \<Rightarrow>
          (if r \<noteq> [] \<and> hd r = CHR '')'' then Some ([a], tl r)
           else if take 2 r = '', '' then map_option (apfst ((#) a)) (parse_args n (drop 2 r))
           else None))"

definition parse_call :: "string \<Rightarrow> (string \<times> sql_arg list) option" where
  "parse_call s =
     (let name = takeWhile ident_char (drop 5 s); r = dropWhile ident_char (drop 5 s) in
      if take 5 s = ''CALL '' \<and> name \<noteq> [] \<and> r \<noteq> [] \<and> hd r = CHR ''('' then
        (if tl r = '');'' then Some (name, [])
         else case parse_args (length r) (tl r) of
           Some (args, rest) \<Rightarrow> if rest = '';'' then Some (name, args) else None
         | None \<Rightarrow> None)
      else None)"

section \<open>What is written is what is read\<close>

lemma scan_string_safe:
  assumes "safe_string s" and "rest \<noteq> []" and "hd rest \<noteq> quote_char"
  shows "scan_string (s @ quote_char # rest) = Some (s, rest)"
  using assms(1)
proof (induction s)
  case Nil
  then show ?case using assms(2,3) by (cases rest) auto
next
  case (Cons c s)
  then obtain d r where r: "s @ quote_char # rest = d # r"
    by (cases s) auto
  from Cons have IH: "scan_string (d # r) = Some (s, rest)"
    by (simp add: safe_string_def r)
  from Cons.prems have "c \<noteq> quote_char" "c \<noteq> backslash_char"
    by (auto simp: safe_string_def)
  then show ?case
    by (simp add: r IH)
qed

lemma numeral_spans:
  assumes "numeral_text s" and "rest \<noteq> []" and "\<not> numeral_char (hd rest)"
  shows "takeWhile numeral_char (s @ rest) = s" and "dropWhile numeral_char (s @ rest) = rest"
  using assms by (cases rest; auto simp: numeral_text_def list_all_iff)+

lemma numeral_text_hd: "numeral_text s \<Longrightarrow> \<exists>c cs. s = c # cs \<and> numeral_char c"
  by (cases s) (auto simp: numeral_text_def)

lemma not_numeral_char [simp]:
  "\<not> numeral_char quote_char" "\<not> numeral_char (CHR ''F'')" "\<not> numeral_char (CHR '')'')"
  "\<not> numeral_char (CHR '','')"
  by (simp_all add: numeral_char_def is_digit_def)

lemma parse_arg_text:
  assumes "safe_arg a" and "rest \<noteq> []" and "hd rest \<in> {CHR '')'', CHR '',''}"
  shows "parse_arg (arg_text a @ rest) = Some (a, rest)"
proof (cases a)
  case (Arg_string s)
  have "scan_string (s @ quote_char # rest) = Some (s, rest)"
    using assms Arg_string by (intro scan_string_safe) auto
  then show ?thesis by (simp add: Arg_string parse_arg_def)
next
  case (Arg_number s)
  then have s: "numeral_text s" using assms(1) by simp
  then obtain c cs where c: "s = c # cs" "numeral_char c" using numeral_text_hd by blast
  then have "c \<noteq> quote_char" "c \<noteq> CHR ''F''" by auto
  moreover have "\<not> numeral_char (hd rest)" using assms(3) by auto
  ultimately show ?thesis
    using numeral_spans[OF s assms(2)] by (simp add: Arg_number parse_arg_def Let_def c(1))
next
  case (Arg_from_unixtime s)
  then have s: "numeral_text s" using assms(1) by simp
  have "takeWhile numeral_char (s @ CHR '')'' # rest) = s"
    "dropWhile numeral_char (s @ CHR '')'' # rest) = CHR '')'' # rest"
    using numeral_spans[OF s, of "CHR '')'' # rest"] by simp_all
  then show ?thesis
    using s by (simp add: Arg_from_unixtime parse_arg_def Let_def numeral_text_def)
qed

lemma parse_args_text:
  assumes "args \<noteq> []" and "list_all safe_arg args" and "length args \<le> n"
  shows "parse_args n (join '', '' (map arg_text args) @ CHR '')'' # rest) = Some (args, rest)"
  using assms
proof (induction args arbitrary: n)
  case Nil
  then show ?case by simp
next
  case (Cons a args)
  then obtain m where n: "n = Suc m" by (cases n) auto
  show ?case
  proof (cases args)
    case Nil
    then show ?thesis
      using Cons.prems parse_arg_text[of a "CHR '')'' # rest"] by (simp add: n)
  next
    case (Cons b bs)
    let ?tl = "join '', '' (map arg_text args) @ CHR '')'' # rest"
    have "parse_args m ?tl = Some (args, rest)"
      using Cons.IH Cons.prems n Cons by simp
    moreover have "parse_arg (arg_text a @ '', '' @ ?tl) = Some (a, '', '' @ ?tl)"
      using Cons.prems by (intro parse_arg_text) auto
    ultimately show ?thesis
      by (simp add: n Cons)
  qed
qed

lemma join_length: "length args \<le> length (join '', '' (map arg_text args)) + 1"
proof (induction args)
  case (Cons a args)
  then show ?case by (cases args) auto
qed simp

lemma parse_call_text:
  assumes "safe_call name args"
  shows "parse_call (call_text name args) = Some (name, args)"
proof -
  have name: "name \<noteq> []" "\<forall>c \<in> set name. ident_char c"
    using assms by (auto simp: safe_call_def list_all_iff)
  let ?r = "CHR ''('' # join '', '' (map arg_text args) @ '');''"
  have "\<not> ident_char (CHR ''('')"
    by (simp add: ident_char_def is_digit_def)
  then have spans: "takeWhile ident_char (name @ ?r) = name" "dropWhile ident_char (name @ ?r) = ?r"
    using name(2) by auto
  show ?thesis
  proof (cases "args = []")
    case True
    with spans name(1) show ?thesis
      by (simp add: parse_call_def call_text_def Let_def)
  next
    case False
    then have ne: "join '', '' (map arg_text args) @ '');'' \<noteq> '');''"
      using assms by (cases args; cases "hd args"; cases "tl args")
        (auto simp: safe_call_def dest: numeral_text_hd)
    have "parse_args (length ?r) (join '', '' (map arg_text args) @ CHR '')'' # '';'') = Some (args, '';'')"
      using assms False join_length[of args] by (intro parse_args_text) (auto simp: safe_call_def)
    with spans name(1) ne show ?thesis
      by (simp add: parse_call_def call_text_def Let_def)
  qed
qed

end
