(* ===== verification/Sql_Server.thy ===== *)
theory Sql_Server
  imports Database Sql_Text Query_Result
begin

text \<open>
  The database server as the C++ server meets it: the declared parameter types of the stored
  procedures applied to the arguments of a \<open>CALL\<close>, the dispatch to the procedure, and what a
  client of the driver may rely on (locale \<open>sql_server\<close>): a well-formed call whose literals are
  safe runs the procedure, a failed call leaves the database alone, a rollback restores it. The
  client lemmas are proved in the locale, for any driver that keeps these laws; a session that
  reads the text, runs the procedure and keeps a snapshot per transaction is an instance.
\<close>

section \<open>Parameter types\<close>

definition bindE :: "'e + 'a \<Rightarrow> ('a \<Rightarrow> 'e + 'b) \<Rightarrow> 'e + 'b" where
  "bindE x f = (case x of Inl e \<Rightarrow> Inl e | Inr y \<Rightarrow> f y)"

lemma bindE_simps [simp]: "bindE (Inr x) f = f x" "bindE (Inl e) f = Inl e"
  by (simp_all add: bindE_def)

lemma bindE_Inr_iff: "bindE x f = Inr y \<longleftrightarrow> (\<exists>v. x = Inr v \<and> f v = Inr y)"
  by (auto simp: bindE_def split: sum.splits)

text \<open>\<open>VARCHAR(n)\<close> and \<open>CHAR(n)\<close>; strict mode refuses what is too long.\<close>

definition as_varchar :: "nat \<Rightarrow> sql_arg \<Rightarrow> sql_error + string" where
  "as_varchar n a = (case a of
      Arg_string s \<Rightarrow> if length s \<le> n then Inr s else Inl Data_too_long
    | Arg_number s \<Rightarrow> if length s \<le> n then Inr s else Inl Data_too_long
    | Arg_from_unixtime s \<Rightarrow> Inl Bad_statement)"

definition as_text :: "sql_arg \<Rightarrow> sql_error + string" where
  "as_text a = as_varchar 65535 a"

definition as_integer :: "int \<Rightarrow> int \<Rightarrow> sql_arg \<Rightarrow> sql_error + int" where
  "as_integer lo hi a =
     (let read = (\<lambda>s. case parse_sint s of
          Some (used, i) \<Rightarrow>
            (if used \<noteq> length s then Inl Incorrect_value
             else if lo \<le> i \<and> i \<le> hi then Inr i else Inl Out_of_range)
        | None \<Rightarrow> Inl Incorrect_value)
      in case a of Arg_string s \<Rightarrow> read s | Arg_number s \<Rightarrow> read s
         | Arg_from_unixtime s \<Rightarrow> Inl Bad_statement)"

definition as_int :: "sql_arg \<Rightarrow> sql_error + int" where
  "as_int = as_integer (- (2 ^ 31)) int_max"

definition as_int_unsigned :: "sql_arg \<Rightarrow> sql_error + nat" where
  "as_int_unsigned a = bindE (as_integer 0 (int uint_max) a) (\<lambda>i. Inr (nat i))"

definition as_bigint_unsigned :: "sql_arg \<Rightarrow> sql_error + nat" where
  "as_bigint_unsigned a = bindE (as_integer 0 (2 ^ 64 - 1) a) (\<lambda>i. Inr (nat i))"

definition as_double :: "sql_config \<Rightarrow> sql_arg \<Rightarrow> sql_error + dbl" where
  "as_double cfg a = (case a of
      Arg_from_unixtime s \<Rightarrow> Inl Bad_statement
    | Arg_string s \<Rightarrow> (case dbl_of_text cfg s of Some d \<Rightarrow> Inr d | None \<Rightarrow> Inl Incorrect_value)
    | Arg_number s \<Rightarrow> (case dbl_of_text cfg s of Some d \<Rightarrow> Inr d | None \<Rightarrow> Inl Incorrect_value))"

text \<open>A \<open>DATE\<close>: the day of a Unix time (or NULL), or a date literal.\<close>

definition as_date :: "sql_config \<Rightarrow> sql_arg \<Rightarrow> sql_error + int option" where
  "as_date cfg a = (case a of
      Arg_from_unixtime s \<Rightarrow> (case parse_sint s of
        Some (used, i) \<Rightarrow> if used = length s then Inr (day_of_unix cfg i) else Inl Bad_statement
      | None \<Rightarrow> Inl Bad_statement)
    | Arg_string s \<Rightarrow> (case parse_date cfg s of Some d \<Rightarrow> Inr (Some d) | None \<Rightarrow> Inl Incorrect_value)
    | Arg_number s \<Rightarrow> Inl Incorrect_value)"

section \<open>Dispatch\<close>

text \<open>The columns and rows of a call (none for a procedure without a \<open>SELECT\<close>) and the database.\<close>

type_synonym call_result = "(string list \<times> row list) \<times> db"

definition rows_of :: "string list \<Rightarrow> row list \<Rightarrow> db \<Rightarrow> sql_error + call_result" where
  "rows_of cols rows db = Inr ((cols, rows), db)"

definition changes :: "sql_error + db \<Rightarrow> sql_error + call_result" where
  "changes r = bindE r (\<lambda>db. Inr (([], []), db))"

definition bool_text :: "bool \<Rightarrow> string" where
  "bool_text b = (if b then ''1'' else ''0'')"

definition run_user_call ::
  "sql_config \<Rightarrow> string \<Rightarrow> sql_arg list \<Rightarrow> db \<Rightarrow> (sql_error + call_result) option"
where
  "run_user_call cfg name args db =
     (if name = ''CheckUserExists'' then (case args of
        [l, p, r] \<Rightarrow> Some (bindE (as_varchar 64 l) (\<lambda>l. bindE (as_varchar 64 p) (\<lambda>p.
          bindE (as_varchar 64 r) (\<lambda>r.
            rows_of [''EXISTS''] [[Some (bool_text (CheckUserExists cfg l p r db))]] db))))
        | _ \<Rightarrow> None)
      else if name = ''DeleteUser'' then (case args of
        [l] \<Rightarrow> Some (bindE (as_varchar 64 l) (\<lambda>l. changes (DeleteUser cfg l db)))
        | _ \<Rightarrow> None)
      else if name = ''CreateUser'' then (case args of
        [l, p, s, n, pn, r] \<Rightarrow> Some (bindE (as_varchar 64 l) (\<lambda>l. bindE (as_varchar 64 p) (\<lambda>p.
          bindE (as_varchar 64 s) (\<lambda>s. bindE (as_varchar 64 n) (\<lambda>n. bindE (as_varchar 64 pn) (\<lambda>pn.
          bindE (as_int r) (\<lambda>r. changes (CreateUser cfg l p s n pn r db))))))))
        | _ \<Rightarrow> None)
      else if name = ''UpdateUser'' then (case args of
        [l, s, n, pn, r] \<Rightarrow> Some (bindE (as_varchar 64 l) (\<lambda>l.
          bindE (as_varchar 64 s) (\<lambda>s. bindE (as_varchar 64 n) (\<lambda>n. bindE (as_varchar 64 pn) (\<lambda>pn.
          bindE (as_int r) (\<lambda>r. changes (UpdateUser cfg l s n pn r db)))))))
        | _ \<Rightarrow> None)
      else if name = ''GetRanks'' \<and> args = [] then Some (rows_of GetRanks_columns (GetRanks db) db)
      else if name = ''GetUsers'' \<and> args = [] then Some (rows_of GetUsers_columns (GetUsers db) db)
      else None)"

definition run_customer_call ::
  "string \<Rightarrow> sql_arg list \<Rightarrow> db \<Rightarrow> (sql_error + call_result) option"
where
  "run_customer_call name args db =
     (if name = ''GetCustomers'' \<and> args = [] then
        Some (rows_of GetCustomers_columns (GetCustomers db) db)
      else if name = ''CreateCustomer'' then (case args of
        [t, s, n, pn] \<Rightarrow> Some (bindE (as_bigint_unsigned t) (\<lambda>t. bindE (as_varchar 64 s) (\<lambda>s.
          bindE (as_varchar 64 n) (\<lambda>n. bindE (as_varchar 64 pn) (\<lambda>pn.
            changes (CreateCustomer t s n pn db))))))
        | _ \<Rightarrow> None)
      else if name = ''DeleteCustomer'' then (case args of
        [t] \<Rightarrow> Some (bindE (as_bigint_unsigned t) (\<lambda>t. changes (DeleteCustomer t db)))
        | _ \<Rightarrow> None)
      else None)"

definition run_item_call ::
  "sql_config \<Rightarrow> string \<Rightarrow> sql_arg list \<Rightarrow> db \<Rightarrow> (sql_error + call_result) option"
where
  "run_item_call cfg name args db =
     (if name = ''GetItems'' \<and> args = [] then Some (rows_of GetItems_columns (GetItems cfg db) db)
      else if name = ''GetDistributors'' \<and> args = [] then
        Some (rows_of named_columns (GetDistributors db) db)
      else if name = ''GetItemTypes'' \<and> args = [] then
        Some (rows_of named_columns (GetItemTypes db) db)
      else if name = ''AddItem'' then (case args of
        [n, c, k, d, t, ds] \<Rightarrow> Some (bindE (as_varchar 256 n) (\<lambda>n. bindE (as_double cfg c) (\<lambda>c.
          bindE (as_int_unsigned k) (\<lambda>k. bindE (as_int d) (\<lambda>d. bindE (as_int t) (\<lambda>t.
          bindE (as_text ds) (\<lambda>ds. changes (AddItem n c k d t ds db))))))))
        | _ \<Rightarrow> None)
      else if name = ''AddItemCount'' then (case args of
        [i, x] \<Rightarrow> Some (bindE (as_int i) (\<lambda>i. bindE (as_int x) (\<lambda>x. changes (AddItemCount i x db))))
        | _ \<Rightarrow> None)
      else None)"

definition run_order_call ::
  "sql_config \<Rightarrow> int \<Rightarrow> string \<Rightarrow> sql_arg list \<Rightarrow> db \<Rightarrow> (sql_error + call_result) option"
where
  "run_order_call cfg now name args db =
     (if name = ''GetOrders'' \<and> args = [] then Some (rows_of Order_columns (GetOrders cfg db) db)
      else if name = ''GetExpiredOrders'' \<and> args = [] then
        Some (rows_of Order_columns (GetExpiredOrders cfg now db) db)
      else if name = ''GetOrderItems'' then (case args of
        [i] \<Rightarrow> Some (bindE (as_int i) (\<lambda>i. rows_of GetOrderItems_columns (GetOrderItems cfg i db) db))
        | _ \<Rightarrow> None)
      else if name = ''AddOrder'' then (case args of
        [t, e] \<Rightarrow> Some (bindE (as_bigint_unsigned t) (\<lambda>t. bindE (as_date cfg e) (\<lambda>e.
          changes (AddOrder cfg now t e db))))
        | _ \<Rightarrow> None)
      else if name = ''AddOrderedItem'' then (case args of
        [i, it, k] \<Rightarrow> Some (bindE (as_int i) (\<lambda>i. bindE (as_int it) (\<lambda>it.
          bindE (as_int_unsigned k) (\<lambda>k. changes (AddOrderedItem i it k db)))))
        | _ \<Rightarrow> None)
      else if name = ''CompleteOrder'' then (case args of
        [i] \<Rightarrow> Some (bindE (as_int i) (\<lambda>i. changes (CompleteOrder cfg now i db)))
        | _ \<Rightarrow> None)
      else None)"

definition run_report_call ::
  "sql_config \<Rightarrow> string \<Rightarrow> sql_arg list \<Rightarrow> db \<Rightarrow> (sql_error + call_result) option"
where
  "run_report_call cfg name args db =
     (case args of
        [s, e] \<Rightarrow>
          (if name = ''GetCompletedOrders'' then Some (bindE (as_date cfg s) (\<lambda>s. bindE (as_date cfg e) (\<lambda>e.
             rows_of Order_columns (GetCompletedOrders cfg s e db) db)))
           else if name = ''GetIncome'' then Some (bindE (as_date cfg s) (\<lambda>s. bindE (as_date cfg e) (\<lambda>e.
             rows_of [''income''] (GetIncome cfg s e db) db)))
           else if name = ''GetSellsStatiscticsByDistributors'' then
             Some (bindE (as_date cfg s) (\<lambda>s. bindE (as_date cfg e) (\<lambda>e.
             rows_of GetStatistics_columns (GetSellsStatiscticsByDistributors cfg s e db) db)))
           else None)
      | _ \<Rightarrow> None)"

definition first_some :: "'a option \<Rightarrow> 'a option \<Rightarrow> 'a option" where
  "first_some x y = (case x of None \<Rightarrow> y | Some v \<Rightarrow> Some v)"

definition run_call ::
  "sql_config \<Rightarrow> int \<Rightarrow> string \<times> sql_arg list \<Rightarrow> db \<Rightarrow> sql_error + call_result" where
  "run_call cfg now call db =
     (case call of (name, args) \<Rightarrow>
       (case first_some (run_user_call cfg name args db) (first_some (run_customer_call name args db)
          (first_some (run_item_call cfg name args db) (first_some (run_order_call cfg now name args db)
          (run_report_call cfg name args db)))) of
          None \<Rightarrow> Inl Bad_statement
        | Some r \<Rightarrow> r))"

lemmas run_call_defs = run_call_def run_user_call_def run_customer_call_def run_item_call_def
  run_order_call_def run_report_call_def first_some_def

section \<open>What a client of the driver may rely on\<close>

definition lower_char :: "char \<Rightarrow> char" where
  "lower_char c = (if 65 \<le> (of_char c :: nat) \<and> (of_char c :: nat) \<le> 90
     then char_of ((of_char c :: nat) + 32) else c)"

definition error_text :: "(sql_error \<Rightarrow> string) \<Rightarrow> sql_error \<Rightarrow> string" where
  "error_text other e = (case e of Signal m \<Rightarrow> m | _ \<Rightarrow> other e)"

text \<open>
  \<open>db_of\<close> and \<open>saved_of\<close> are the database a connection sees and the one a rollback restores,
  \<open>now_of\<close> is the server's clock. Column names are compared without regard to case.
\<close>

locale sql_server =
  fixes cfg :: sql_config
    and d :: "'c driver"
    and db_of :: "'c \<Rightarrow> db"
    and now_of :: "'c \<Rightarrow> int"
    and saved_of :: "'c \<Rightarrow> db option"
    and err :: "sql_error \<Rightarrow> string"
    and ins :: "db \<Rightarrow> db \<Rightarrow> 64 word"
  assumes store_ok: "safe_call name args \<Longrightarrow>
      run_call cfg (now_of c) (name, args) (db_of c) = Inr ((cols, rows), db') \<Longrightarrow>
      query_store d (call_text name args) c = (res, c') \<Longrightarrow>
      res = \<lparr>sr_ok = True, sr_columns = cols, sr_rows = rows\<rparr> \<and> db_of c' = db' \<and> saved_of c' = saved_of c"
    and store_error: "safe_call name args \<Longrightarrow>
      run_call cfg (now_of c) (name, args) (db_of c) = Inl e \<Longrightarrow>
      query_store d (call_text name args) c = (res, c') \<Longrightarrow>
      \<not> sr_ok res \<and> db_of c' = db_of c \<and> saved_of c' = saved_of c \<and> query_error d c' = err e"
    and exec_ok: "safe_call name args \<Longrightarrow>
      run_call cfg (now_of c) (name, args) (db_of c) = Inr (rs, db') \<Longrightarrow>
      query_exec d (call_text name args) c = (b, c') \<Longrightarrow>
      b \<and> db_of c' = db' \<and> saved_of c' = saved_of c \<and> query_insert_id d c' = ins (db_of c) db'"
    and exec_error: "safe_call name args \<Longrightarrow>
      run_call cfg (now_of c) (name, args) (db_of c) = Inl e \<Longrightarrow>
      query_exec d (call_text name args) c = (b, c') \<Longrightarrow>
      \<not> b \<and> db_of c' = db_of c \<and> saved_of c' = saved_of c \<and> query_error d c' = err e"
    and drain_ok: "drain d c = (r, c') \<Longrightarrow> r = Value () \<and> db_of c' = db_of c \<and> saved_of c' = saved_of c"
    and start_ok: "db_of (tx_start d c) = db_of c" "saved_of (tx_start d c) = Some (db_of c)"
    and commit_ok: "db_of (tx_commit d c) = db_of c"
    and rollback_ok: "saved_of c = Some s \<Longrightarrow> db_of (tx_rollback d c) = s"
    and field_num_ok: "distinct (map (map lower_char) cols) \<Longrightarrow> i < length cols \<Longrightarrow>
      field_num d cols (cols ! i) = int i"
begin

lemma invoke_store_ok:
  assumes "safe_call name args"
    and "run_call cfg (now_of c) (name, args) (db_of c) = Inr ((cols, rows), db')"
    and "\<And>c1. f \<lparr>sr_ok = True, sr_columns = cols, sr_rows = rows\<rparr> c1 = (Value v, c1)"
  shows "\<exists>c'. invoke_store d (call_text name args) f c = (Value v, c') \<and> db_of c' = db' \<and>
     saved_of c' = saved_of c"
proof -
  obtain res c1 where q: "query_store d (call_text name args) c = (res, c1)" by force
  obtain r c2 where dr: "drain d c1 = (r, c2)" by force
  from store_ok[OF assms(1,2) q] drain_ok[OF dr] show ?thesis
    by (simp add: invoke_store_def q outcome_simps assms(3) bindM_def dr)
qed

lemma invoke_store_error:
  assumes "safe_call name args"
    and "run_call cfg (now_of c) (name, args) (db_of c) = Inl e"
    and "\<And>res c1. \<not> sr_ok res \<Longrightarrow> query_error d c1 = err e \<Longrightarrow> f res c1 = (Value v, c1)"
  shows "\<exists>c'. invoke_store d (call_text name args) f c = (Value v, c') \<and> db_of c' = db_of c \<and>
     saved_of c' = saved_of c"
proof -
  obtain res c1 where q: "query_store d (call_text name args) c = (res, c1)" by force
  obtain r c2 where dr: "drain d c1 = (r, c2)" by force
  from store_error[OF assms(1,2) q] drain_ok[OF dr] show ?thesis
    by (simp add: invoke_store_def q outcome_simps assms(3) bindM_def dr)
qed

lemma invoke_exec_ok:
  assumes "safe_call name args"
    and "run_call cfg (now_of c) (name, args) (db_of c) = Inr (rs, db')"
    and "\<And>c1. db_of c1 = db' \<Longrightarrow> saved_of c1 = saved_of c \<Longrightarrow>
      query_insert_id d c1 = ins (db_of c) db' \<Longrightarrow>
      \<exists>v c2. f True c1 = (Value v, c2) \<and> P v (db_of c2) (saved_of c2)"
  shows "\<exists>v c'. invoke_exec d (call_text name args) f c = (Value v, c') \<and> P v (db_of c') (saved_of c')"
proof -
  obtain b c1 where q: "query_exec d (call_text name args) c = (b, c1)" by force
  from exec_ok[OF assms(1,2) q] obtain v c2
    where f: "f b c1 = (Value v, c2)" "P v (db_of c2) (saved_of c2)"
    using assms(3)[of c1] by auto
  obtain r c3 where dr: "drain d c2 = (r, c3)" by force
  from f drain_ok[OF dr] show ?thesis
    by (simp add: invoke_exec_def q outcome_simps bindM_def dr)
qed

lemma invoke_exec_error:
  assumes "safe_call name args"
    and "run_call cfg (now_of c) (name, args) (db_of c) = Inl e"
    and "\<And>c1. db_of c1 = db_of c \<Longrightarrow> saved_of c1 = saved_of c \<Longrightarrow> query_error d c1 = err e \<Longrightarrow>
      \<exists>v c2. f False c1 = (Value v, c2) \<and> P v (db_of c2) (saved_of c2)"
  shows "\<exists>v c'. invoke_exec d (call_text name args) f c = (Value v, c') \<and> P v (db_of c') (saved_of c')"
proof -
  obtain b c1 where q: "query_exec d (call_text name args) c = (b, c1)" by force
  from exec_error[OF assms(1,2) q] obtain v c2
    where f: "f b c1 = (Value v, c2)" "P v (db_of c2) (saved_of c2)"
    using assms(3)[of c1] by auto
  obtain r c3 where dr: "drain d c2 = (r, c3)" by force
  from f drain_ok[OF dr] show ?thesis
    by (simp add: invoke_exec_def q outcome_simps bindM_def dr)
qed

end

section \<open>A session on the modelled procedures\<close>

record session =
  s_db :: db
  s_saved :: "db option"
  s_error :: string
  s_insert_id :: "64 word"
  s_now :: int

text \<open>
  \<open>ins\<close> is what the server reports as the insert id after a call. The manual of the C interface
  says that it is 0 after a \<open>CALL\<close> (\<open>no_id\<close>); \<open>new_id\<close> is what add_order would need.
\<close>

definition no_id :: "db \<Rightarrow> db \<Rightarrow> 64 word" where
  "no_id db db' = 0"

definition new_id :: "db \<Rightarrow> db \<Rightarrow> 64 word" where
  "new_id db db' = word_of_int
     (if next_order db' \<noteq> next_order db then next_order db
      else if next_item db' \<noteq> next_item db then next_item db
      else if next_ordered_item db' \<noteq> next_ordered_item db then next_ordered_item db else 0)"

definition session_run ::
  "sql_config \<Rightarrow> (sql_error \<Rightarrow> string) \<Rightarrow> (db \<Rightarrow> db \<Rightarrow> 64 word) \<Rightarrow> string \<Rightarrow> session \<Rightarrow>
     (string list \<times> row list) option \<times> session"
where
  "session_run cfg other ins text s =
     (case (case parse_call text of None \<Rightarrow> Inl Bad_statement
        | Some call \<Rightarrow> run_call cfg (s_now s) call (s_db s)) of
        Inl e \<Rightarrow> (None, s\<lparr>s_error := error_text other e\<rparr>)
      | Inr (rs, db') \<Rightarrow> (Some rs, s\<lparr>s_db := db', s_insert_id := ins (s_db s) db'\<rparr>))"

fun find_col :: "string list \<Rightarrow> string \<Rightarrow> nat" where
  "find_col [] f = 0"
| "find_col (c # cs) f = (if map lower_char c = map lower_char f then 0 else Suc (find_col cs f))"

definition session_driver ::
  "sql_config \<Rightarrow> (sql_error \<Rightarrow> string) \<Rightarrow> (db \<Rightarrow> db \<Rightarrow> 64 word) \<Rightarrow> session driver" where
  "session_driver cfg other ins = \<lparr>
     query_store = (\<lambda>t s. case session_run cfg other ins t s of
        (None, s') \<Rightarrow> (\<lparr>sr_ok = False, sr_columns = [], sr_rows = []\<rparr>, s')
      | (Some (cols, rows), s') \<Rightarrow> (\<lparr>sr_ok = True, sr_columns = cols, sr_rows = rows\<rparr>, s')),
     query_exec = (\<lambda>t s. case session_run cfg other ins t s of (r, s') \<Rightarrow> (r \<noteq> None, s')),
     query_store_next = (\<lambda>s. (False, s)),
     query_error = s_error,
     query_insert_id = s_insert_id,
     field_num = (\<lambda>cols f. int (find_col cols f)),
     null_data = ''NULL'',
     tx_start = (\<lambda>s. s\<lparr>s_saved := Some (s_db s)\<rparr>),
     tx_commit = (\<lambda>s. s\<lparr>s_saved := None\<rparr>),
     tx_rollback = (\<lambda>s. case s_saved s of None \<Rightarrow> s | Some old \<Rightarrow> s\<lparr>s_db := old, s_saved := None\<rparr>)\<rparr>"

lemma session_drain: "drain (session_driver cfg other ins) s = (Value (), s)"
  by (simp add: drain_def session_driver_def while_option_unfold)

lemma find_col_nth:
  "distinct (map (map lower_char) cols) \<Longrightarrow> i < length cols \<Longrightarrow> find_col cols (cols ! i) = i"
proof (induction cols arbitrary: i)
  case (Cons c cols)
  then show ?case
    by (cases i) (auto dest: nth_mem)
qed simp

interpretation session: sql_server cfg "session_driver cfg other ins" s_db s_now s_saved "error_text other" ins
  for cfg other ins
proof unfold_locales
  fix cols :: "string list" and i
  assume "distinct (map (map lower_char) cols)" "i < length cols"
  then show "field_num (session_driver cfg other ins) cols (cols ! i) = int i"
    by (simp add: session_driver_def find_col_nth)
qed (auto simp: session_drain, auto simp: session_driver_def session_run_def parse_call_text)

end
