(* ===== verification/Request_Access.thy ===== *)
theory Request_Access
  imports Request Sql_Server Order_Completion
begin

text \<open>
  The handlers against a database server that keeps its laws: the texts they format are the
  calls they mean, the check of the account answers what the stored procedure says, a guarded
  handler that is not let through leaves the database alone, and the queries never change it.
  Everything is proved in the locale \<open>sql_server\<close>, for every driver with these laws.
\<close>

section \<open>The formatted texts are calls\<close>

lemma call_texts [text_simps]:
  "fmt ''CALL CheckUserExists('{}', '{}', '{}');'' [a1, a2, a3] =
     call_text ''CheckUserExists'' [Arg_string a1, Arg_string a2, Arg_string a3]"
  "fmt ''CALL DeleteUser('{}');'' [a1] = call_text ''DeleteUser'' [Arg_string a1]"
  "fmt ''CALL UpdateUser('{}', '{}', '{}', '{}', '{}');'' [a1, a2, a3, a4, a5] =
     call_text ''UpdateUser'' [Arg_string a1, Arg_string a2, Arg_string a3, Arg_string a4, Arg_string a5]"
  "fmt ''CALL CreateUser('{}', '{}', '{}', '{}', '{}', '{}');'' [a1, a2, a3, a4, a5, a6] =
     call_text ''CreateUser'' [Arg_string a1, Arg_string a2, Arg_string a3, Arg_string a4,
       Arg_string a5, Arg_string a6]"
  "fmt ''CALL CreateCustomer('{}', '{}', '{}', '{}');'' [a1, a2, a3, a4] =
     call_text ''CreateCustomer'' [Arg_string a1, Arg_string a2, Arg_string a3, Arg_string a4]"
  "fmt ''CALL DeleteCustomer('{}');'' [a1] = call_text ''DeleteCustomer'' [Arg_string a1]"
  "fmt ''CALL AddItem('{}', {}, {}, {}, {}, '{}');'' [a1, a2, a3, a4, a5, a6] =
     call_text ''AddItem'' [Arg_string a1, Arg_number a2, Arg_number a3, Arg_number a4,
       Arg_number a5, Arg_string a6]"
  "fmt ''CALL AddItemCount('{}', '{}');'' [a1, a2] =
     call_text ''AddItemCount'' [Arg_string a1, Arg_string a2]"
  "fmt ''CALL CompleteOrder('{}');'' [a1] = call_text ''CompleteOrder'' [Arg_string a1]"
  "fmt ''CALL AddOrder('{}', 'FROM_UNIXTIME{}');'' [a1, a2] =
     call_text ''AddOrder'' [Arg_string a1, Arg_string (''FROM_UNIXTIME'' @ a2)]"
  "fmt ''CALL AddOrderedItem('{}', '{}', '{}');'' [a1, a2, a3] =
     call_text ''AddOrderedItem'' [Arg_string a1, Arg_string a2, Arg_string a3]"
  "fmt ''CALL GetOrderItems({});'' [a1] = call_text ''GetOrderItems'' [Arg_number a1]"
  "fmt ''CALL GetCompletedOrders(FROM_UNIXTIME({}), FROM_UNIXTIME({}));'' [a1, a2] =
     call_text ''GetCompletedOrders'' [Arg_from_unixtime a1, Arg_from_unixtime a2]"
  "fmt ''CALL GetIncome(FROM_UNIXTIME({}), FROM_UNIXTIME({}));'' [a1, a2] =
     call_text ''GetIncome'' [Arg_from_unixtime a1, Arg_from_unixtime a2]"
  "fmt ''CALL GetSellsStatiscticsByDistributors(FROM_UNIXTIME({}), FROM_UNIXTIME({}));'' [a1, a2] =
     call_text ''GetSellsStatiscticsByDistributors'' [Arg_from_unixtime a1, Arg_from_unixtime a2]"
  by (simp_all add: call_text_def)

lemma query_texts [text_simps]:
  "''CALL GetUsers();'' = call_text ''GetUsers'' []"
  "''CALL GetRanks();'' = call_text ''GetRanks'' []"
  "''CALL GetCustomers();'' = call_text ''GetCustomers'' []"
  "''CALL GetOrders();'' = call_text ''GetOrders'' []"
  "''CALL GetItems();'' = call_text ''GetItems'' []"
  "''CALL GetDistributors();'' = call_text ''GetDistributors'' []"
  "''CALL GetItemTypes();'' = call_text ''GetItemTypes'' []"
  "''CALL GetExpiredOrders();'' = call_text ''GetExpiredOrders'' []"
  by (simp_all add: call_text_def)

lemma numeral_text_show_int [simp]: "numeral_text (show_int i)"
  by (auto simp: numeral_text_def list_all_iff numeral_char_def dest: show_int_chars)

lemma safe_string_show_int [simp]: "safe_string (show_int i)"
  by (auto simp: safe_string_def is_digit_def dest!: show_int_chars)

lemma safe_string_show_nat [simp]: "safe_string (show_nat n)"
  using safe_string_show_int[of "int n"] by (simp add: show_int_def)

lemma safe_string_append [simp]: "safe_string (s @ t) \<longleftrightarrow> safe_string s \<and> safe_string t"
  by (auto simp: safe_string_def)

lemma safe_show_i64 [simp]: "numeral_text (show_i64 w)" "safe_string (show_i64 w)"
  by (simp_all add: show_i64_def)

declare ident_char_def [simp]

lemma make_response_str_eq: "make_response_str msg = ''response = '' @ quote_char # msg @ quote_char # ''\<newline>''"
  by (simp add: make_response_str_def)

lemma reply_neq_Nil [simp]:
  "make_response_str msg \<noteq> []" "bad_config \<noteq> []" "access_denied \<noteq> []" "success \<noteq> []"
  by (simp_all add: make_response_str_eq bad_config_def access_denied_def success_def)

section \<open>The caller's account\<close>

definition credentials :: "lua \<Rightarrow> (string \<times> string \<times> string) option" where
  "credentials config =
     (let user = get_raw_ref config ''user'' in
      if \<not> holds user VM_Table then None
      else case (get_raw_string user ''login'', get_raw_string user ''password'', get_raw_string user ''rank'') of
        (Some l, Some p, Some r) \<Rightarrow> Some (l, p, r)
      | _ \<Rightarrow> None)"

text \<open>What the server should demand: an account with this login, password and a wanted rank.\<close>

definition authorised :: "sql_config \<Rightarrow> lua \<Rightarrow> string list \<Rightarrow> db \<Rightarrow> bool" where
  "authorised cfg config rank_names db \<longleftrightarrow>
     (case credentials config of
        None \<Rightarrow> False
      | Some (l, p, r) \<Rightarrow> r \<in> set rank_names \<and> length l \<le> 64 \<and> length p \<le> 64 \<and>
          CheckUserExists cfg l p r db)"

definition safe_credentials :: "lua \<Rightarrow> bool" where
  "safe_credentials config \<longleftrightarrow> (case credentials config of
      None \<Rightarrow> True | Some (l, p, r) \<Rightarrow> safe_string l \<and> safe_string p)"

definition plain_ranks :: "string list \<Rightarrow> bool" where
  "plain_ranks rank_names \<longleftrightarrow> list_all (\<lambda>r. safe_string r \<and> length r \<le> 64) rank_names"

lemma plain_ranks_used [simp]:
  "plain_ranks [''Admin'', ''Employee'', ''Accountant'']" "plain_ranks [''Admin'']"
  "plain_ranks [''Employee'', ''Admin'']"
  by (simp_all add: plain_ranks_def safe_string_def)

text \<open>The answer of the check, on the paths that do not reach the database.\<close>

lemma check_user_no_credentials:
  assumes "credentials config = None"
  shows "check_user_existance E d config rank_names c = (Value bad_config, c)"
  using assms
  by (auto simp: check_user_existance_def credentials_def string_value_def Let_def outcome_simps
      catch_all_def split: if_splits option.splits)

lemma check_user_wrong_rank:
  assumes "credentials config = Some (l, p, r)" and "r \<notin> set rank_names"
  shows "check_user_existance E d config rank_names c = (Value access_denied, c)"
  using assms
  by (auto simp: check_user_existance_def credentials_def string_value_def Let_def outcome_simps
      catch_all_def list_ex_iff split: if_splits option.splits)

lemma check_user_asks:
  assumes "credentials config = Some (l, p, r)" and "r \<in> set rank_names"
  shows "check_user_existance E d config rank_names =
     catch_all (invoke_store d (call_text ''CheckUserExists'' [Arg_string l, Arg_string p, Arg_string r])
       (\<lambda>res. if \<not> sr_ok res then reply_error d
          else bindM (valueM Exn_std (row_at (sr_rows res) 0)) (\<lambda>row.
               bindM (valueM Exn_mysqlpp (row_at row 0)) (\<lambda>cell.
               if cell_data d cell = ''0'' then retM bad_config else retM []))))
     (retM bad_config)"
  using assms
  by (auto simp: check_user_existance_def credentials_def string_value_def Let_def outcome_simps
      list_ex_iff call_text_def split: if_splits option.splits)

section \<open>The handlers against a lawful server\<close>

text \<open>A call is run on a database, or refused with an error and no change.\<close>

definition call_db :: "sql_config \<Rightarrow> int \<Rightarrow> string \<times> sql_arg list \<Rightarrow> db \<Rightarrow> db" where
  "call_db cfg now call db = (case run_call cfg now call db of Inl e \<Rightarrow> db | Inr r \<Rightarrow> snd r)"

lemma run_call_CheckUserExists:
  "run_call cfg now (''CheckUserExists'', [Arg_string l, Arg_string p, Arg_string r]) db =
     (if length l \<le> 64 \<and> length p \<le> 64 \<and> length r \<le> 64
      then Inr (([''EXISTS''], [[Some (bool_text (CheckUserExists cfg l p r db))]]), db)
      else Inl Data_too_long)"
  by (simp add: run_call_defs as_varchar_def rows_of_def)

text \<open>The answers to a caller who is refused; the last one only when a text is too long for its column.\<close>

definition refusals :: "(sql_error \<Rightarrow> string) \<Rightarrow> lua \<Rightarrow> string set" where
  "refusals err config = {bad_config, access_denied} \<union>
     (case credentials config of
        Some (l, p, r) \<Rightarrow> if length l \<le> 64 \<and> length p \<le> 64 then {} else {make_response_str (err Data_too_long)}
      | None \<Rightarrow> {})"

lemma refusals_subset: "refusals err config \<subseteq> {bad_config, access_denied, make_response_str (err Data_too_long)}"
  by (auto simp: refusals_def split: option.splits if_splits)

context sql_server
begin

lemma check_user_exact:
  assumes "safe_credentials config" and "plain_ranks rank_names"
  shows "\<exists>r c'. check_user_existance E d config rank_names c = (Value r, c') \<and>
     db_of c' = db_of c \<and> saved_of c' = saved_of c \<and>
     (if authorised cfg config rank_names (db_of c) then r = []
      else r \<in> refusals err config)"
proof (cases "credentials config")
  case None
  then show ?thesis
    by (simp add: check_user_no_credentials authorised_def refusals_def)
next
  case (Some lpr)
  then obtain l p r where cr: "credentials config = Some (l, p, r)" by (cases lpr) auto
  show ?thesis
  proof (cases "r \<in> set rank_names")
    case False
    then show ?thesis
      by (simp add: check_user_wrong_rank[OF cr] authorised_def refusals_def cr)
  next
    case True
    let ?args = "[Arg_string l, Arg_string p, Arg_string r]"
    let ?f = "\<lambda>res. if \<not> sr_ok res then reply_error d
          else bindM (valueM Exn_std (row_at (sr_rows res) 0)) (\<lambda>row.
               bindM (valueM Exn_mysqlpp (row_at row 0)) (\<lambda>cell.
               if cell_data d cell = ''0'' then retM bad_config else retM []))"
    from True assms have len: "length r \<le> 64" and strings: "safe_string l" "safe_string p" "safe_string r"
      by (auto simp: plain_ranks_def list_all_iff safe_credentials_def cr)
    then have safe: "safe_call ''CheckUserExists'' ?args"
      by (simp add: safe_call_def)
    have "\<exists>v c'. invoke_store d (call_text ''CheckUserExists'' ?args) ?f c = (Value v, c') \<and>
        db_of c' = db_of c \<and> saved_of c' = saved_of c \<and>
        (if authorised cfg config rank_names (db_of c) then v = []
         else v \<in> refusals err config)"
    proof (cases "length l \<le> 64 \<and> length p \<le> 64")
      case ok: True
      let ?b = "CheckUserExists cfg l p r (db_of c)"
      have "\<exists>c'. invoke_store d (call_text ''CheckUserExists'' ?args) ?f c =
          (Value (if ?b then [] else bad_config), c') \<and> db_of c' = db_of c \<and> saved_of c' = saved_of c"
        by (rule invoke_store_ok[OF safe])
          (use ok len in \<open>auto simp: run_call_CheckUserExists outcome_simps row_at_def cell_data_def bool_text_def\<close>)
      then show ?thesis
        using ok True by (cases ?b) (auto simp: authorised_def refusals_def cr)
    next
      case bad: False
      have "\<exists>c'. invoke_store d (call_text ''CheckUserExists'' ?args) ?f c =
          (Value (make_response_str (err Data_too_long)), c') \<and> db_of c' = db_of c \<and> saved_of c' = saved_of c"
        by (rule invoke_store_error[OF safe])
          (use bad in \<open>auto simp: run_call_CheckUserExists outcome_simps reply_error_def\<close>)
      then show ?thesis
        using bad by (auto simp: authorised_def refusals_def cr)
    qed
    then show ?thesis
      unfolding check_user_asks[OF cr True] by (auto simp: outcome_simps)
  qed
qed

lemma check_user_result:
  assumes "safe_credentials config" and "plain_ranks rank_names"
  shows "\<exists>r c'. check_user_existance E d config rank_names c = (Value r, c') \<and>
     db_of c' = db_of c \<and> saved_of c' = saved_of c \<and>
     (if authorised cfg config rank_names (db_of c) then r = []
      else r \<in> {bad_config, access_denied, make_response_str (err Data_too_long)})"
  using check_user_exact[OF assms, of E c] refusals_subset[of err config]
  by (auto split: if_splits)

lemma guarded_allowed:
  assumes "safe_credentials config" and "plain_ranks rank_names"
    and "authorised cfg config rank_names (db_of c)"
  obtains c1 where "db_of c1 = db_of c" and "saved_of c1 = saved_of c"
    and "guarded E d config rank_names body c = body c1" and "c1 = snd (check_user_existance E d config rank_names c)"
  using check_user_result[OF assms(1,2), of E c] assms(3)
  by (auto simp: guarded_def outcome_simps)

lemma guarded_refused:
  assumes "safe_credentials config" and "plain_ranks rank_names"
    and "\<not> authorised cfg config rank_names (db_of c)"
  shows "\<exists>r c'. guarded E d config rank_names body c = (Value r, c') \<and>
     r \<in> {bad_config, access_denied, make_response_str (err Data_too_long)} \<and>
     db_of c' = db_of c \<and> saved_of c' = saved_of c"
  using check_user_result[OF assms(1,2), of E c] assms(3)
  by (auto simp: guarded_def outcome_simps)

lemma guarded_refused_exact:
  assumes "safe_credentials config" and "plain_ranks rank_names"
    and "\<not> authorised cfg config rank_names (db_of c)"
  shows "\<exists>r c'. guarded E d config rank_names body c = (Value r, c') \<and> r \<in> refusals err config \<and>
     db_of c' = db_of c"
proof -
  have "[] \<notin> refusals err config"
    by (auto simp: refusals_def bad_config_def access_denied_def make_response_str_def split: option.splits if_splits)
  then show ?thesis
    using check_user_exact[OF assms(1,2), of E c] assms(3)
    by (auto simp: guarded_def outcome_simps)
qed

lemma exec_checked_result:
  assumes "safe_call name args"
  shows "\<exists>r c'. exec_checked d (call_text name args) c = (Value r, c') \<and>
     r = (case run_call cfg (now_of c) (name, args) (db_of c) of
            Inl e \<Rightarrow> make_response_str (err e) | Inr x \<Rightarrow> success) \<and>
     db_of c' = call_db cfg (now_of c) (name, args) (db_of c) \<and> saved_of c' = saved_of c"
    (is "\<exists>r c'. _ \<and> ?P r (db_of c') (saved_of c')")
proof (cases "run_call cfg (now_of c) (name, args) (db_of c)")
  case (Inl e)
  show ?thesis
    unfolding exec_checked_def
    by (rule invoke_exec_error[OF assms Inl, where P = ?P])
      (auto simp: reply_error_def outcome_simps Inl call_db_def)
next
  case (Inr x)
  then obtain rs db' where x: "run_call cfg (now_of c) (name, args) (db_of c) = Inr (rs, db')"
    by (cases x) auto
  show ?thesis
    unfolding exec_checked_def
    by (rule invoke_exec_ok[OF assms x, where P = ?P]) (auto simp: outcome_simps x call_db_def)
qed

lemma exec_always_result:
  assumes "safe_call name args"
  shows "\<exists>r c'. exec_always d (call_text name args) c = (Value r, c') \<and> r = success \<and>
     db_of c' = call_db cfg (now_of c) (name, args) (db_of c) \<and> saved_of c' = saved_of c"
    (is "\<exists>r c'. _ \<and> ?P r (db_of c') (saved_of c')")
proof (cases "run_call cfg (now_of c) (name, args) (db_of c)")
  case (Inl e)
  show ?thesis
    unfolding exec_always_def
    by (rule invoke_exec_error[OF assms Inl, where P = ?P]) (auto simp: outcome_simps Inl call_db_def)
next
  case (Inr x)
  then obtain rs db' where x: "run_call cfg (now_of c) (name, args) (db_of c) = Inr (rs, db')"
    by (cases x) auto
  show ?thesis
    unfolding exec_always_def
    by (rule invoke_exec_ok[OF assms x, where P = ?P]) (auto simp: outcome_simps x call_db_def)
qed

end

end
