(* ===== verification/Request_Table.thy ===== *)
theory Request_Table
  imports Request "HOL-Library.Multiset"
begin

text \<open>
  The table of requests in main.cpp, the set the server keeps of it (compared by name only,
  \<open>Request::operator==\<close> in AsioDefs.hpp), and what a connection does with one message:
  \<open>parse_config\<close>, \<open>get_config_request\<close>, \<open>ProcessRequest\<close> and the text that \<open>WriteRespone\<close>
  sends (Connection.cpp). The Lua VM is a parameter: \<open>exec\<close> runs the message with a fresh table
  as its globals and yields that table, or nothing when the chunk fails.
\<close>

section \<open>The table\<close>

type_synonym 'c handler = "env \<Rightarrow> 'c driver \<Rightarrow> lua \<Rightarrow> ('c, string) act"

definition requests :: "(string \<times> 'c handler) list" where
  "requests = [
     (''auth'', auth),
     (''get_users'', get_users),
     (''get_ranks'', get_ranks),
     (''get_customers'', get_customers),
     (''get_orders'', get_orders),
     (''get_order_items'', get_order_items),
     (''get_items'', get_items),
     (''get_distributors'', get_distributors),
     (''get_item_types'', get_item_types),
     (''delete_user'', delete_user),
     (''update_user'', update_user),
     (''create_user'', create_user),
     (''create_customer'', create_customer),
     (''delete_customer'', delete_customer),
     (''add_item'', add_item),
     (''add_item_count'', add_item_count),
     (''complete_order'', complete_order),
     (''add_order'', add_order),
     (''get_expired_orders'', get_expired_orders),
     (''get_completed_orders'', get_completed_orders),
     (''get_income'', get_income),
     (''get_statistics'', get_statistics)]"

text \<open>
  The constructor of the \<open>unordered_set\<close> drops an entry whose name is taken. The order in which
  the set is walked is not specified: \<open>walk\<close> is some order of the set.
\<close>

fun request_set :: "(string \<times> 'h) list \<Rightarrow> (string \<times> 'h) list" where
  "request_set [] = []"
| "request_set (r # rs) = r # filter (\<lambda>q. fst q \<noteq> fst r) (request_set rs)"

definition walk_of :: "(string \<times> 'h) list \<Rightarrow> (string \<times> 'h) list \<Rightarrow> bool" where
  "walk_of walk rs \<longleftrightarrow> mset walk = mset (request_set rs)"

section \<open>One message\<close>

definition parse_config :: "(string \<Rightarrow> lua option) \<Rightarrow> string \<Rightarrow> lua option" where
  "parse_config exec config_str = exec config_str"

definition get_config_request :: "lua \<Rightarrow> string" where
  "get_config_request config = (case get_raw_string config ''request'' of None \<Rightarrow> [] | Some r \<Rightarrow> r)"

text \<open>The loop over the requests, with its flag \<open>found\<close> and its \<open>break\<close>.\<close>

fun find_request :: "(string \<times> 'h) list \<Rightarrow> string \<Rightarrow> 'h option" where
  "find_request [] name = None"
| "find_request ((n, h) # rs) name = (if n = name then Some h else find_request rs name)"

definition process_request ::
  "env \<Rightarrow> 'c driver \<Rightarrow> (string \<Rightarrow> lua option) \<Rightarrow> (string \<times> 'c handler) list \<Rightarrow> string \<Rightarrow> ('c, string) act"
where
  "process_request E d exec walk config_str =
     (case parse_config exec config_str of
        None \<Rightarrow> retM bad_config
      | Some config \<Rightarrow>
          (let request = get_config_request config in
           if request = [] then retM bad_config
           else case find_request walk request of
             None \<Rightarrow> retM bad_config
           | Some func \<Rightarrow> func E d config))"

definition write_response :: "string \<Rightarrow> string \<Rightarrow> string" where
  "write_response end_of_message output_str = output_str @ end_of_message"

section \<open>The order of the set does not matter\<close>

lemma distinct_request_set: "distinct (map fst (request_set rs))"
  by (induction rs) (auto simp: distinct_map_filter)

lemma request_set_requests: "request_set requests = requests"
  by (simp add: requests_def)

lemma distinct_requests: "distinct (map fst requests)"
  using distinct_request_set[of requests] by (simp add: request_set_requests)

lemma find_request_map_of: "find_request rs name = map_of rs name"
  by (induction rs) auto

lemma walk_requests:
  fixes walk :: "(string \<times> 'c handler) list"
  assumes "walk_of walk requests"
  shows "map_of walk = map_of requests"
proof -
  let ?requests = "requests :: (string \<times> 'c handler) list"
  have m: "mset walk = mset ?requests"
    using assms by (simp add: walk_of_def request_set_requests)
  then have "mset (map fst walk) = mset (map fst ?requests)" by simp
  then have "distinct (map fst walk)"
    by (metis distinct_requests mset_eq_imp_distinct_iff)
  moreover have "set walk = set ?requests"
    using m by (rule mset_eq_setD)
  ultimately show ?thesis
    by (simp add: map_of_inject_set distinct_requests)
qed

lemma process_request_cases:
  fixes walk :: "(string \<times> 'c handler) list"
  assumes "walk_of walk requests"
  shows "process_request E d exec walk s c =
     (case exec s of None \<Rightarrow> (Value bad_config, c)
      | Some config \<Rightarrow>
          (case map_of requests (get_config_request config) of
             None \<Rightarrow> (Value bad_config, c)
           | Some h \<Rightarrow> h E d config c))"
proof -
  have "map_of (requests :: (string \<times> 'c handler) list) [] = None"
    by (simp add: requests_def)
  then show ?thesis
    by (auto simp: process_request_def parse_config_def Let_def find_request_map_of
        walk_requests[OF assms] outcome_simps split: option.split)
qed

end
