(* ===== verification/Request_Safety.thy ===== *)
theory Request_Safety
  imports Request_Access Request_Table
begin

text \<open>
  Who may change the database: the ranks each request demands, the requests that demand none, and
  the safety of the whole table of requests against a lawful server.
\<close>

section \<open>Guards and queries\<close>

definition required_ranks :: "string \<Rightarrow> string list option" where
  "required_ranks name =
     (if name \<in> {''get_users'', ''delete_user'', ''update_user'', ''create_user''} then Some [''Admin'']
      else if name \<in> {''create_customer'', ''delete_customer'', ''add_item'', ''add_item_count'',
        ''complete_order'', ''add_order''} then Some [''Employee'', ''Admin'']
      else if name \<in> {''auth'', ''get_expired_orders''} then Some [''Admin'', ''Employee'', ''Accountant'']
      else None)"

lemmas guarded_handler_defs = auth_def get_users_def delete_user_def update_user_def create_user_def
  create_customer_def delete_customer_def add_item_def add_item_count_def complete_order_def
  add_order_def get_expired_orders_def

lemmas open_handler_defs = get_ranks_def get_customers_def get_orders_def get_order_items_def
  get_items_def get_distributors_def get_item_types_def get_completed_orders_def get_income_def
  get_statistics_def

text \<open>A handler that begins with the check of the ranks.\<close>

definition guarded_by :: "'c handler \<Rightarrow> string list \<Rightarrow> bool" where
  "guarded_by h R \<longleftrightarrow> (\<exists>body. \<forall>E d config. h E d config = guarded E d config R (body E d config))"

lemma guarded_byI:
  "(\<And>E d config. h E d config = guarded E d config R (body E d config)) \<Longrightarrow> guarded_by h R"
  by (auto simp: guarded_by_def)

lemma guarded_handlers [simp]:
  "guarded_by auth [''Admin'', ''Employee'', ''Accountant'']"
  "guarded_by get_users [''Admin'']"
  "guarded_by delete_user [''Admin'']"
  "guarded_by update_user [''Admin'']"
  "guarded_by create_user [''Admin'']"
  "guarded_by create_customer [''Employee'', ''Admin'']"
  "guarded_by delete_customer [''Employee'', ''Admin'']"
  "guarded_by add_item [''Employee'', ''Admin'']"
  "guarded_by add_item_count [''Employee'', ''Admin'']"
  "guarded_by complete_order [''Employee'', ''Admin'']"
  "guarded_by add_order [''Employee'', ''Admin'']"
  "guarded_by get_expired_orders [''Admin'', ''Employee'', ''Accountant'']"
  by (rule guarded_byI, rule guarded_handler_defs)+

lemma requests_guarded:
  assumes "(name, h) \<in> set requests" and "required_ranks name = Some R"
  shows "guarded_by h R"
proof -
  have "list_all (\<lambda>(n, h). \<forall>R. required_ranks n = Some R \<longrightarrow> guarded_by h R) requests"
    by (simp add: requests_def required_ranks_def)
  with assms show ?thesis by (auto simp: list_all_iff)
qed

lemma required_ranks_plain: "required_ranks name = Some R \<Longrightarrow> plain_ranks R"
  unfolding required_ranks_def by (metis option.distinct(1) option.inject plain_ranks_used)

text \<open>The calls of the queries.\<close>

lemma run_query_calls:
  "run_call cfg now (''GetUsers'', []) db = rows_of GetUsers_columns (GetUsers db) db"
  "run_call cfg now (''GetRanks'', []) db = rows_of GetRanks_columns (GetRanks db) db"
  "run_call cfg now (''GetCustomers'', []) db = rows_of GetCustomers_columns (GetCustomers db) db"
  "run_call cfg now (''GetItems'', []) db = rows_of GetItems_columns (GetItems cfg db) db"
  "run_call cfg now (''GetDistributors'', []) db = rows_of named_columns (GetDistributors db) db"
  "run_call cfg now (''GetItemTypes'', []) db = rows_of named_columns (GetItemTypes db) db"
  "run_call cfg now (''GetOrders'', []) db = rows_of Order_columns (GetOrders cfg db) db"
  "run_call cfg now (''GetExpiredOrders'', []) db = rows_of Order_columns (GetExpiredOrders cfg now db) db"
  by (simp_all add: run_call_defs)

lemma run_report_calls:
  "run_call cfg now (''GetOrderItems'', [a]) db =
     bindE (as_int a) (\<lambda>i. rows_of GetOrderItems_columns (GetOrderItems cfg i db) db)"
  "run_call cfg now (''GetCompletedOrders'', [a, b]) db = bindE (as_date cfg a) (\<lambda>s.
     bindE (as_date cfg b) (\<lambda>e. rows_of Order_columns (GetCompletedOrders cfg s e db) db))"
  "run_call cfg now (''GetIncome'', [a, b]) db = bindE (as_date cfg a) (\<lambda>s.
     bindE (as_date cfg b) (\<lambda>e. rows_of [''income''] (GetIncome cfg s e db) db))"
  "run_call cfg now (''GetSellsStatiscticsByDistributors'', [a, b]) db = bindE (as_date cfg a) (\<lambda>s.
     bindE (as_date cfg b) (\<lambda>e. rows_of GetStatistics_columns
       (GetSellsStatiscticsByDistributors cfg s e db) db))"
  by (simp_all add: run_call_defs)

definition read_only :: "sql_config \<Rightarrow> string \<times> sql_arg list \<Rightarrow> bool" where
  "read_only cfg call \<longleftrightarrow>
     (\<forall>now db rs db'. run_call cfg now call db = Inr (rs, db') \<longrightarrow> db' = db)"

lemma read_only_calls [simp]:
  "read_only cfg (''GetUsers'', [])" "read_only cfg (''GetRanks'', [])"
  "read_only cfg (''GetCustomers'', [])" "read_only cfg (''GetItems'', [])"
  "read_only cfg (''GetDistributors'', [])" "read_only cfg (''GetItemTypes'', [])"
  "read_only cfg (''GetOrders'', [])" "read_only cfg (''GetExpiredOrders'', [])"
  "read_only cfg (''GetOrderItems'', [a])" "read_only cfg (''GetCompletedOrders'', [a, b])"
  "read_only cfg (''GetIncome'', [a, b])"
  "read_only cfg (''GetSellsStatiscticsByDistributors'', [a, b])"
  by (auto simp: read_only_def run_query_calls run_report_calls rows_of_def bindE_Inr_iff)

context sql_server
begin

lemma preserves_drain: "preserves db_of (drain d)"
  unfolding within_def using drain_ok by (metis prod.collapse)

lemma preserves_invoke_store:
  assumes "safe_call name args" and "read_only cfg (name, args)"
    and "\<And>res. preserves db_of (f res)"
  shows "preserves db_of (invoke_store d (call_text name args) f)"
  unfolding within_def
proof
  fix c
  obtain res c1 where q: "query_store d (call_text name args) c = (res, c1)" by force
  have "db_of c1 = db_of c"
  proof (cases "run_call cfg (now_of c) (name, args) (db_of c)")
    case (Inl e)
    from store_error[OF assms(1) Inl q] show ?thesis by simp
  next
    case (Inr x)
    then obtain cols rows db' where x: "run_call cfg (now_of c) (name, args) (db_of c) = Inr ((cols, rows), db')"
      by (cases x) auto
    with assms(2) have "db' = db_of c" by (auto simp: read_only_def)
    with store_ok[OF assms(1) x q] show ?thesis by simp
  qed
  moreover have "preserves db_of (bindM (f res) (\<lambda>v. bindM (drain d) (\<lambda>_. retM v)))"
    by (intro within_intros preserves_drain assms(3))
  ultimately show "db_of (snd (invoke_store d (call_text name args) f c)) = db_of c"
    by (simp add: invoke_store_def q within_def)
qed

lemma preserves_store_reply:
  assumes "safe_call name args" and "read_only cfg (name, args)"
  shows "preserves db_of (store_reply E d (call_text name args) table flds)"
  unfolding store_reply_def
  by (rule preserves_invoke_store[OF assms]) (intro within_intros)

text \<open>The requests that demand no account are queries.\<close>

lemma preserves_open_handlers:
  "preserves db_of (get_ranks E d config)" "preserves db_of (get_customers E d config)"
  "preserves db_of (get_orders E d config)" "preserves db_of (get_items E d config)"
  "preserves db_of (get_distributors E d config)" "preserves db_of (get_item_types E d config)"
  unfolding open_handler_defs query_texts
  by (rule preserves_store_reply; simp add: safe_call_def)+

lemma preserves_get_order_items: "preserves db_of (get_order_items E d config)"
  unfolding open_handler_defs call_texts
  by (auto split: option.split intro!: within_intros preserves_store_reply simp: safe_call_def)

lemma preserves_with_dates:
  assumes "\<And>start end. preserves db_of (f start end)"
  shows "preserves db_of (with_dates E config f)"
  unfolding with_dates_def try_bad_config_def int_value_def Let_def
  by (intro within_intros assms)

lemma preserves_reports:
  "preserves db_of (get_completed_orders E d config)" "preserves db_of (get_statistics E d config)"
  "preserves db_of (get_income E d config)"
  unfolding open_handler_defs call_texts
  by (rule preserves_with_dates; rule preserves_store_reply preserves_invoke_store;
      (intro within_intros)?; simp add: safe_call_def)+

lemma request_safe:
  assumes "(name, h) \<in> set requests" and "safe_credentials config"
    and "db_of (snd (h E d config c)) \<noteq> db_of c"
  shows "\<exists>R. required_ranks name = Some R \<and> authorised cfg config R (db_of c)"
proof (cases "required_ranks name")
  case (Some R)
  from requests_guarded[OF assms(1) Some] obtain body
    where "h E d config = guarded E d config R (body E d config)"
    by (auto simp: guarded_by_def)
  with guarded_refused[OF assms(2) required_ranks_plain[OF Some], of c E "body E d config"] assms(3)
  show ?thesis using Some by fastforce
next
  case None
  have "list_all (\<lambda>(n, h). required_ranks n = None \<longrightarrow> preserves db_of (h E d config)) requests"
    by (simp add: requests_def required_ranks_def preserves_open_handlers preserves_get_order_items
        preserves_reports)
  with assms(1) None have "preserves db_of (h E d config)"
    by (auto simp: list_all_iff)
  with assms(3) show ?thesis by (simp add: within_def)
qed

lemma request_refused:
  assumes "(name, h) \<in> set requests" and "safe_credentials config"
    and "required_ranks name = Some R" and "\<not> authorised cfg config R (db_of c)"
  shows "\<exists>r c'. h E d config c = (Value r, c') \<and> db_of c' = db_of c \<and>
     r \<in> {bad_config, access_denied, make_response_str (err Data_too_long)}"
proof -
  from requests_guarded[OF assms(1,3)] obtain body
    where "h E d config = guarded E d config R (body E d config)"
    by (auto simp: guarded_by_def)
  with guarded_refused[OF assms(2) required_ranks_plain[OF assms(3)] assms(4), of E "body E d config"]
  show ?thesis by fastforce
qed

end

end
