(* ===== verification/Request_Changes.thy ===== *)
theory Request_Changes
  imports Request_Safety
begin

text \<open>
  What the changing handlers do to the database when the caller is let through: the procedure of
  the request, with the arguments of the request, and the reply that reports it; for the two
  handlers with a transaction, all of it or nothing.
\<close>

section \<open>Arguments\<close>

lemma as_integer_show_int [simp]:
  "as_integer lo hi (Arg_string (show_int i)) = (if lo \<le> i \<and> i \<le> hi then Inr i else Inl Out_of_range)"
  by (simp add: as_integer_def Let_def parse_sint_show_int)

definition fits_int :: "i64 \<Rightarrow> bool" where
  "fits_int w \<longleftrightarrow> - (2 ^ 31) \<le> sint w \<and> sint w \<le> int_max"

lemma as_int_show_i64 [simp]:
  "as_int (Arg_string (show_i64 w)) = (if fits_int w then Inr (sint w) else Inl Out_of_range)"
  by (simp add: as_int_def show_i64_def fits_int_def)

lemma sint_32_fits: "- (2 ^ 31) \<le> sint (w :: 32 word) \<and> sint w \<le> int_max"
  using sint_greater_eq[of w] sint_less[of w] by (simp add: int_max_def)

lemma as_int_show_sint [simp]: "as_int (Arg_string (show_int (sint (w :: 32 word)))) = Inr (sint w)"
  using sint_32_fits[of w] by (simp add: as_int_def)

lemma as_int_unsigned_show [simp]:
  "as_int_unsigned (Arg_string (show_nat (unat (w :: 32 word)))) = Inr (unat w)"
proof -
  have "uint w < 2 ^ 32" using unsigned_less[of w, where ?'a = int] by simp
  then show ?thesis
    using as_integer_show_int[of 0 "int uint_max" "int (unat w)"]
    by (simp add: as_int_unsigned_def show_int_def uint_max_def)
qed

lemma as_bigint_show_i64 [simp]:
  "as_bigint_unsigned (Arg_string (show_i64 w)) =
     (if 0 \<le> sint w then Inr (nat (sint w)) else Inl Out_of_range)"
proof -
  have "sint w \<le> 2 ^ 64 - 1" using sint_less[of w] by simp
  then show ?thesis by (simp add: as_bigint_unsigned_def show_i64_def)
qed

lemma as_varchar_ok: "length s \<le> n \<Longrightarrow> as_varchar n (Arg_string s) = Inr s"
  by (simp add: as_varchar_def)

text \<open>The calls of the changes.\<close>

lemma run_change_calls:
  "run_call cfg now (''DeleteUser'', [a]) db =
     bindE (as_varchar 64 a) (\<lambda>l. changes (DeleteUser cfg l db))"
  "run_call cfg now (''CreateUser'', [a, b, x, y, z, k]) db =
     bindE (as_varchar 64 a) (\<lambda>l. bindE (as_varchar 64 b) (\<lambda>p. bindE (as_varchar 64 x) (\<lambda>s.
     bindE (as_varchar 64 y) (\<lambda>n. bindE (as_varchar 64 z) (\<lambda>pn. bindE (as_int k) (\<lambda>r.
       changes (CreateUser cfg l p s n pn r db)))))))"
  "run_call cfg now (''AddItemCount'', [a, b]) db =
     bindE (as_int a) (\<lambda>i. bindE (as_int b) (\<lambda>x. changes (AddItemCount i x db)))"
  "run_call cfg now (''CompleteOrder'', [a]) db =
     bindE (as_int a) (\<lambda>i. changes (CompleteOrder cfg now i db))"
  "run_call cfg now (''AddOrder'', [a, b]) db =
     bindE (as_bigint_unsigned a) (\<lambda>t. bindE (as_date cfg b) (\<lambda>e. changes (AddOrder cfg now t e db)))"
  "run_call cfg now (''AddOrderedItem'', [a, b, k]) db =
     bindE (as_int a) (\<lambda>i. bindE (as_int b) (\<lambda>it. bindE (as_int_unsigned k) (\<lambda>n.
       changes (AddOrderedItem i it n db))))"
  "run_call cfg now (''DeleteCustomer'', [a]) db =
     bindE (as_bigint_unsigned a) (\<lambda>t. changes (DeleteCustomer t db))"
  by (simp_all add: run_call_defs)

text \<open>The new database of a result, or the old one.\<close>

definition after :: "sql_error + db \<Rightarrow> db \<Rightarrow> db" where
  "after r db = (case r of Inl e \<Rightarrow> db | Inr db' \<Rightarrow> db')"

definition outcome_text :: "(sql_error \<Rightarrow> string) \<Rightarrow> sql_error + db \<Rightarrow> string" where
  "outcome_text err r = (case r of Inl e \<Rightarrow> make_response_str (err e) | Inr db' \<Rightarrow> success)"

lemma call_db_changes:
  "run_call cfg now call db = changes r \<Longrightarrow> call_db cfg now call db = after r db"
  by (auto simp: call_db_def changes_def after_def split: sum.split)

lemma outcome_text_changes:
  "run_call cfg now call db = changes r \<Longrightarrow>
     (case run_call cfg now call db of Inl e \<Rightarrow> make_response_str (err e) | Inr x \<Rightarrow> success) =
     outcome_text err r"
  by (auto simp: changes_def outcome_text_def split: sum.split)

section \<open>One call per request\<close>

text \<open>The fields of the table \<open>new_user\<close>.\<close>

definition new_user_fields ::
  "lua \<Rightarrow> (string \<times> string \<times> string \<times> string \<times> string \<times> i64) option" where
  "new_user_fields u =
     (case (get_raw_string u ''login'', get_raw_string u ''password'', get_raw_string u ''sname'',
        get_raw_string u ''name'', get_raw_string u ''pname'', get_raw_int u ''rank'') of
        (Some l, Some p, Some s, Some n, Some pn, Some r) \<Rightarrow> Some (l, p, s, n, pn, r)
      | _ \<Rightarrow> None)"

lemma new_user_fieldsD:
  assumes "new_user_fields u = Some (l, p, s, n, pn, r)"
  shows "get_raw_string u ''login'' = Some l" and "get_raw_string u ''password'' = Some p"
    and "get_raw_string u ''sname'' = Some s" and "get_raw_string u ''name'' = Some n"
    and "get_raw_string u ''pname'' = Some pn" and "get_raw_int u ''rank'' = Some r"
  using assms by (simp_all add: new_user_fields_def split: option.splits)

text \<open>What \<open>create_user\<close> does after the check.\<close>

definition create_user_body :: "env \<Rightarrow> 'c driver \<Rightarrow> lua \<Rightarrow> ('c, string) act" where
  "create_user_body E d config = catch_std
     (let u = get_raw_ref config ''new_user'' in
      bindM (string_value E u ''login'') (\<lambda>login.
      bindM (string_value E u ''password'') (\<lambda>pwd.
      bindM (string_value E u ''sname'') (\<lambda>sname.
      bindM (string_value E u ''name'') (\<lambda>name.
      bindM (string_value E u ''pname'') (\<lambda>pname.
      bindM (int_value E u ''rank'') (\<lambda>rank.
      exec_checked d (fmt ''CALL CreateUser('{}', '{}', '{}', '{}', '{}', '{}');''
        [login, pwd, sname, name, pname, show_i64 rank]))))))))
     (retM bad_config)"

lemma create_user_guarded: "create_user E d config = guarded E d config [''Admin''] (create_user_body E d config)"
  by (simp add: create_user_def create_user_body_def)

context sql_server
begin

lemma exec_checked_changes:
  assumes "safe_call name args" and "run_call cfg (now_of c) (name, args) (db_of c) = changes r"
  shows "\<exists>c'. exec_checked d (call_text name args) c = (Value (outcome_text err r), c') \<and>
     db_of c' = after r (db_of c)"
  using exec_checked_result[OF assms(1), of c] outcome_text_changes[OF assms(2)]
    call_db_changes[OF assms(2)] by auto

lemma exec_always_changes:
  assumes "safe_call name args" and "run_call cfg (now_of c) (name, args) (db_of c) = changes r"
  shows "\<exists>c'. exec_always d (call_text name args) c = (Value success, c') \<and>
     db_of c' = after r (db_of c)"
  using exec_always_result[OF assms(1), of c] call_db_changes[OF assms(2)] by auto

lemma guarded_value:
  assumes "safe_credentials config" and "plain_ranks R" and "authorised cfg config R (db_of c)"
    and "\<And>c1. db_of c1 = db_of c \<Longrightarrow> \<exists>c'. body c1 = (Value v, c') \<and> P c'"
  shows "\<exists>c'. guarded E d config R body c = (Value v, c') \<and> P c'"
  using guarded_allowed[OF assms(1-3), of E body] assms(4) by metis

lemma try_value:
  "\<exists>c'. body c1 = (Value v, c') \<and> P c' \<Longrightarrow> \<exists>c'. try_bad_config body c1 = (Value v, c') \<and> P c'"
  by (auto simp: try_bad_config_def outcome_simps)

lemma delete_user_result:
  assumes "safe_credentials config" and "authorised cfg config [''Admin''] (db_of c)"
    and "get_raw_string config ''delete_user_login'' = Some l" and "safe_string l" and "length l \<le> 64"
  shows "\<exists>c'. delete_user E d config c = (Value success, c') \<and>
     db_of c' = after (DeleteUser cfg l (db_of c)) (db_of c)"
  unfolding delete_user_def call_texts
proof (rule guarded_value[OF assms(1) _ assms(2)]; (simp; fail)?)
  fix c1 assume c1: "db_of c1 = db_of c"
  show "\<exists>c'. try_bad_config (bindM (string_value E config ''delete_user_login'')
      (\<lambda>l. exec_always d (call_text ''DeleteUser'' [Arg_string l]))) c1 = (Value success, c') \<and>
      db_of c' = after (DeleteUser cfg l (db_of c)) (db_of c)"
    unfolding string_value_def assms(3) outcome_simps c1[symmetric]
    by (rule try_value, rule exec_always_changes)
      (simp_all add: safe_call_def assms run_change_calls as_varchar_ok)
qed

lemma create_user_body_result:
  assumes "new_user_fields (get_raw_ref config ''new_user'') = Some (l, p, s, n, pn, r)"
    and "list_all (\<lambda>x. safe_string x \<and> length x \<le> 64) [l, p, s, n, pn]" and "fits_int r"
  shows "\<exists>c'. create_user_body E d config c =
       (Value (outcome_text err (CreateUser cfg l p s n pn (sint r) (db_of c))), c') \<and>
     db_of c' = after (CreateUser cfg l p s n pn (sint r) (db_of c)) (db_of c)"
proof -
  let ?args = "[Arg_string l, Arg_string p, Arg_string s, Arg_string n, Arg_string pn,
    Arg_string (show_i64 r)]"
  have "\<exists>c'. exec_checked d (call_text ''CreateUser'' ?args) c =
       (Value (outcome_text err (CreateUser cfg l p s n pn (sint r) (db_of c))), c') \<and>
     db_of c' = after (CreateUser cfg l p s n pn (sint r) (db_of c)) (db_of c)"
    by (rule exec_checked_changes)
      (use assms in \<open>simp_all add: safe_call_def run_change_calls as_varchar_ok\<close>)
  then show ?thesis
    unfolding create_user_body_def call_texts using new_user_fieldsD[OF assms(1)]
    by (auto simp: string_value_def int_value_def Let_def outcome_simps catch_std_def)
qed

lemma create_user_result:
  assumes "safe_credentials config" and "authorised cfg config [''Admin''] (db_of c)"
    and "new_user_fields (get_raw_ref config ''new_user'') = Some (l, p, s, n, pn, r)"
    and "list_all (\<lambda>x. safe_string x \<and> length x \<le> 64) [l, p, s, n, pn]" and "fits_int r"
  shows "\<exists>c'. create_user E d config c =
       (Value (outcome_text err (CreateUser cfg l p s n pn (sint r) (db_of c))), c') \<and>
     db_of c' = after (CreateUser cfg l p s n pn (sint r) (db_of c)) (db_of c)"
  unfolding create_user_guarded
proof (rule guarded_value[OF assms(1) _ assms(2)]; (simp; fail)?)
  fix c1 assume "db_of c1 = db_of c"
  with create_user_body_result[OF assms(3-5), of E c1]
  show "\<exists>c'. create_user_body E d config c1 =
       (Value (outcome_text err (CreateUser cfg l p s n pn (sint r) (db_of c))), c') \<and>
     db_of c' = after (CreateUser cfg l p s n pn (sint r) (db_of c)) (db_of c)" by simp
qed

lemma add_item_count_result:
  assumes "safe_credentials config" and "authorised cfg config [''Employee'', ''Admin''] (db_of c)"
    and "get_raw_int (get_raw_ref config ''item'') ''id'' = Some i"
    and "get_raw_int (get_raw_ref config ''item'') ''appended_count'' = Some x"
    and "fits_int i" and "fits_int x"
  shows "\<exists>c'. add_item_count E d config c = (Value success, c') \<and>
     db_of c' = after (AddItemCount (sint i) (sint x) (db_of c)) (db_of c)"
  unfolding add_item_count_def call_texts Let_def
proof (rule guarded_value[OF assms(1) _ assms(2)]; (simp; fail)?)
  fix c1 assume c1: "db_of c1 = db_of c"
  show "\<exists>c'. try_bad_config (bindM (int_value E (get_raw_ref config ''item'') ''id'') (\<lambda>i.
       bindM (int_value E (get_raw_ref config ''item'') ''appended_count'') (\<lambda>x.
       exec_always d (call_text ''AddItemCount'' [Arg_string (show_i64 i), Arg_string (show_i64 x)])))) c1 =
       (Value success, c') \<and> db_of c' = after (AddItemCount (sint i) (sint x) (db_of c)) (db_of c)"
    unfolding int_value_def assms(3,4) outcome_simps c1[symmetric]
    by (rule try_value, rule exec_always_changes)
      (use assms in \<open>simp_all add: safe_call_def run_change_calls\<close>)
qed

text \<open>
  The order is completed and the reply is \<open>success\<close>, or nothing has changed. The text of the error
  is read after the rollback, so nothing is promised about it. The day is that of the request where
  neither the check of the account nor the start of the transaction moves the clock.
\<close>

lemma complete_order_result:
  assumes "safe_credentials config" and "authorised cfg config [''Employee'', ''Admin''] (db_of c)"
    and "get_raw_int config ''order_id'' = Some i" and "now_of (tx_start d (snd (check_user_existance E d config [''Employee'', ''Admin''] c))) = now_of c"
  shows "\<exists>r c'. complete_order E d config c = (Value r, c') \<and>
     (if fits_int i then case CompleteOrder cfg (now_of c) (sint i) (db_of c) of
           Inl e \<Rightarrow> db_of c' = db_of c
         | Inr db' \<Rightarrow> r = success \<and> db_of c' = db'
      else db_of c' = db_of c)"
proof -
  let ?body = "\<lambda>i. invoke_exec d (call_text ''CompleteOrder'' [Arg_string (show_i64 i)])
     (\<lambda>res. if \<not> res then bindM (rollback_reply d) (\<lambda>r. retM (r, True))
            else bindM (effect (tx_commit d)) (\<lambda>_. retM (success, True)))"
  let ?all = "try_bad_config (bindM (int_value E config ''order_id'')
     (\<lambda>id. with_transaction d (?body id)))"
  obtain c1 where c1: "db_of c1 = db_of c" "c1 = snd (check_user_existance E d config [''Employee'', ''Admin''] c)"
    and g: "guarded E d config [''Employee'', ''Admin''] ?all c = ?all c1"
    using guarded_allowed[OF assms(1) plain_ranks_used(3) assms(2), of E ?all] by blast
  then have h: "complete_order E d config c = ?all c1"
    by (simp only: complete_order_def call_texts Let_def)
  let ?c = "tx_start d c1"
  have start: "db_of ?c = db_of c" "saved_of ?c = Some (db_of c)" "now_of ?c = now_of c"
    using assms(4) by (simp_all add: start_ok c1(1)) (simp add: c1(2))
  have safe: "safe_call ''CompleteOrder'' [Arg_string (show_i64 i)]"
    by (simp add: safe_call_def)
  have "\<exists>v c'. ?body i ?c = (Value v, c') \<and> snd v \<and>
     (case run_call cfg (now_of ?c) (''CompleteOrder'', [Arg_string (show_i64 i)]) (db_of ?c) of
        Inl e \<Rightarrow> db_of c' = db_of c | Inr x \<Rightarrow> fst v = success \<and> db_of c' = snd x)"
    (is "\<exists>v c'. _ \<and> ?P v (db_of c') (saved_of c')")
  proof (cases "run_call cfg (now_of ?c) (''CompleteOrder'', [Arg_string (show_i64 i)]) (db_of ?c)")
    case (Inl e)
    show ?thesis
      by (rule invoke_exec_error[OF safe Inl, where P = "\<lambda>v x y. ?P v x y"])
        (auto simp: Inl[unfolded start] start rollback_reply_def reply_error_def outcome_simps dest!: rollback_ok)
  next
    case (Inr x)
    then obtain rs db' where x: "run_call cfg (now_of ?c)
        (''CompleteOrder'', [Arg_string (show_i64 i)]) (db_of ?c) = Inr (rs, db')"
      by (cases x) auto
    show ?thesis
      by (rule invoke_exec_ok[OF safe x, where P = "\<lambda>v x y. ?P v x y"])
        (auto simp: x[unfolded start] start outcome_simps commit_ok)
  qed
  then obtain v c' where body: "?body i ?c = (Value v, c')" "snd v"
    "case run_call cfg (now_of ?c) (''CompleteOrder'', [Arg_string (show_i64 i)]) (db_of ?c) of
        Inl e \<Rightarrow> db_of c' = db_of c | Inr x \<Rightarrow> fst v = success \<and> db_of c' = snd x"
    by blast
  have "complete_order E d config c = (Value (fst v), c')"
    using body(1,2) unfolding h int_value_def assms(3) outcome_simps
    by (cases v) (simp add: try_bad_config_def catch_all_def with_transaction_def)
  moreover have "if fits_int i then case CompleteOrder cfg (now_of c) (sint i) (db_of c) of
           Inl e \<Rightarrow> db_of c' = db_of c | Inr db' \<Rightarrow> fst v = success \<and> db_of c' = db'
      else db_of c' = db_of c"
    using body(3) by (auto simp: run_change_calls start changes_def bindE_def split: sum.splits if_splits)
  ultimately show ?thesis by blast
qed

end

section \<open>An order and its lines\<close>

text \<open>The items as the request gives them, cut to 32 bits.\<close>

definition line_item :: "lua \<Rightarrow> ordered_item option" where
  "line_item ord_item =
     (case (get_raw_int ord_item ''item_id'', get_raw_int ord_item ''count_in_order'') of
        (Some i, Some n) \<Rightarrow> Some \<lparr>item_id = ucast i, count_in_order = ucast n\<rparr>
      | _ \<Rightarrow> None)"

lemma collect_items_value:
  "map (\<lambda>i. line_item (get_raw_at new_order i)) is = map Some its \<Longrightarrow>
     collect_items E new_order is = (retM its :: ('c, ordered_item list) act)"
proof (induction "is" arbitrary: its)
  case Nil
  then show ?case by simp
next
  case (Cons i "is")
  then obtain it its' where its: "its = it # its'" by (cases its) auto
  with Cons.prems have "line_item (get_raw_at new_order i) = Some it"
    and IH: "collect_items E new_order is = (retM its' :: ('c, ordered_item list) act)"
    using Cons.IH[of its'] by auto
  then show ?case
    by (auto simp: its line_item_def int_value_def Let_def outcome_simps split: option.splits)
qed

fun add_lines :: "int \<Rightarrow> ordered_item list \<Rightarrow> db \<Rightarrow> sql_error + db" where
  "add_lines oid [] db = Inr db"
| "add_lines oid (it # its) db =
     bindE (AddOrderedItem oid (sint (item_id it)) (unat (count_in_order it)) db) (add_lines oid its)"

definition placed_order ::
  "sql_config \<Rightarrow> (db \<Rightarrow> db \<Rightarrow> 64 word) \<Rightarrow> int \<Rightarrow> i64 \<Rightarrow> i64 \<Rightarrow> ordered_item list \<Rightarrow> db \<Rightarrow> sql_error + db"
where
  "placed_order cfg ins now tel expire its db =
     bindE (if 0 \<le> sint tel then Inr (nat (sint tel)) else Inl Out_of_range) (\<lambda>t.
     bindE (as_date cfg (Arg_string (''FROM_UNIXTIME'' @ show_i64 expire))) (\<lambda>e.
     bindE (AddOrder cfg now t e db) (\<lambda>db1.
       add_lines (sint (ucast (ins db db1) :: 32 word)) its db1)))"

text \<open>An order with id 0 does not exist, so no line can be added to it.\<close>

lemma add_lines_no_order:
  assumes "its \<noteq> []" and "\<not> order_exists oid db"
  shows "\<exists>e. add_lines oid its db = Inl e"
  using assms by (cases its) (auto simp: AddOrderedItem_def)

lemma AddOrder_not_zero:
  assumes "AddOrder cfg now t e db = Inr db'" and "db_inv cfg db"
  shows "\<not> order_exists 0 db'"
  using AddOrder_inv[OF assms] by (auto simp: db_inv_def ids_ok_def id_ok_def exists_iff)

lemma placed_order_no_id:
  assumes "its \<noteq> []" and "db_inv cfg db"
  shows "\<exists>e. placed_order cfg no_id now tel expire its db = Inl e"
proof (cases "placed_order cfg no_id now tel expire its db")
  case (Inr db')
  then obtain t e db1 where db1: "AddOrder cfg now t e db = Inr db1" and "add_lines 0 its db1 = Inr db'"
    by (auto simp: placed_order_def bindE_Inr_iff no_id_def)
  with add_lines_no_order[OF assms(1) AddOrder_not_zero[OF db1 assms(2)]] show ?thesis by simp
qed blast

lemma add_ordered_item_call:
  "add_ordered_item_text oid it = call_text ''AddOrderedItem''
     [Arg_string (show_int (sint oid)), Arg_string (show_int (sint (item_id it))),
      Arg_string (show_nat (unat (count_in_order it)))]"
  unfolding add_ordered_item_text_def call_texts ..

context sql_server
begin

lemma rollback_reply_result:
  assumes "saved_of c = Some s"
  shows "\<exists>r c'. rollback_reply d c = (Value r, c') \<and> r \<noteq> [] \<and> db_of c' = s"
  using rollback_ok[OF assms] by (auto simp: rollback_reply_def reply_error_def outcome_simps)

lemma add_ordered_items_result:
  assumes "saved_of c = Some s"
  shows "\<exists>r c'. add_ordered_items d oid its c = (Value r, c') \<and>
     (case add_lines (sint oid) its (db_of c) of
        Inl e \<Rightarrow> r \<noteq> [] \<and> db_of c' = s
      | Inr db' \<Rightarrow> r = [] \<and> db_of c' = db')"
  using assms
proof (induction its arbitrary: c)
  case Nil
  then show ?case by (simp add: outcome_simps)
next
  case (Cons it its)
  let ?args = "[Arg_string (show_int (sint oid)), Arg_string (show_int (sint (item_id it))),
      Arg_string (show_nat (unat (count_in_order it)))]"
  let ?add = "AddOrderedItem (sint oid) (sint (item_id it)) (unat (count_in_order it)) (db_of c)"
  let ?f = "\<lambda>res. if \<not> res then rollback_reply d else retM []"
  have safe: "safe_call ''AddOrderedItem'' ?args"
    by (simp add: safe_call_def)
  have call: "run_call cfg (now_of c) (''AddOrderedItem'', ?args) (db_of c) = changes ?add"
    by (simp add: run_change_calls)
  show ?case
  proof (cases ?add)
    case (Inl e)
    then have run: "run_call cfg (now_of c) (''AddOrderedItem'', ?args) (db_of c) = Inl e"
      by (simp add: call changes_def)
    have "\<exists>v c'. invoke_exec d (call_text ''AddOrderedItem'' ?args) ?f c = (Value v, c') \<and>
        v \<noteq> [] \<and> db_of c' = s"
      by (rule invoke_exec_error[OF safe run, where P = "\<lambda>v x y. v \<noteq> [] \<and> x = s"])
        (use Cons.prems rollback_reply_result in auto)
    then show ?thesis
      by (auto simp: add_ordered_item_call outcome_simps Inl)
  next
    case (Inr db1)
    then have run: "run_call cfg (now_of c) (''AddOrderedItem'', ?args) (db_of c) = Inr (([], []), db1)"
      by (simp add: call changes_def)
    have "\<exists>v c'. invoke_exec d (call_text ''AddOrderedItem'' ?args) ?f c = (Value v, c') \<and>
        v = [] \<and> db_of c' = db1 \<and> saved_of c' = Some s"
      by (rule invoke_exec_ok[OF safe run, where P = "\<lambda>v x y. v = [] \<and> x = db1 \<and> y = Some s"])
        (use Cons.prems in \<open>auto simp: outcome_simps\<close>)
    then obtain c1 where c1: "invoke_exec d (call_text ''AddOrderedItem'' ?args) ?f c = (Value [], c1)"
      "db_of c1 = db1" "saved_of c1 = Some s" by blast
    from Cons.IH[OF c1(3)] show ?thesis
      by (simp add: add_ordered_item_call outcome_simps c1 Inr)
  qed
qed

lemma placed_order_result:
  assumes "saved_of c = Some (db_of c)"
  shows "\<exists>v c'. add_order_transaction d tel expire its c = (Value v, c') \<and> snd v \<and>
     (case placed_order cfg ins (now_of c) tel expire its (db_of c) of
        Inl e \<Rightarrow> db_of c' = db_of c
      | Inr db' \<Rightarrow> fst v = success \<and> db_of c' = db')"
proof -
  let ?args = "[Arg_string (show_i64 tel), Arg_string (''FROM_UNIXTIME'' @ show_i64 expire)]"
  let ?f = "\<lambda>res. if \<not> res then bindM (rollback_reply d) (\<lambda>e. retM (Inl e))
        else bindM (readM (query_insert_id d)) (\<lambda>i. retM (Inr (ucast i :: 32 word)))"
  have sent: "add_order_text tel expire = call_text ''AddOrder'' ?args"
    unfolding add_order_text_def call_texts ..
  have "safe_string ''FROM_UNIXTIME''"
    by (simp add: safe_string_def)
  then have "safe_string (''FROM_UNIXTIME'' @ show_i64 expire)"
    using safe_show_i64(2) safe_string_append by blast
  then have safe: "safe_call ''AddOrder'' ?args"
    by (simp add: safe_call_def)
  let ?run = "run_call cfg (now_of c) (''AddOrder'', ?args) (db_of c)"
  show ?thesis
  proof (cases ?run)
    case (Inl e)
    have "\<exists>v c'. invoke_exec d (call_text ''AddOrder'' ?args) ?f c = (Value v, c') \<and>
        (\<exists>r. v = Inl r) \<and> db_of c' = db_of c"
      by (rule invoke_exec_error[OF safe Inl, where P = "\<lambda>v x y. (\<exists>r. v = Inl r) \<and> x = db_of c"])
        (use assms rollback_reply_result in \<open>fastforce simp: outcome_simps\<close>)
    moreover have "\<exists>e. placed_order cfg ins (now_of c) tel expire its (db_of c) = Inl e"
      using Inl by (auto simp: run_change_calls placed_order_def changes_def bindE_def split: sum.splits if_splits)
    ultimately show ?thesis
      by (auto simp: add_order_transaction_def sent outcome_simps)
  next
    case (Inr x)
    then obtain rs db1 where x: "?run = Inr (rs, db1)" by (cases x) auto
    let ?oid = "ucast (ins (db_of c) db1) :: 32 word"
    have "\<exists>v c'. invoke_exec d (call_text ''AddOrder'' ?args) ?f c = (Value v, c') \<and>
        v = Inr ?oid \<and> db_of c' = db1 \<and> saved_of c' = Some (db_of c)"
      by (rule invoke_exec_ok[OF safe x, where
            P = "\<lambda>v x y. v = Inr ?oid \<and> x = db1 \<and> y = Some (db_of c)"])
        (use assms in \<open>auto simp: outcome_simps\<close>)
    then obtain c1 where c1: "invoke_exec d (call_text ''AddOrder'' ?args) ?f c = (Value (Inr ?oid), c1)"
      "db_of c1 = db1" "saved_of c1 = Some (db_of c)" by blast
    have "placed_order cfg ins (now_of c) tel expire its (db_of c) = add_lines (sint ?oid) its db1"
      using x by (auto simp: run_change_calls placed_order_def changes_def bindE_def split: sum.splits if_splits)
    moreover obtain r c2 where "add_ordered_items d ?oid its c1 = (Value r, c2)"
      "case add_lines (sint ?oid) its db1 of
        Inl e \<Rightarrow> r \<noteq> [] \<and> db_of c2 = db_of c | Inr db' \<Rightarrow> r = [] \<and> db_of c2 = db'"
      using add_ordered_items_result[OF c1(3), of ?oid its] c1(2) by blast
    ultimately show ?thesis
      unfolding add_order_transaction_def sent bindM_value[where m = "invoke_exec d (call_text ''AddOrder'' ?args) ?f" and c = c, OF c1(1)]
      by (cases "add_lines (sint ?oid) its db1") (auto simp: outcome_simps commit_ok)
  qed
qed

lemma with_transaction_value:
  assumes "\<And>c. saved_of c = Some (db_of c) \<Longrightarrow>
      \<exists>v c'. body c = (Value v, c') \<and> snd v \<and> P (fst v) (db_of c) (db_of c') (now_of c)"
  shows "\<exists>r c'. with_transaction d body c = (Value r, c') \<and> P r (db_of c) (db_of c') (now_of (tx_start d c))"
proof -
  have "saved_of (tx_start d c) = Some (db_of (tx_start d c))"
    by (simp add: start_ok)
  from assms[OF this] obtain v c' where "body (tx_start d c) = (Value v, c')" "snd v"
    "P (fst v) (db_of c) (db_of c') (now_of (tx_start d c))"
    unfolding start_ok by blast
  then show ?thesis
    by (cases v) (auto simp: with_transaction_def)
qed

lemma add_order_result:
  assumes "safe_credentials config" and "authorised cfg config [''Employee'', ''Admin''] (db_of c)"
    and "get_raw_int (get_raw_ref config ''new_order'') ''customer_telephone'' = Some tel"
    and "get_raw_int (get_raw_ref config ''new_order'') ''date_of_expire'' = Some expire"
    and "clock E \<le> sint expire"
    and "its \<noteq> []"
    and "map (\<lambda>i. line_item (get_raw_at (get_raw_ref config ''new_order'') i))
        [1..<Suc (get_length (get_raw_ref config ''new_order''))] = map Some its"
    and "now_of (tx_start d (snd (check_user_existance E d config [''Employee'', ''Admin''] c))) = now_of c"
  shows "\<exists>r c'. add_order E d config c = (Value r, c') \<and>
     (case placed_order cfg ins (now_of c) tel expire its (db_of c) of
        Inl e \<Rightarrow> db_of c' = db_of c
      | Inr db' \<Rightarrow> r = success \<and> db_of c' = db')"
proof -
  let ?new = "get_raw_ref config ''new_order''"
  let ?P = "\<lambda>r db db' now. case placed_order cfg ins now tel expire its db of
        Inl e \<Rightarrow> db' = db | Inr db2 \<Rightarrow> r = success \<and> db' = db2"
  have len: "get_length ?new \<noteq> 0"
  proof
    assume "get_length ?new = 0"
    with assms(7) have "its = []" by simp
    with assms(6) show False ..
  qed
  let ?all = "try_bad_config (with_transaction d (add_order_transaction d tel expire its))"
  obtain c1 where c1: "db_of c1 = db_of c" "c1 = snd (check_user_existance E d config [''Employee'', ''Admin''] c)"
    and g: "guarded E d config [''Employee'', ''Admin''] ?all c = ?all c1"
    using guarded_allowed[OF assms(1) plain_ranks_used(3) assms(2), of E ?all] by blast
  have now: "now_of (tx_start d c1) = now_of c"
    using assms(8) by (simp add: c1(2))
  have h: "add_order E d config = guarded E d config [''Employee'', ''Admin''] ?all"
    using assms(5) len
    by (simp add: add_order_def Let_def int_value_def assms(3,4) outcome_simps
        collect_items_value[OF assms(7)] del: upt_Suc One_nat_def)
  have "\<exists>r c'. with_transaction d (add_order_transaction d tel expire its) c1 = (Value r, c') \<and>
      ?P r (db_of c1) (db_of c') (now_of (tx_start d c1))"
    by (rule with_transaction_value) (use placed_order_result in blast)
  then show ?thesis
    unfolding h g c1(1) now by (auto simp: try_bad_config_def outcome_simps)
qed

end

end
