(* ===== verification/Request_Invariant.thy ===== *)
theory Request_Invariant
  imports Request_Changes
begin

text \<open>
  The invariant of the database under the requests: whatever text a connection sends, the
  server's database keeps its keys, references and ids, and a snapshot taken by a transaction
  does so too.
\<close>

section \<open>Every statement keeps the invariant\<close>

definition result_inv :: "(db \<Rightarrow> bool) \<Rightarrow> sql_error + call_result \<Rightarrow> bool" where
  "result_inv P r \<longleftrightarrow> (\<forall>rs db'. r = Inr (rs, db') \<longrightarrow> P db')"

lemma result_inv_bindE: "(\<And>v. x = Inr v \<Longrightarrow> result_inv P (f v)) \<Longrightarrow> result_inv P (bindE x f)"
  by (auto simp: result_inv_def bindE_Inr_iff)

lemma result_inv_rows: "P db \<Longrightarrow> result_inv P (rows_of cols rows db)"
  by (simp add: result_inv_def rows_of_def)

lemma result_inv_changes: "(\<And>db'. r = Inr db' \<Longrightarrow> P db') \<Longrightarrow> result_inv P (changes r)"
  by (auto simp: result_inv_def changes_def bindE_Inr_iff)

definition call_inv :: "(db \<Rightarrow> bool) \<Rightarrow> (sql_error + call_result) option \<Rightarrow> bool" where
  "call_inv P x \<longleftrightarrow> (\<forall>r. x = Some r \<longrightarrow> result_inv P r)"

lemma call_inv_simps [simp]: "call_inv P None" "call_inv P (Some r) = result_inv P r"
  by (simp_all add: call_inv_def)

lemma call_inv_if: "call_inv P x \<Longrightarrow> call_inv P y \<Longrightarrow> call_inv P (if b then x else y)"
  by simp

lemma call_inv_args:
  assumes "call_inv P x" and "\<And>a as. call_inv P (f a as)"
  shows "call_inv P (case args of [] \<Rightarrow> x | a # as \<Rightarrow> f a as)"
  using assms by (cases args) auto

lemma as_int_unsigned_le: "as_int_unsigned a = Inr k \<Longrightarrow> k \<le> uint_max"
  by (auto simp: as_int_unsigned_def bindE_Inr_iff as_integer_def Let_def
      split: sql_arg.splits option.splits if_splits)

lemmas result_inv_intros = call_inv_if call_inv_args result_inv_bindE result_inv_rows result_inv_changes

lemma run_user_call_inv: "db_inv cfg db \<Longrightarrow> call_inv (db_inv cfg) (run_user_call cfg name args db)"
  unfolding run_user_call_def
  by (intro call_inv_if call_inv_args; simp?; intro result_inv_intros; (assumption)?)
    (erule DeleteUser_inv CreateUser_inv UpdateUser_inv; assumption)+

lemma run_customer_call_inv: "db_inv cfg db \<Longrightarrow> call_inv (db_inv cfg) (run_customer_call name args db)"
  unfolding run_customer_call_def
  by (intro call_inv_if call_inv_args; simp?; intro result_inv_intros; (assumption)?)
    (erule CreateCustomer_inv DeleteCustomer_inv; assumption)+

lemma run_item_call_inv: "db_inv cfg db \<Longrightarrow> call_inv (db_inv cfg) (run_item_call cfg name args db)"
  unfolding run_item_call_def
  by (intro call_inv_if call_inv_args; simp?; intro result_inv_intros; (assumption)?)
    (auto dest: AddItem_inv AddItemCount_inv as_int_unsigned_le)

lemma run_order_call_inv: "db_inv cfg db \<Longrightarrow> call_inv (db_inv cfg) (run_order_call cfg now name args db)"
  unfolding run_order_call_def
  by (intro call_inv_if call_inv_args; simp?; intro result_inv_intros; (assumption)?)
    (auto dest: AddOrder_inv AddOrderedItem_inv CompleteOrder_inv as_int_unsigned_le)

lemma run_report_call_inv: "db_inv cfg db \<Longrightarrow> call_inv (db_inv cfg) (run_report_call cfg name args db)"
  unfolding run_report_call_def
  by (intro call_inv_if call_inv_args; simp?; intro result_inv_intros; assumption)

lemma call_inv_first: "call_inv P x \<Longrightarrow> call_inv P y \<Longrightarrow> call_inv P (first_some x y)"
  by (cases x) (simp_all add: first_some_def)

lemma run_call_inv:
  assumes "db_inv cfg db"
  shows "result_inv (db_inv cfg) (run_call cfg now call db)"
proof -
  obtain name args where call: "call = (name, args)" by force
  have "call_inv (db_inv cfg) (first_some (run_user_call cfg name args db) (first_some (run_customer_call name args db)
      (first_some (run_item_call cfg name args db) (first_some (run_order_call cfg now name args db)
      (run_report_call cfg name args db)))))"
    by (intro call_inv_first run_user_call_inv run_customer_call_inv run_item_call_inv
        run_order_call_inv run_report_call_inv assms)
  then show ?thesis
    by (auto simp: call run_call_def call_inv_def result_inv_def split: option.splits)
qed

section \<open>Every statement of the server keeps the names\<close>

text \<open>
  The names and telephone numbers that the listings can show stay as they should by every call whose
  telephone number is a 64-bit integer, as it is in every statement the handlers send.
\<close>

definition telephone_args :: "sql_arg list \<Rightarrow> bool" where
  "telephone_args args \<longleftrightarrow> (\<exists>tel rest. args = Arg_string (show_i64 tel) # rest)"

lemmas procedures_keep_names = proc_step.intros [THEN proc_step_names]

lemma run_user_call_names: "names_ok db \<Longrightarrow> call_inv names_ok (run_user_call cfg name args db)"
  unfolding run_user_call_def
  by (intro call_inv_if call_inv_args; simp?; intro result_inv_intros; (assumption)?)
    (erule procedures_keep_names(1-3); assumption)+

lemma run_customer_call_names:
  assumes "names_ok db" and "name = ''CreateCustomer'' \<Longrightarrow> telephone_args args"
  shows "call_inv names_ok (run_customer_call name args db)"
proof (cases "name = ''CreateCustomer''")
  case True
  with assms(2) obtain tel rest where args: "args = Arg_string (show_i64 tel) # rest"
    by (auto simp: telephone_args_def)
  have tel: "nat (sint tel) < 2 ^ 63" using sint_i64_range[of tel] by simp
  then have "result_inv names_ok (bindE (as_bigint_unsigned (Arg_string (show_i64 tel))) (\<lambda>t. bindE (as_varchar 64 s) (\<lambda>s.
      bindE (as_varchar 64 n) (\<lambda>n. bindE (as_varchar 64 pn) (\<lambda>pn. changes (CreateCustomer t s n pn db))))))" for s n pn
    using assms(1) by (intro result_inv_bindE result_inv_changes) (auto split: if_splits intro: procedures_keep_names(4))
  then show ?thesis
    unfolding run_customer_call_def True args by (auto split: list.split)
next
  case False
  show ?thesis
    unfolding run_customer_call_def if_not_P[OF False] using assms(1)
    by (intro call_inv_if call_inv_args; simp?; intro result_inv_intros)
      (auto intro: procedures_keep_names(5))
qed

lemma run_item_call_names: "names_ok db \<Longrightarrow> call_inv names_ok (run_item_call cfg name args db)"
  unfolding run_item_call_def
  by (intro call_inv_if call_inv_args; simp?; intro result_inv_intros; (assumption)?)
    (auto dest: procedures_keep_names(6,7) as_int_unsigned_le)

lemma run_order_call_names: "names_ok db \<Longrightarrow> call_inv names_ok (run_order_call cfg now name args db)"
  unfolding run_order_call_def
  by (intro call_inv_if call_inv_args; simp?; intro result_inv_intros; (assumption)?)
    (auto dest: procedures_keep_names(8-) as_int_unsigned_le)

lemma run_report_call_names: "names_ok db \<Longrightarrow> call_inv names_ok (run_report_call cfg name args db)"
  unfolding run_report_call_def
  by (intro call_inv_if call_inv_args; simp?; intro result_inv_intros; assumption)

lemma run_call_names:
  assumes "names_ok db" and "name = ''CreateCustomer'' \<Longrightarrow> telephone_args args"
  shows "result_inv names_ok (run_call cfg now (name, args) db)"
proof -
  have "call_inv names_ok (first_some (run_user_call cfg name args db) (first_some (run_customer_call name args db)
      (first_some (run_item_call cfg name args db) (first_some (run_order_call cfg now name args db)
      (run_report_call cfg name args db)))))"
    by (intro call_inv_first run_user_call_names run_customer_call_names run_item_call_names
        run_order_call_names run_report_call_names assms)
  then show ?thesis
    by (auto simp: run_call_def call_inv_def result_inv_def split: option.splits)
qed

section \<open>The statements of the server\<close>

text \<open>
  What a handler sends: a call, whatever its arguments may hold; but the first argument of
  \<open>CreateCustomer\<close> is the text of a 64-bit integer between quotes.
\<close>

definition statement :: "string \<Rightarrow> bool" where
  "statement t \<longleftrightarrow> (\<exists>name rest. t = ''CALL '' @ name @ ''('' @ rest \<and> name \<noteq> [] \<and> list_all ident_char name \<and>
     (name = ''CreateCustomer'' \<longrightarrow>
        (\<exists>tel rest'. rest = quote_char # show_i64 tel @ quote_char # CHR '','' # rest')))"

lemma statement_callI:
  "name \<noteq> [] \<Longrightarrow> list_all ident_char name \<Longrightarrow> name \<noteq> ''CreateCustomer'' \<Longrightarrow> statement (call_text name args)"
  by (auto simp: statement_def call_text_def)

lemma statement_create_customer: "statement (call_text ''CreateCustomer'' (Arg_string (show_i64 tel) # a # args))"
  unfolding statement_def call_text_def
  by (rule exI[of _ "''CreateCustomer''"]) (simp add: ident_char_def is_digit_def, blast)

lemma parse_statement:
  assumes "statement t" and "parse_call t = Some (name, args)" and "name = ''CreateCustomer''"
  shows "telephone_args args"
proof -
  obtain name' rest where t: "t = ''CALL '' @ name' @ ''('' @ rest" and n: "name' \<noteq> []" "list_all ident_char name'"
    and tel: "name' = ''CreateCustomer'' \<longrightarrow>
      (\<exists>tel rest'. rest = quote_char # show_i64 tel @ quote_char # CHR '','' # rest')"
    using assms(1) by (auto simp: statement_def)
  have "\<not> ident_char (CHR ''('')" by (simp add: ident_char_def is_digit_def)
  with n(2) have "takeWhile ident_char (drop 5 t) = name'" "dropWhile ident_char (drop 5 t) = CHR ''('' # rest"
    by (simp_all add: t list_all_iff)
  then have name: "name' = name" and parse: "rest = '');'' \<and> args = [] \<or>
      parse_args (Suc (length rest)) rest = Some (args, '';'')"
    using assms(2) by (auto simp: parse_call_def Let_def split: if_splits option.splits)
  with tel assms(3) obtain i r where rest: "rest = quote_char # show_i64 i @ quote_char # CHR '','' # r" by auto
  have "scan_string (show_i64 i @ quote_char # CHR '','' # r) = Some (show_i64 i, CHR '','' # r)"
    by (rule scan_string_safe) simp_all
  then have "parse_arg rest = Some (Arg_string (show_i64 i), CHR '','' # r)"
    by (simp add: parse_arg_def rest)
  with parse show ?thesis
    by (auto simp: telephone_args_def rest split: if_splits)
qed

lemma call_statements [within_intros]:
  "statement (fmt ''CALL CheckUserExists('{}', '{}', '{}');'' [a1, a2, a3])"
  "statement (fmt ''CALL DeleteUser('{}');'' [a1])"
  "statement (fmt ''CALL UpdateUser('{}', '{}', '{}', '{}', '{}');'' [a1, a2, a3, a4, a5])"
  "statement (fmt ''CALL CreateUser('{}', '{}', '{}', '{}', '{}', '{}');'' [a1, a2, a3, a4, a5, a6])"
  "statement (fmt ''CALL CreateCustomer('{}', '{}', '{}', '{}');'' [show_i64 i, a2, a3, a4])"
  "statement (fmt ''CALL DeleteCustomer('{}');'' [a1])"
  "statement (fmt ''CALL AddItem('{}', {}, {}, {}, {}, '{}');'' [a1, a2, a3, a4, a5, a6])"
  "statement (fmt ''CALL AddItemCount('{}', '{}');'' [a1, a2])"
  "statement (fmt ''CALL CompleteOrder('{}');'' [a1])"
  "statement (fmt ''CALL AddOrder('{}', 'FROM_UNIXTIME{}');'' [a1, a2])"
  "statement (fmt ''CALL AddOrderedItem('{}', '{}', '{}');'' [a1, a2, a3])"
  "statement (fmt ''CALL GetOrderItems({});'' [a1])"
  "statement (fmt ''CALL GetCompletedOrders(FROM_UNIXTIME({}), FROM_UNIXTIME({}));'' [a1, a2])"
  "statement (fmt ''CALL GetIncome(FROM_UNIXTIME({}), FROM_UNIXTIME({}));'' [a1, a2])"
  "statement (fmt ''CALL GetSellsStatiscticsByDistributors(FROM_UNIXTIME({}), FROM_UNIXTIME({}));'' [a1, a2])"
  unfolding call_texts
  by (rule statement_callI statement_create_customer; simp add: ident_char_def is_digit_def)+

lemma query_statements [within_intros]:
  "statement ''CALL GetUsers();''" "statement ''CALL GetRanks();''" "statement ''CALL GetCustomers();''"
  "statement ''CALL GetOrders();''" "statement ''CALL GetItems();''" "statement ''CALL GetDistributors();''"
  "statement ''CALL GetItemTypes();''" "statement ''CALL GetExpiredOrders();''"
  unfolding query_texts
  by (rule statement_callI; simp add: ident_char_def is_digit_def)+

section \<open>Every handler keeps the invariant\<close>

text \<open>What a handler does to the connection it does through the driver's operations.\<close>

locale driver_invariant =
  fixes d :: "'c driver" and I :: "'c \<Rightarrow> bool"
  assumes store_inv: "I c \<Longrightarrow> statement t \<Longrightarrow> I (snd (query_store d t c))"
    and exec_inv: "I c \<Longrightarrow> statement t \<Longrightarrow> I (snd (query_exec d t c))"
    and drain_inv: "I c \<Longrightarrow> I (snd (drain d c))"
    and start_inv: "I c \<Longrightarrow> I (tx_start d c)"
    and commit_inv: "I c \<Longrightarrow> I (tx_commit d c)"
    and rollback_inv: "I c \<Longrightarrow> I (tx_rollback d c)"
begin

lemma maintains_invoke_store [within_intros]:
  assumes "statement t" and "\<And>res. maintains I (f res)"
  shows "maintains I (invoke_store d t f)"
proof -
  have tail: "maintains I (bindM (f res) (\<lambda>v. bindM (drain d) (\<lambda>_. retM v)))" for res
    by (intro within_intros assms(2)) (simp add: within_def drain_inv)
  show ?thesis
    using store_inv[OF _ assms(1)] withinD[OF tail]
    by (auto simp: within_def invoke_store_def split: prod.split) (metis snd_conv)
qed

lemma maintains_invoke_exec [within_intros]:
  assumes "statement t" and "\<And>res. maintains I (f res)"
  shows "maintains I (invoke_exec d t f)"
proof -
  have tail: "maintains I (bindM (f res) (\<lambda>v. bindM (drain d) (\<lambda>_. retM v)))" for res
    by (intro within_intros assms(2)) (simp add: within_def drain_inv)
  show ?thesis
    using exec_inv[OF _ assms(1)] withinD[OF tail]
    by (auto simp: within_def invoke_exec_def split: prod.split) (metis snd_conv)
qed

lemma maintains_effects [within_intros]:
  "maintains I (effect (tx_commit d))" "maintains I (effect (tx_rollback d))"
  by (simp_all add: within_def effect_def commit_inv rollback_inv)

lemma maintains_with_transaction [within_intros]:
  assumes "maintains I body"
  shows "maintains I (with_transaction d body)"
  using withinD[OF assms] start_inv rollback_inv
  by (auto simp: within_def with_transaction_def split: prod.split outcome.split) (metis snd_conv)+

lemmas maintains_defs = reply_error_def string_value_def int_value_def number_value_def
  store_reply_def exec_always_def exec_checked_def rollback_reply_def try_bad_config_def with_dates_def

lemma maintains_check [within_intros]: "maintains I (check_user_existance E d config R)"
  unfolding check_user_existance_def maintains_defs Let_def by (intro within_intros)

lemma maintains_guarded [within_intros]: "maintains I body \<Longrightarrow> maintains I (guarded E d config R body)"
  unfolding guarded_def by (intro within_intros)

lemma maintains_collect_items [within_intros]: "maintains I (collect_items E t is)"
  by (induction "is") (auto simp: Let_def int_value_def intro!: within_intros)

lemma maintains_add_ordered_items [within_intros]: "maintains I (add_ordered_items d oid its)"
  by (induction its) (auto simp only: add_ordered_items.simps add_ordered_item_text_def maintains_defs
      intro!: within_intros)

lemma maintains_order_transaction [within_intros]: "maintains I (add_order_transaction d t e its)"
  unfolding add_order_transaction_def add_order_text_def maintains_defs by (intro within_intros)

lemma maintains_handlers:
  assumes "(name, h) \<in> set requests"
  shows "maintains I (h E d config)"
proof -
  have "list_all (\<lambda>(n, h). maintains I (h E d config)) requests"
    unfolding requests_def list.pred_inject prod.case guarded_handler_defs open_handler_defs
      maintains_defs Let_def
    by (intro conjI within_intros) simp
  with assms show ?thesis by (auto simp: list_all_iff)
qed

lemma maintains_process_request: 
  assumes "walk_of walk requests"
  shows "maintains I (process_request E d exec walk msg)"
  unfolding within_def
  using withinD[OF maintains_handlers]
  by (auto simp: process_request_cases[OF assms] split: option.split dest: map_of_SomeD)

end

section \<open>Sessions\<close>

definition session_inv :: "sql_config \<Rightarrow> session \<Rightarrow> bool" where
  "session_inv cfg s \<longleftrightarrow> db_inv cfg (s_db s) \<and> (\<forall>old. s_saved s = Some old \<longrightarrow> db_inv cfg old)"

lemma session_run_inv: "session_inv cfg s \<Longrightarrow> session_inv cfg (snd (session_run cfg other ins t s))"
  using run_call_inv[of cfg "s_db s" "s_now s"]
  by (auto simp: session_run_def session_inv_def result_inv_def split: sum.split option.splits)

interpretation session_maintains: driver_invariant "session_driver cfg other ins" "session_inv cfg"
  for cfg other ins
proof unfold_locales
  fix s t
  assume "session_inv cfg s"
  then have run: "session_inv cfg (snd (session_run cfg other ins t s))"
    by (rule session_run_inv)
  show "session_inv cfg (snd (query_store (session_driver cfg other ins) t s))"
    using run by (auto simp: session_driver_def split: prod.split option.split)
  show "session_inv cfg (snd (query_exec (session_driver cfg other ins) t s))"
    using run by (auto simp: session_driver_def split: prod.split)
qed (auto simp: session_drain, auto simp: session_driver_def session_inv_def split: option.split)

text \<open>Together with the names and telephone numbers, for the statements of the server.\<close>

definition session_ok :: "sql_config \<Rightarrow> session \<Rightarrow> bool" where
  "session_ok cfg s \<longleftrightarrow> session_inv cfg s \<and> names_ok (s_db s) \<and> (\<forall>old. s_saved s = Some old \<longrightarrow> names_ok old)"

lemma session_run_ok:
  assumes "session_ok cfg s" and "statement t"
  shows "session_ok cfg (snd (session_run cfg other ins t s))"
proof (cases "parse_call t")
  case None
  then show ?thesis using assms(1) by (simp add: session_run_def session_ok_def session_inv_def)
next
  case (Some call)
  obtain name args where call: "call = (name, args)" by force
  have "result_inv names_ok (run_call cfg (s_now s) (name, args) (s_db s))"
    using assms parse_statement[OF assms(2)] by (intro run_call_names) (auto simp: session_ok_def Some call)
  then have "names_ok (s_db (snd (session_run cfg other ins t s)))"
    using assms(1)
    by (auto simp: session_run_def session_ok_def result_inv_def Some call split: sum.split)
  moreover have "s_saved (snd (session_run cfg other ins t s)) = s_saved s"
    by (simp add: session_run_def split: sum.split prod.split)
  ultimately show ?thesis
    using assms(1) session_run_inv by (auto simp: session_ok_def)
qed

interpretation session_keeps: driver_invariant "session_driver cfg other ins" "session_ok cfg"
  for cfg other ins
proof unfold_locales
  fix s t
  assume "session_ok cfg s" "statement t"
  then have run: "session_ok cfg (snd (session_run cfg other ins t s))"
    by (rule session_run_ok)
  show "session_ok cfg (snd (query_store (session_driver cfg other ins) t s))"
    using run by (auto simp: session_driver_def split: prod.split option.split)
  show "session_ok cfg (snd (query_exec (session_driver cfg other ins) t s))"
    using run by (auto simp: session_driver_def split: prod.split)
qed (auto simp: session_drain, auto simp: session_driver_def session_ok_def session_inv_def split: option.split)

text \<open>
  The steps of a server with one connection to the database: a message is processed, with whatever
  text and whatever table the VM makes of it, or time passes.
\<close>

inductive server_step ::
  "sql_config \<Rightarrow> (sql_error \<Rightarrow> string) \<Rightarrow> (db \<Rightarrow> db \<Rightarrow> 64 word) \<Rightarrow> session \<Rightarrow> session \<Rightarrow> bool"
  for cfg other ins where
  message: "walk_of walk requests \<Longrightarrow>
     process_request E (session_driver cfg other ins) exec walk msg s = (r, s') \<Longrightarrow>
     server_step cfg other ins s s'"
| time: "s_now s \<le> now' \<Longrightarrow> server_step cfg other ins s (s\<lparr>s_now := now'\<rparr>)"

inductive_cases server_stepE: "server_step cfg other ins s s'"

lemma server_step_inv: "server_step cfg other ins s s' \<Longrightarrow> session_inv cfg s \<Longrightarrow> session_inv cfg s'"
proof (elim server_stepE)
  fix walk :: "(string \<times> session handler) list" and E exec msg r
  assume "session_inv cfg s" "walk_of walk requests"
    and run: "process_request E (session_driver cfg other ins) exec walk msg s = (r, s')"
  from withinD[OF session_maintains.maintains_process_request[OF this(2)], of cfg s E other ins exec msg] this
  show "session_inv cfg s'" by (simp add: run)
qed (simp add: session_inv_def)

definition fresh_server :: "session \<Rightarrow> bool" where
  "fresh_server s \<longleftrightarrow> s_db s = init_db \<and> s_saved s = None"

interpretation serving: invariant_system fresh_server "server_step cfg other ins" "session_inv cfg"
  for cfg other ins
proof unfold_locales
  show "session_inv cfg s" if "fresh_server s" for s
    using that by (simp add: fresh_server_def session_inv_def init_db_inv)
qed (rule server_step_inv)

end
