(* ===== verification/Request_Properties.thy ===== *)
theory Request_Properties
  imports Request_Invariant
begin

text \<open>
  The properties of the requests as a whole, on a session of the modelled database: who may change
  it, what each change does and reports, and what holds of it after any run of the server. Each
  property with hypotheses is applied to the sample database of db.sql.
\<close>

section \<open>Sample requests\<close>

definition user_table :: "string \<Rightarrow> string \<Rightarrow> string \<Rightarrow> lua" where
  "user_table l p r = LTable [(''login'', LString l), (''password'', LString p), (''rank'', LString r)] []"

definition admin_user :: "string \<times> lua" where
  "admin_user = (''user'', user_table ''amogus'' pwd_amogus ''Admin'')"

definition sample_session :: session where
  "sample_session = \<lparr>s_db = sample_db, s_saved = None, s_error = [], s_insert_id = 0, s_now = sample_now\<rparr>"

definition sample_other :: "sql_error \<Rightarrow> string" where
  "sample_other e = ''error''"

definition sample_env :: env where
  "sample_env = \<lparr>value_exn = Exn_std, int_as_number = (\<lambda>i. None),
     number_from_chars = (\<lambda>s. (Errc_ok, length s, 0)), number_format = (\<lambda>d. ''0''),
     number_ostream = (\<lambda>d. ''0''), opaque_ostream = (\<lambda>k p. ''0''), vm_order = (\<lambda>fs. fs),
     clock = sample_now\<rparr>"

lemma sample_session_simps [simp]:
  "s_db sample_session = sample_db" "s_saved sample_session = None" "s_now sample_session = sample_now"
  by (simp_all add: sample_session_def)

lemma sample_cfg_weight [simp]: "weight sample_cfg s = s"
  by (simp add: sample_cfg_def)

lemma pwd_abobus_safe [simp]: "safe_string pwd_abobus"
  by (simp add: safe_string_def pwd_abobus_def)

definition admin_request :: "(string \<times> lua) list \<Rightarrow> lua" where
  "admin_request fs = LTable (admin_user # fs) []"

lemma get_raw_ref_fields [simp]:
  "get_raw_ref (LTable [] arr) k = LNil"
  "get_raw_ref (LTable ((k', v) # fs) arr) k = (if k' = k then v else get_raw_ref (LTable fs arr) k)"
  by (simp_all add: get_raw_ref_def)

lemma get_raw_of_ref:
  "get_raw_string t k = (case get_raw_ref t k of LString s \<Rightarrow> Some s | _ \<Rightarrow> None)"
  "get_raw_int t k = (case get_raw_ref t k of LInt i \<Rightarrow> Some i | _ \<Rightarrow> None)"
  by (simp_all add: get_raw_string_def get_raw_int_def)

lemma admin_credentials [simp]:
  "credentials (admin_request fs) = Some (''amogus'', pwd_amogus, ''Admin'')"
  by (simp add: credentials_def admin_request_def admin_user_def user_table_def
      get_raw_of_ref holds_def Let_def)

lemma admin_safe [simp]: "safe_credentials (admin_request fs)"
  by (simp add: safe_credentials_def safe_string_def pwd_amogus_def)

lemma sample_admin_exists: "CheckUserExists sample_cfg ''amogus'' pwd_amogus ''Admin'' sample_db"
  by (simp add: CheckUserExists_def sample_db_eval sql_eq_def)

lemma admin_authorised [simp]:
  "''Admin'' \<in> set R \<Longrightarrow> authorised sample_cfg (admin_request fs) R sample_db"
  by (simp add: authorised_def sample_admin_exists) (simp add: pwd_amogus_def)

lemma admin_field [simp]:
  "k \<noteq> ''user'' \<Longrightarrow> get_raw_ref (admin_request fs) k = get_raw_ref (LTable fs []) k"
  by (simp add: admin_request_def admin_user_def get_raw_ref_def)

section \<open>The clock\<close>

text \<open>Nothing a request does moves the server's clock.\<close>

interpretation held_clock: driver_invariant "session_driver cfg other ins" "\<lambda>s. s_now s = t"
  for cfg other ins t
  by unfold_locales
    (auto simp: session_drain, auto simp: session_driver_def session_run_def split: option.splits sum.splits)

lemma check_clock: "s_now (snd (check_user_existance E (session_driver cfg other ins) config R s)) = s_now s"
  using withinD[OF held_clock.maintains_check, of s "s_now s" E cfg other ins config R] by simp

lemma tx_start_clock: "s_now (tx_start (session_driver cfg other ins) s) = s_now s"
  by (simp add: session_driver_def)

lemma start_clock:
  "s_now (tx_start (session_driver cfg other ins) (snd (check_user_existance E (session_driver cfg other ins) config R s)))
     = s_now s"
  by (simp add: tx_start_clock check_clock)

section \<open>Who may change the database\<close>


definition delete_request :: lua where
  "delete_request = admin_request [(''request'', LString ''delete_user''), (''delete_user_login'', LString ''abobus'')]"

lemma sample_delete:
  "\<exists>s'. process_request sample_env (session_driver sample_cfg sample_other no_id)
      (\<lambda>m. Some delete_request) requests [] sample_session = (Value success, s') \<and>
      s_db s' \<noteq> s_db sample_session"
proof -
  have "walk_of requests (requests :: (string \<times> session handler) list)"
    by (simp add: walk_of_def request_set_requests)
  note run = process_request_cases[OF this]
  have name: "get_config_request delete_request = ''delete_user''"
    and arg: "get_raw_string delete_request ''delete_user_login'' = Some ''abobus''"
    by (simp_all add: get_config_request_def delete_request_def get_raw_of_ref)
  have h: "map_of requests ''delete_user'' = Some (delete_user :: session handler)"
    by (simp add: requests_def)
  have "\<exists>s'. delete_user sample_env (session_driver sample_cfg sample_other no_id) delete_request
      sample_session = (Value success, s') \<and>
      s_db s' = after (DeleteUser sample_cfg ''abobus'' sample_db) sample_db"
    using session.delete_user_result[of delete_request sample_cfg sample_session "''abobus''"] arg
    by (simp add: delete_request_def safe_string_def)
  moreover have "length (users (after (DeleteUser sample_cfg ''abobus'' sample_db) sample_db)) \<noteq>
      length (users sample_db)"
    by (simp add: after_def DeleteUser_def sample_db_eval sql_eq_def)
  then have "after (DeleteUser sample_cfg ''abobus'' sample_db) sample_db \<noteq> sample_db"
    by metis
  ultimately show ?thesis
    by (auto simp: run name h)
qed



definition anonymous_request :: "string \<Rightarrow> lua" where
  "anonymous_request name = LTable [(''request'', LString name)] []"


text \<open>
  C26: The requests that demand no rank do not look at the caller's account at all: any two messages
  that agree outside the \<open>user\<close> table have the same effect and the same reply. The reports of the
  income and of the sales are among them.
\<close>

theorem open_requests_ignore_user:
  assumes "(name, h) \<in> set requests" and "required_ranks name = None"
    and "\<And>k. k \<noteq> ''user'' \<Longrightarrow> get_raw_ref config k = get_raw_ref config' k"
  shows "h E d config = h E d config'"
proof -
  have same: "get_raw_int config ''order_id'' = get_raw_int config' ''order_id''"
    "get_raw_ref config ''dates'' = get_raw_ref config' ''dates''"
    using assms(3) by (simp_all add: get_raw_of_ref)
  have "list_all (\<lambda>(n, h). required_ranks n = None \<longrightarrow> h E d config = h E d config') requests"
    by (simp add: requests_def required_ranks_def open_handler_defs with_dates_def same)
  with assms(1,2) show ?thesis by (auto simp: list_all_iff)
qed

theorem open_requests_ignore_user_witness:
  "get_income sample_env (session_driver sample_cfg sample_other no_id)
      (LTable [(''dates'', LNil)] []) =
   get_income sample_env (session_driver sample_cfg sample_other no_id)
      (LTable [admin_user, (''dates'', LNil)] [])"
  by (rule open_requests_ignore_user[of "''get_income''"])
    (auto simp: requests_def required_ranks_def admin_user_def)

section \<open>Accounts\<close>

text \<open>
  From an administrator, a well-formed \<open>create_user\<close> request runs the stored procedure on exactly
  the given fields: the account is added and the reply is \<open>success\<close>, or the reply is the
  procedure's error and nothing has changed.
\<close>

theorem create_user_correct:
  assumes "safe_credentials config" and "authorised cfg config [''Admin''] (s_db s)"
    and "new_user_fields (get_raw_ref config ''new_user'') = Some (l, p, sn, n, pn, r)"
    and "list_all (\<lambda>x. safe_string x \<and> length x \<le> 64) [l, p, sn, n, pn]" and "fits_int r"
  shows "\<exists>s'. create_user E (session_driver cfg other ins) config s =
       (Value (outcome_text (error_text other) (CreateUser cfg l p sn n pn (sint r) (s_db s))), s') \<and>
     s_db s' = after (CreateUser cfg l p sn n pn (sint r) (s_db s)) (s_db s)"
  by (rule session.create_user_result[OF assms])

definition new_user_request :: lua where
  "new_user_request = admin_request [(''new_user'', LTable [(''login'', LString ''neo''),
     (''password'', LString ''hash''), (''sname'', LString ''a''), (''name'', LString ''b''),
     (''pname'', LString ''c''), (''rank'', LInt 2)] [])]"

lemma new_user_request_fields:
  "new_user_fields (get_raw_ref new_user_request ''new_user'') =
     Some (''neo'', ''hash'', ''a'', ''b'', ''c'', 2)"
  "list_all (\<lambda>x. safe_string x \<and> length x \<le> 64) [''neo'', ''hash'', ''a'', ''b'', ''c'']"
  "fits_int 2" "sint (2 :: i64) = 2"
  by (simp_all add: new_user_request_def new_user_fields_def get_raw_of_ref safe_string_def
      fits_int_def int_max_def)

lemma new_user_admin:
  "safe_credentials new_user_request" "authorised sample_cfg new_user_request [''Admin''] sample_db"
  by (simp_all add: new_user_request_def)

lemma sample_CreateUser:
  "CreateUser sample_cfg ''neo'' ''hash'' ''a'' ''b'' ''c'' 2 sample_db = Inr (sample_db\<lparr>users :=
     users sample_db @ [\<lparr>u_login = ''neo'', u_sha256_pwd = ''hash'', u_sname = Some ''a'',
       u_name = Some ''b'', u_pname = Some ''c'', u_rank = 2\<rparr>]\<rparr>)"
  by (simp add: CreateUser_def login_exists_def rank_exists_def sample_db_eval sql_eq_def)

theorem create_user_correct_witness:
  "\<exists>s'. create_user sample_env (session_driver sample_cfg sample_other no_id) new_user_request
      sample_session = (Value success, s') \<and> length (users (s_db s')) = 4"
proof -
  have "authorised sample_cfg new_user_request [''Admin''] (s_db sample_session)"
    by (simp add: new_user_admin)
  from create_user_correct[OF new_user_admin(1) this new_user_request_fields(1-3), of sample_env
      sample_other no_id]
  show ?thesis
    unfolding new_user_request_fields(4) sample_session_simps sample_CreateUser after_def
      outcome_text_def sum.case by (auto simp: sample_db_eval)
qed

text \<open>
  C19: After a successful \<open>create_user\<close> the new account works: a later \<open>auth\<close> request with the
  login, the password and the name of the rank is answered with \<open>success\<close>.
\<close>

theorem create_user_then_auth:
  assumes "safe_credentials config" and "authorised cfg config [''Admin''] (s_db s)"
    and "new_user_fields (get_raw_ref config ''new_user'') = Some (l, p, sn, n, pn, r)"
    and "list_all (\<lambda>x. safe_string x \<and> length x \<le> 64) [l, p, sn, n, pn]" and "fits_int r"
    and "CreateUser cfg l p sn n pn (sint r) (s_db s) = Inr db'"
    and "credentials config' = Some (l, p, rank_name)"
    and "rank_name \<in> {''Admin'', ''Employee'', ''Accountant''}"
    and "\<lparr>r_id = sint r, r_name = rank_name\<rparr> \<in> set (ranks (s_db s))"
  shows "\<exists>s' s''. create_user E (session_driver cfg other ins) config s = (Value success, s') \<and>
     auth E (session_driver cfg other ins) config' s' = (Value success, s'')"
proof -
  obtain s' where s': "create_user E (session_driver cfg other ins) config s = (Value success, s')"
    "s_db s' = db'"
    using session.create_user_result[OF assms(1-5), of E other ins]
    by (auto simp: assms(6) outcome_text_def after_def)
  have "CheckUserExists cfg l p rank_name db'"
    using assms(6,9) by (auto simp: CreateUser_def CheckUserExists_def list_ex_iff sql_eq_def
        split: if_splits intro!: bexI[of _ "\<lparr>r_id = sint r, r_name = rank_name\<rparr>"])
  with assms(4,7,8) s'(2) have "authorised cfg config' [''Admin'', ''Employee'', ''Accountant''] (s_db s')"
    by (auto simp: authorised_def)
  moreover have "safe_credentials config'"
    using assms(4,7) by (simp add: safe_credentials_def)
  ultimately have "\<exists>s''. auth E (session_driver cfg other ins) config' s' = (Value success, s'') \<and> True"
    unfolding auth_def by (intro session.guarded_value) (simp_all add: outcome_simps)
  with s'(1) show ?thesis by blast
qed

theorem create_user_then_auth_witness:
  "\<exists>s' s''. create_user sample_env (session_driver sample_cfg sample_other no_id) new_user_request
      sample_session = (Value success, s') \<and>
     auth sample_env (session_driver sample_cfg sample_other no_id)
      (LTable [(''user'', user_table ''neo'' ''hash'' ''Employee'')] []) s' = (Value success, s'')"
proof (rule create_user_then_auth[OF new_user_admin(1) _ new_user_request_fields(1-3)])
  show "authorised sample_cfg new_user_request [''Admin''] (s_db sample_session)"
    by (simp add: new_user_admin)
  show "CreateUser sample_cfg ''neo'' ''hash'' ''a'' ''b'' ''c'' (sint (2 :: i64)) (s_db sample_session) =
      Inr (sample_db\<lparr>users := users sample_db @ [\<lparr>u_login = ''neo'', u_sha256_pwd = ''hash'',
        u_sname = Some ''a'', u_name = Some ''b'', u_pname = Some ''c'', u_rank = 2\<rparr>]\<rparr>)"
    by (simp add: sample_CreateUser new_user_request_fields)
  show "credentials (LTable [(''user'', user_table ''neo'' ''hash'' ''Employee'')] []) =
      Some (''neo'', ''hash'', ''Employee'')"
    by (simp add: credentials_def user_table_def get_raw_of_ref holds_def Let_def)
  show "\<lparr>r_id = sint (2 :: i64), r_name = ''Employee''\<rparr> \<in> set (ranks (s_db sample_session))"
    by (simp add: sample_db_eval)
qed simp

text \<open>
  C20: After \<open>delete_user\<close> the account is gone: a later \<open>auth\<close> request with that login is refused,
  whatever password and rank it names.
\<close>

theorem delete_user_then_refused:
  assumes "safe_credentials config" and "authorised cfg config [''Admin''] (s_db s)"
    and "get_raw_string config ''delete_user_login'' = Some l" and "safe_string l" and "length l \<le> 64"
    and "credentials config' = Some (l, p, rank_name)" and "safe_string p"
  shows "\<exists>s' r s''. delete_user E (session_driver cfg other ins) config s = (Value success, s') \<and>
     auth E (session_driver cfg other ins) config' s' = (Value r, s'') \<and> s_db s'' = s_db s' \<and>
     r \<in> {bad_config, access_denied, make_response_str (other Data_too_long)}"
proof -
  obtain s' where s': "delete_user E (session_driver cfg other ins) config s = (Value success, s')"
    "s_db s' = after (DeleteUser cfg l (s_db s)) (s_db s)"
    using session.delete_user_result[OF assms(1-5), of E other ins] by blast
  have "\<not> CheckUserExists cfg l p rank_name (s_db s')"
    by (auto simp: s'(2) after_def DeleteUser_def CheckUserExists_def list_ex_iff)
  with assms(6) have "\<not> authorised cfg config' [''Admin'', ''Employee'', ''Accountant''] (s_db s')"
    by (simp add: authorised_def)
  moreover have "safe_credentials config'"
    using assms(4,6,7) by (simp add: safe_credentials_def)
  ultimately have "\<exists>r s''. auth E (session_driver cfg other ins) config' s' = (Value r, s'') \<and>
      r \<in> {bad_config, access_denied, make_response_str (error_text other Data_too_long)} \<and>
      s_db s'' = s_db s' \<and> s_saved s'' = s_saved s'"
    unfolding auth_def by (intro session.guarded_refused) simp_all
  then show ?thesis using s'(1) by (auto simp: error_text_def)
qed

theorem delete_user_then_refused_witness:
  "\<exists>s' r s''. delete_user sample_env (session_driver sample_cfg sample_other no_id) delete_request
      sample_session = (Value success, s') \<and>
     auth sample_env (session_driver sample_cfg sample_other no_id)
      (LTable [(''user'', user_table ''abobus'' pwd_abobus ''Employee'')] []) s' = (Value r, s'') \<and>
     s_db s'' = s_db s' \<and> r \<in> {bad_config, access_denied, make_response_str (sample_other Data_too_long)}"
  by (rule delete_user_then_refused[where l = "''abobus''" and p = pwd_abobus and rank_name = "''Employee''"])
    (simp_all add: delete_request_def get_raw_of_ref credentials_def user_table_def holds_def Let_def,
      simp add: safe_string_def)

end
