(* ===== verification/Order_Requests.thy ===== *)
theory Order_Requests
  imports Request_Properties
begin

text \<open>
  The properties of the requests about stock and orders: what the handlers with a transaction
  leave behind, what the reply of \<open>add_item_count\<close> hides, why \<open>add_order\<close> does not succeed, and
  the widths at which an order's numbers are kept; then the dispatch and the invariant of a server
  run.
\<close>

section \<open>Stock\<close>

text \<open>
  \<open>add_item_count\<close> runs the stored procedure on the given item and difference, and its reply is
  \<open>success\<close> in every case, also when the procedure has failed and nothing has changed.
\<close>

theorem add_item_count_always_success:
  assumes "safe_credentials config" and "authorised cfg config [''Employee'', ''Admin''] (s_db s)"
    and "get_raw_int (get_raw_ref config ''item'') ''id'' = Some i"
    and "get_raw_int (get_raw_ref config ''item'') ''appended_count'' = Some x"
    and "fits_int i" and "fits_int x"
  shows "\<exists>s'. add_item_count E (session_driver cfg other ins) config s = (Value success, s') \<and>
     s_db s' = after (AddItemCount (sint i) (sint x) (s_db s)) (s_db s)"
  by (rule session.add_item_count_result[OF assms])

definition drain_stock_request :: lua where
  "drain_stock_request = admin_request [(''item'', LTable [(''id'', LInt 1), (''appended_count'', LInt (-190))] [])]"

theorem add_item_count_always_success_witness:
  "\<exists>s'. add_item_count sample_env (session_driver sample_cfg sample_other no_id) drain_stock_request
      sample_session = (Value success, s') \<and> s_db s' = sample_db"
proof -
  have i: "sint (1 :: i64) = 1" "sint (- 190 :: i64) = - 190" by simp_all
  have "AddItemCount 1 (- 190) sample_db = Inl Out_of_range"
    by (simp add: AddItemCount_def sample_db_eval set_count_eq)
  then have "after (AddItemCount (sint (1 :: i64)) (sint (- 190 :: i64)) sample_db) sample_db = sample_db"
    unfolding i by (simp add: after_def)
  then show ?thesis
    using add_item_count_always_success[of drain_stock_request sample_cfg sample_session 1 "-190"
        sample_env sample_other no_id]
    by (simp add: drain_stock_request_def get_raw_of_ref fits_int_def int_max_def)
qed

section \<open>Completing an order\<close>

text \<open>
  C11: \<open>complete_order\<close> is all or nothing: the database afterwards is the one the stored procedure
  makes of it at the time of the request and the reply is \<open>success\<close>, or the database is unchanged; an
  order id that is not a 32-bit integer changes nothing.
\<close>

theorem complete_order_atomic:
  assumes "safe_credentials config" and "authorised cfg config [''Employee'', ''Admin''] (s_db s)"
    and "get_raw_int config ''order_id'' = Some i"
  shows "\<exists>r s'. complete_order E (session_driver cfg other ins) config s = (Value r, s') \<and>
     (if fits_int i then case CompleteOrder cfg (s_now s) (sint i) (s_db s) of
           Inl e \<Rightarrow> s_db s' = s_db s
         | Inr db' \<Rightarrow> r = success \<and> s_db s' = db'
      else s_db s' = s_db s)"
  by (rule session.complete_order_result[OF assms start_clock])

definition complete_request :: "i64 \<Rightarrow> lua" where
  "complete_request i = admin_request [(''order_id'', LInt i)]"

theorem complete_order_atomic_witness:
  "\<exists>r s'. complete_order sample_env (session_driver sample_cfg sample_other no_id)
      (complete_request (2 ^ 32)) sample_session = (Value r, s') \<and> s_db s' = sample_db"
proof -
  have "sint (2 ^ 32 :: i64) = 2 ^ 32" by simp
  then have "\<not> fits_int (2 ^ 32)"
    unfolding fits_int_def by (simp add: int_max_def)
  then show ?thesis
    using complete_order_atomic[of "complete_request (2 ^ 32)" sample_cfg sample_session "2 ^ 32"
        sample_env sample_other no_id]
    by (simp add: complete_request_def get_raw_of_ref)
qed

section \<open>Placing an order\<close>

text \<open>
  C12: \<open>add_order\<close> is all or nothing, whatever insert id the server reports: the order and all its
  lines are there and the reply is \<open>success\<close>, or the database is unchanged.
\<close>

theorem add_order_atomic:
  assumes "safe_credentials config" and "authorised cfg config [''Employee'', ''Admin''] (s_db s)"
    and "get_raw_int (get_raw_ref config ''new_order'') ''customer_telephone'' = Some tel"
    and "get_raw_int (get_raw_ref config ''new_order'') ''date_of_expire'' = Some expire"
    and "clock E \<le> sint expire" and "its \<noteq> []"
    and "map (\<lambda>i. line_item (get_raw_at (get_raw_ref config ''new_order'') i))
        [1..<Suc (get_length (get_raw_ref config ''new_order''))] = map Some its"
  shows "\<exists>r s'. add_order E (session_driver cfg other ins) config s = (Value r, s') \<and>
     (case placed_order cfg ins (s_now s) tel expire its (s_db s) of
        Inl e \<Rightarrow> s_db s' = s_db s
      | Inr db' \<Rightarrow> r = success \<and> s_db s' = db')"
  by (rule session.add_order_result[OF assms start_clock])

text \<open>
  A configuration whose server would accept the date text, and an order of five pieces of the
  first item for the first customer.
\<close>

definition lenient_cfg :: sql_config where
  "lenient_cfg = sample_cfg\<lparr>parse_date := (\<lambda>s. Some 20040)\<rparr>"

definition order_request :: lua where
  "order_request = admin_request [(''new_order'', LTable [(''customer_telephone'', LInt 123),
     (''date_of_expire'', LInt 1731536000)]
     [LTable [(''item_id'', LInt 1), (''count_in_order'', LInt 5)] []])]"

lemma order_request_fields:
  "get_raw_int (get_raw_ref order_request ''new_order'') ''customer_telephone'' = Some 123"
  "get_raw_int (get_raw_ref order_request ''new_order'') ''date_of_expire'' = Some 1731536000"
  "clock sample_env \<le> sint (1731536000 :: i64)"
  "[\<lparr>item_id = 1, count_in_order = 5\<rparr>] \<noteq> []"
  "map (\<lambda>i. line_item (get_raw_at (get_raw_ref order_request ''new_order'') i))
     [1..<Suc (get_length (get_raw_ref order_request ''new_order''))] =
     map Some [\<lparr>item_id = 1, count_in_order = 5\<rparr>]"
  by (simp_all add: order_request_def get_raw_of_ref sample_env_def sample_now_def line_item_def
      get_raw_at_def get_length_def)

lemma order_request_safe: "safe_credentials order_request"
  by (simp add: order_request_def)

lemma lenient_CheckUserExists: "CheckUserExists lenient_cfg = CheckUserExists sample_cfg"
  by (intro ext) (simp add: CheckUserExists_def sql_eq_def lenient_cfg_def)

lemma lenient_authorised: "authorised lenient_cfg config R db = authorised sample_cfg config R db"
  unfolding authorised_def lenient_CheckUserExists ..

lemma order_request_authorised:
  "authorised sample_cfg order_request [''Employee'', ''Admin''] (s_db sample_session)"
  "authorised lenient_cfg order_request [''Employee'', ''Admin''] (s_db sample_session)"
  by (simp_all add: order_request_def lenient_authorised)

lemma order_placed:
  "\<exists>db'. placed_order lenient_cfg new_id (s_now sample_session) 123 1731536000 [\<lparr>item_id = 1, count_in_order = 5\<rparr>] sample_db =
     Inr db' \<and> length (orders db') = 2 \<and> length (ordered_items db') = 5"
  by (simp add: placed_order_def lenient_cfg_def sample_db_eval AddOrder_def bindE_def as_date_def new_id_def
      AddOrderedItem_def sample_cfg_def item_exists_def order_exists_def customer_exists_def int_max_def uint_max_def
      sample_now_def)

theorem add_order_atomic_witness:
  "\<exists>s'. add_order sample_env (session_driver lenient_cfg sample_other new_id) order_request
      sample_session = (Value success, s') \<and> length (orders (s_db s')) = 2 \<and> length (ordered_items (s_db s')) = 5"
proof -
  obtain db' where db': "placed_order lenient_cfg new_id (s_now sample_session) 123 1731536000
      [\<lparr>item_id = 1, count_in_order = 5\<rparr>] sample_db = Inr db'" "length (orders db') = 2" "length (ordered_items db') = 5"
    using order_placed by blast
  then have "placed_order lenient_cfg new_id (s_now sample_session) 123 1731536000
      [\<lparr>item_id = 1, count_in_order = 5\<rparr>] (s_db sample_session) = Inr db'" by simp
  with add_order_atomic[OF order_request_safe order_request_authorised(2) order_request_fields, of sample_other new_id]
  obtain s' where "add_order sample_env (session_driver lenient_cfg sample_other new_id) order_request sample_session =
      (Value success, s')" "s_db s' = db'"
    by (auto split: sum.splits simp del: sample_session_simps)
  with db'(2,3) show ?thesis by blast
qed

text \<open>
  C25: With the insert id that the server documents after a \<open>CALL\<close>, \<open>add_order\<close> never places an
  order: the lines are added to the order with id 0, which does not exist, so the transaction is
  rolled back, whatever the customer, the date and the items are.
\<close>

theorem add_order_never_succeeds:
  assumes "safe_credentials config" and "authorised cfg config [''Employee'', ''Admin''] (s_db s)"
    and "get_raw_int (get_raw_ref config ''new_order'') ''customer_telephone'' = Some tel"
    and "get_raw_int (get_raw_ref config ''new_order'') ''date_of_expire'' = Some expire"
    and "clock E \<le> sint expire" and "its \<noteq> []"
    and "map (\<lambda>i. line_item (get_raw_at (get_raw_ref config ''new_order'') i))
        [1..<Suc (get_length (get_raw_ref config ''new_order''))] = map Some its"
    and "db_inv cfg (s_db s)"
  shows "\<exists>r s'. add_order E (session_driver cfg other no_id) config s = (Value r, s') \<and>
     s_db s' = s_db s"
proof -
  have "\<exists>e. placed_order cfg no_id now tel expire its (s_db s) = Inl e" for now
    by (rule placed_order_no_id[OF assms(6,8)])
  then show ?thesis
    using session.add_order_result[OF assms(1-7) start_clock, of other no_id] by (metis (mono_tags, lifting) sum.simps(5))
qed

theorem add_order_never_succeeds_witness:
  "\<exists>r s'. add_order sample_env (session_driver sample_cfg sample_other no_id) order_request
      sample_session = (Value r, s') \<and> s_db s' = sample_db"
  using add_order_never_succeeds[OF order_request_safe order_request_authorised(1) order_request_fields,
      of sample_other] sample_db_inv
  by simp

section \<open>Widths\<close>

text \<open>
  The text of an \<open>AddOrderedItem\<close> call is read back by the server as exactly the 32-bit order
  id, item id and unsigned count it was made from.
\<close>

theorem ordered_item_text_roundtrip:
  "\<exists>a b k. parse_call (add_ordered_item_text oid it) = Some (''AddOrderedItem'', [a, b, k]) \<and>
     as_int a = Inr (sint oid) \<and> as_int b = Inr (sint (item_id it)) \<and>
     as_int_unsigned k = Inr (unat (count_in_order it))"
proof -
  let ?args = "[Arg_string (show_int (sint oid)), Arg_string (show_int (sint (item_id it))),
      Arg_string (show_nat (unat (count_in_order it)))]"
  have "safe_call ''AddOrderedItem'' ?args"
    by (simp add: safe_call_def)
  from parse_call_text[OF this] show ?thesis
    by (simp add: add_ordered_item_call)
qed

text \<open>
  The item ids and counts of an order are cut to 32 bits without a check: a line of the request
  whose id and count are larger by a multiple of 2^32 is the same line.
\<close>

theorem order_lines_wrap:
  "collect_items E (LTable fs [LTable [(''item_id'', LInt (i + k * 2 ^ 32)),
       (''count_in_order'', LInt (n + m * 2 ^ 32))] []]) [1] =
   collect_items E (LTable fs [LTable [(''item_id'', LInt i), (''count_in_order'', LInt n)] []]) [1]"
proof -
  have cut: "ucast (x + y * 2 ^ 32 :: i64) = (ucast x :: 32 word)" for x y
    by transfer (simp add: take_bit_take_bit, simp add: take_bit_eq_mod)
  then show ?thesis
    by (simp add: get_raw_at_def int_value_def get_raw_of_ref Let_def outcome_simps cut)
qed

section \<open>Dispatch and the invariant of a run\<close>

text \<open>
  The reply to a message and its effect do not depend on the order in which the unordered set
  of requests is walked.
\<close>

theorem dispatch_order_irrelevant:
  assumes "walk_of walk requests" and "walk_of walk' requests"
  shows "process_request E d exec walk msg c = process_request E d exec walk' msg c"
  by (simp only: process_request_cases[OF assms(1)] process_request_cases[OF assms(2)])

theorem dispatch_order_irrelevant_witness:
  "process_request sample_env (session_driver sample_cfg sample_other no_id)
      (\<lambda>m. Some delete_request) requests [] sample_session =
   process_request sample_env (session_driver sample_cfg sample_other no_id)
      (\<lambda>m. Some delete_request) (rev requests) [] sample_session"
  by (rule dispatch_order_irrelevant) (simp_all add: walk_of_def request_set_requests)

text \<open>
  Whatever messages a server receives, its database keeps unique keys, every reference in it
  points to a row, and the numbers stay in the range of their columns.
\<close>

theorem served_database_invariant:
  assumes "fresh_server s" and "(server_step cfg other ins)\<^sup>*\<^sup>* s s'"
  shows "db_inv cfg (s_db s')"
  using serving.reachable_inv[OF assms] by (simp add: session_inv_def)

theorem served_database_invariant_witness:
  "\<exists>s'. (server_step sample_cfg sample_other no_id)\<^sup>*\<^sup>*
      (sample_session\<lparr>s_db := init_db\<rparr>) s' \<and> db_inv sample_cfg (s_db s')"
proof -
  let ?s = "sample_session\<lparr>s_db := init_db\<rparr>"
  let ?d = "session_driver sample_cfg sample_other no_id"
  have "walk_of requests (requests :: (string \<times> session handler) list)"
    by (simp add: walk_of_def request_set_requests)
  then have "server_step sample_cfg sample_other no_id ?s
      (snd (process_request sample_env ?d (\<lambda>m. Some delete_request) requests [] ?s))"
    by (metis server_step.message prod.collapse)
  moreover have "fresh_server ?s"
    by (simp add: fresh_server_def)
  ultimately show ?thesis
    using served_database_invariant by blast
qed

end
