(* ===== verification/Query_Replies.thy ===== *)
theory Query_Replies
  imports Request_Invariant
begin

text \<open>
  The replies of the queries against a lawful server: the rows of the stored procedure come back
  as one table per row, with every column under its field name and in the field's type, and no
  assertion of the conversion fails. First the fields of a converted row, then the positions of
  the columns, then one lemma per query.
\<close>

section \<open>The fields of a converted row\<close>

definition field_index :: "(field_and_type \<times> int) list \<Rightarrow> string \<Rightarrow> (field_and_type \<times> int) option" where
  "field_index fis = map_of (map (\<lambda>p. (field_name (fst p), p)) fis)"

definition row_field :: "env \<Rightarrow> string option list \<Rightarrow> field_and_type \<times> int \<Rightarrow> lua \<Rightarrow> lua" where
  "row_field E row p otherwise = (case row ! nat (snd p) of
      None \<Rightarrow> otherwise
    | Some s \<Rightarrow> the (cell_result E (field_type (fst p)) s))"

lemma set_raw_LTable:
  assumes "order_ok E" and "distinct (map fst fs)"
  obtains fs' where "set_raw E (LTable fs arr) k v = LTable fs' arr" and "distinct (map fst fs')"
proof -
  have "distinct (map fst (vm_order E (upd_field k v fs)))"
    using assms distinct_upd_field[of fs k v] by (simp add: order_ok_def)
  then show ?thesis using that by (simp add: set_raw_def)
qed

lemma build_item_ref:
  assumes "order_ok E" and "distinct (map fst fs)" and "distinct (map (field_name \<circ> fst) fis)"
  shows "get_raw_ref (build_item E row fis (LTable fs arr)) k =
     (case field_index fis k of
        None \<Rightarrow> get_raw_ref (LTable fs arr) k
      | Some p \<Rightarrow> row_field E row p (get_raw_ref (LTable fs arr) k))"
  using assms(2,3)
proof (induction fis arbitrary: fs)
  case Nil
  then show ?case by (simp add: field_index_def)
next
  case (Cons p fis)
  obtain f i where p: "p = (f, i)" by force
  have absent: "field_index fis (field_name f) = None"
    using Cons.prems(2) by (auto simp: p field_index_def map_of_eq_None_iff image_iff)
  show ?case
  proof (cases "row ! nat i")
    case None
    with Cons absent show ?thesis
      by (auto simp: p field_index_def row_field_def)
  next
    case (Some s)
    let ?v = "the (cell_result E (field_type f) s)"
    obtain fs' where fs': "set_raw E (LTable fs arr) (field_name f) ?v = LTable fs' arr" "distinct (map fst fs')"
      using set_raw_LTable[OF assms(1) Cons.prems(1)] by blast
    have "get_raw_ref (LTable fs' arr) k' =
        (if k' = field_name f then ?v else get_raw_ref (LTable fs arr) k')" for k'
      using get_raw_ref_set_raw[OF assms(1) Cons.prems(1), of arr "field_name f" ?v k'] fs'(1) by simp
    then show ?thesis
      using Cons.IH[OF fs'(2)] Cons.prems(2) absent
      by (auto simp: p Some fs'(1) field_index_def row_field_def split: option.split)
  qed
qed

section \<open>The positions of the columns\<close>

definition columns_at :: "string list \<Rightarrow> field_and_type list \<Rightarrow> nat list \<Rightarrow> bool" where
  "columns_at cols flds ps \<longleftrightarrow> distinct (map (map lower_char) cols) \<and>
     list_all2 (\<lambda>f i. i < length cols \<and> field_name f = cols ! i) flds ps"

definition item_of :: "env \<Rightarrow> field_and_type list \<Rightarrow> nat list \<Rightarrow> string option list \<Rightarrow> lua" where
  "item_of E flds ps row = build_item E row (zip flds (map int ps)) create_table"

text \<open>The reply of a query that has gone well.\<close>

definition listing :: "env \<Rightarrow> string \<Rightarrow> lua list \<Rightarrow> string" where
  "listing E name its = success @ LuaConfSerialize E (LTable [] its) name 0"

context sql_server
begin

lemma col_indices_at:
  assumes "columns_at cols flds ps"
  shows "col_indices d \<lparr>sr_ok = True, sr_columns = cols, sr_rows = rows\<rparr> flds = map int ps"
proof -
  have "distinct (map (map lower_char) cols)"
    and "list_all2 (\<lambda>f i. i < length cols \<and> field_name f = cols ! i) flds ps"
    using assms by (simp_all add: columns_at_def)
  from this(2) show ?thesis
    by (induction rule: list_all2_induct)
      (simp_all add: col_indices_def field_num_ok[OF \<open>distinct (map (map lower_char) cols)\<close>])
qed

lemma store_reply_listing:
  assumes "safe_call name args" and "columns_at cols flds ps"
    and "run_call cfg (now_of c) (name, args) (db_of c) = rows_of cols rows (db_of c)"
    and "list_all (row_ok E (zip flds (map int ps))) rows"
  shows "\<exists>c'. store_reply E d (call_text name args) table flds c =
       (Value (listing E table (map (item_of E flds ps) rows)), c') \<and> db_of c' = db_of c"
proof -
  let ?res = "\<lparr>sr_ok = True, sr_columns = cols, sr_rows = rows\<rparr>"
  have ok: "result_ok E d ?res flds"
    using assms(4) by (simp add: result_ok_def col_indices_at[OF assms(2)] list_all_iff)
  have run: "run_call cfg (now_of c) (name, args) (db_of c) = Inr ((cols, rows), db_of c)"
    by (simp add: assms(3) rows_of_def)
  have "result_table E d ?res flds = LTable [] (map (item_of E flds ps) rows)"
    by (simp add: result_table_def col_indices_at[OF assms(2)] item_of_def)
  then show ?thesis
    unfolding store_reply_def listing_def
    using invoke_store_ok[OF assms(1) run, where
        f = "\<lambda>res. bindM (serialize_query_result E d res table flds) (\<lambda>s. retM (success @ s))"]
    by (auto simp: outcome_simps serialize_query_result_value[OF ok])
qed

lemma store_reply_abort:
  assumes "safe_call name args" and "columns_at cols flds ps"
    and "run_call cfg (now_of c) (name, args) (db_of c) = rows_of cols rows (db_of c)"
    and "fill_table E d (zip flds (map int ps)) rows create_table = (\<lambda>c. (Abort, c))"
  shows "fst (store_reply E d (call_text name args) table flds c) = Abort"
proof -
  let ?res = "\<lparr>sr_ok = True, sr_columns = cols, sr_rows = rows\<rparr>"
  obtain res c1 where q: "query_store d (call_text name args) c = (res, c1)" by force
  have run: "run_call cfg (now_of c) (name, args) (db_of c) = Inr ((cols, rows), db_of c)"
    by (simp add: assms(3) rows_of_def)
  from store_ok[OF assms(1) run q] have res: "res = ?res" by simp
  have "find_indices d ?res flds c1 = (Value (map int ps), c1)"
    using find_indices_value[of d ?res flds c1] by (simp add: col_indices_at[OF assms(2)] list_all_iff)
  then have "serialize_query_result E d ?res table flds c1 = (Abort, c1)"
    by (simp add: serialize_query_result_def outcome_simps assms(4) bindM_def)
  then show ?thesis
    by (simp add: store_reply_def invoke_store_def q res bindM_def)
qed

end

section \<open>Customers and users\<close>

lemma columns_positions:
  "columns_at GetCustomers_columns customers_fields [0, 1, 2, 3]"
  "columns_at GetUsers_columns users_fields [0, 1, 2, 3, 4]"
  "columns_at Order_columns orders_fields [0, 1, 2, 3, 4, 5, 6, 7]"
  "columns_at GetRanks_columns id_name_fields [0, 1]"
  "columns_at named_columns id_name_fields [0, 1]"
  by (simp_all add: columns_at_def GetCustomers_columns_def customers_fields_def GetUsers_columns_def
      users_fields_def Order_columns_def orders_fields_def GetRanks_columns_def named_columns_def
      id_name_fields_def FieldAndType_def FieldAndType_null_def lower_char_def)

lemma cell_result_show_nat: "n < 2 ^ 63 \<Longrightarrow> cell_result E VM_Int (show_nat n) = Some (LInt (word_of_nat n))"
  using cell_result_Int_show_int[of "int n" E] by (simp add: show_int_def)

definition shows_customer :: "lua \<Rightarrow> customer_row \<Rightarrow> bool" where
  "shows_customer item c \<longleftrightarrow>
     get_raw_int item ''telephone'' = Some (word_of_nat (c_telephone c)) \<and>
     get_raw_string item ''sname'' = c_sname c \<and> get_raw_string item ''name'' = c_name c \<and>
     get_raw_string item ''pname'' = c_pname c"

definition customer_cells :: "customer_row \<Rightarrow> string option list" where
  "customer_cells c = [Some (show_nat (c_telephone c)), c_sname c, c_name c, c_pname c]"

definition customer_ok :: "customer_row \<Rightarrow> bool" where
  "customer_ok c \<longleftrightarrow> c_sname c \<noteq> None \<and> c_name c \<noteq> None \<and> c_pname c \<noteq> None \<and> c_telephone c < 2 ^ 63"

lemma customer_cells_ok:
  assumes "customer_ok c"
  shows "row_ok E (zip customers_fields (map int [0, 1, 2, 3])) (customer_cells c)"
  using assms
  by (auto simp: row_ok_def customers_fields_def FieldAndType_def customer_cells_def cell_ok_def
      customer_ok_def cell_result_show_nat split: option.split)

lemma get_raw_int_ref: "get_raw_int t k = (case get_raw_ref t k of LInt i \<Rightarrow> Some i | _ \<Rightarrow> None)"
  by (simp add: get_raw_int_def)

lemma get_raw_string_ref: "get_raw_string t k = (case get_raw_ref t k of LString s \<Rightarrow> Some s | _ \<Rightarrow> None)"
  by (simp add: get_raw_string_def)

lemma item_of_ref:
  assumes "order_ok E" and "distinct (map (field_name \<circ> fst) (zip flds (map int ps)))"
  shows "get_raw_ref (item_of E flds ps row) k =
     (case field_index (zip flds (map int ps)) k of
        None \<Rightarrow> LNil | Some p \<Rightarrow> row_field E row p LNil)"
proof -
  have "get_raw_ref (LTable [] []) k = LNil"
    by (simp add: get_raw_ref_def)
  then show ?thesis
    using build_item_ref[OF assms(1) _ assms(2), of "[]" row "[]" k]
    by (simp add: item_of_def create_table_def split: option.split)
qed

lemma shows_customer_cells:
  assumes "order_ok E" and "customer_ok c"
  shows "shows_customer (item_of E customers_fields [0, 1, 2, 3] (customer_cells c)) c"
proof -
  have "distinct (map (field_name \<circ> fst) (zip customers_fields (map int [0, 1, 2, 3])))"
    by (simp add: customers_fields_def FieldAndType_def)
  note ref = item_of_ref[OF assms(1) this]
  show ?thesis
    using assms(2) unfolding shows_customer_def get_raw_int_ref get_raw_string_ref ref
    by (auto simp: field_index_def
        customers_fields_def FieldAndType_def row_field_def customer_cells_def customer_ok_def
        cell_result_show_nat)
qed

text \<open>Users, with the name of their rank.\<close>

definition shows_user :: "lua \<Rightarrow> user_row \<times> rank_row \<Rightarrow> bool" where
  "shows_user item ur \<longleftrightarrow> (case ur of (u, r) \<Rightarrow>
     get_raw_string item ''login'' = Some (u_login u) \<and> get_raw_string item ''sname'' = u_sname u \<and>
     get_raw_string item ''name'' = u_name u \<and> get_raw_string item ''pname'' = u_pname u \<and>
     get_raw_string item ''rank'' = Some (r_name r))"

definition user_cells :: "user_row \<times> rank_row \<Rightarrow> string option list" where
  "user_cells ur = (case ur of (u, r) \<Rightarrow>
     [Some (u_login u), u_sname u, u_name u, u_pname u, Some (r_name r)])"

definition user_ok :: "user_row \<Rightarrow> bool" where
  "user_ok u \<longleftrightarrow> u_sname u \<noteq> None \<and> u_name u \<noteq> None \<and> u_pname u \<noteq> None"

lemma user_cells_ok:
  assumes "user_ok (fst ur)"
  shows "row_ok E (zip users_fields (map int [0, 1, 2, 3, 4])) (user_cells ur)"
  using assms
  by (cases ur) (auto simp: row_ok_def users_fields_def FieldAndType_def user_cells_def cell_ok_def
      user_ok_def split: option.split)

lemma shows_user_cells:
  assumes "order_ok E" and "user_ok (fst ur)"
  shows "shows_user (item_of E users_fields [0, 1, 2, 3, 4] (user_cells ur)) ur"
proof -
  have "distinct (map (field_name \<circ> fst) (zip users_fields (map int [0, 1, 2, 3, 4])))"
    by (simp add: users_fields_def FieldAndType_def)
  note ref = item_of_ref[OF assms(1) this]
  show ?thesis
    using assms(2) unfolding shows_user_def get_raw_int_ref get_raw_string_ref ref
    by (cases ur) (auto simp: field_index_def users_fields_def FieldAndType_def row_field_def
        user_cells_def user_ok_def)
qed

text \<open>The rank of a user, the only one with its id.\<close>

definition rank_of :: "db \<Rightarrow> user_row \<Rightarrow> rank_row" where
  "rank_of db u = hd (filter (\<lambda>r. u_rank u = r_id r) (ranks db))"

lemma filter_unique:
  assumes "distinct (map f xs)" and "k \<in> f ` set xs"
  shows "filter (\<lambda>x. k = f x) xs = [hd (filter (\<lambda>x. k = f x) xs)]"
  using assms
proof (induction xs)
  case (Cons x xs)
  show ?case
  proof (cases "k = f x")
    case True
    with Cons.prems(1) have "filter (\<lambda>x. k = f x) xs = []"
      by (auto simp: filter_empty_conv)
    with True show ?thesis by simp
  qed (use Cons in auto)
qed simp

lemma GetUsers_eq:
  assumes "db_inv cfg db"
  shows "GetUsers db = map (\<lambda>u. user_cells (u, rank_of db u)) (users db)"
proof -
  have one: "filter (\<lambda>r. u_rank u = r_id r) (ranks db) = [rank_of db u]" if "u \<in> set (users db)" for u
    unfolding rank_of_def using assms that
    by (intro filter_unique) (auto simp: db_inv_def keys_ok_def refs_ok_def exists_iff)
  have "concat (map (\<lambda>u. map (\<lambda>r. user_cells (u, r)) (filter (\<lambda>r. u_rank u = r_id r) (ranks db))) us) =
      map (\<lambda>u. user_cells (u, rank_of db u)) us" if "set us \<subseteq> set (users db)" for us
    using that by (induction us) (simp_all add: one)
  from this[of "users db"] show ?thesis
    by (simp add: GetUsers_def user_cells_def)
qed

section \<open>Orders\<close>

text \<open>Unix seconds of a day fit the 64-bit integer they are sent in.\<close>

definition days_ok :: "sql_config \<Rightarrow> bool" where
  "days_ok cfg \<longleftrightarrow> (\<forall>t. - (2 ^ 63) \<le> unix_of_day cfg t \<and> unix_of_day cfg t < 2 ^ 63)"

definition order_cells :: "sql_config \<Rightarrow> order_row \<times> customer_row \<Rightarrow> string option list" where
  "order_cells cfg oc = (case oc of (ord, c) \<Rightarrow>
     [Some (show_int (o_id ord)), Some (show_int (unix_of_day cfg (o_date_of_start ord))),
      Some (show_int (unix_of_day cfg (o_date_of_expire ord))),
      map_option (\<lambda>t. show_int (unix_of_day cfg t)) (o_date_of_completion ord),
      Some (show_nat (c_telephone c)), c_sname c, c_name c, c_pname c])"

text \<open>The completion day is absent from the item of an open order.\<close>

definition shows_order :: "sql_config \<Rightarrow> lua \<Rightarrow> order_row \<times> customer_row \<Rightarrow> bool" where
  "shows_order cfg item oc \<longleftrightarrow> (case oc of (ord, c) \<Rightarrow>
     get_raw_int item ''id'' = Some (word_of_int (o_id ord)) \<and>
     get_raw_int item ''date_of_start'' = Some (word_of_int (unix_of_day cfg (o_date_of_start ord))) \<and>
     get_raw_int item ''date_of_expire'' = Some (word_of_int (unix_of_day cfg (o_date_of_expire ord))) \<and>
     get_raw_int item ''date_of_completion'' =
       map_option (\<lambda>t. word_of_int (unix_of_day cfg t)) (o_date_of_completion ord) \<and>
     get_raw_int item ''c_telephone'' = Some (word_of_nat (c_telephone c)) \<and>
     get_raw_string item ''c_sname'' = c_sname c \<and> get_raw_string item ''c_name'' = c_name c \<and>
     get_raw_string item ''c_pname'' = c_pname c)"

definition order_ok_row :: "order_row \<times> customer_row \<Rightarrow> bool" where
  "order_ok_row oc \<longleftrightarrow> 1 \<le> o_id (fst oc) \<and> o_id (fst oc) \<le> int_max \<and> customer_ok (snd oc)"

lemma cell_result_day:
  "days_ok cfg \<Longrightarrow> cell_result E VM_Int (show_int (unix_of_day cfg t)) =
     Some (LInt (word_of_int (unix_of_day cfg t)))"
  by (rule cell_result_Int_show_int) (simp_all add: days_ok_def)

lemma cell_result_id:
  "1 \<le> i \<Longrightarrow> i \<le> int_max \<Longrightarrow> cell_result E VM_Int (show_int i) = Some (LInt (word_of_int i))"
  by (rule cell_result_Int_show_int) (simp_all add: int_max_def)

lemma order_cells_ok:
  assumes "days_ok cfg" and "order_ok_row oc"
  shows "row_ok E (zip orders_fields (map int [0, 1, 2, 3, 4, 5, 6, 7])) (order_cells cfg oc)"
  using assms
  by (cases oc) (auto simp: row_ok_def orders_fields_def FieldAndType_def FieldAndType_null_def
      order_cells_def cell_ok_def order_ok_row_def customer_ok_def cell_result_day cell_result_id
      cell_result_show_nat split: option.split)

lemma shows_order_cells:
  assumes "order_ok E" and "days_ok cfg" and "order_ok_row oc"
  shows "shows_order cfg (item_of E orders_fields [0, 1, 2, 3, 4, 5, 6, 7] (order_cells cfg oc)) oc"
proof -
  have "distinct (map (field_name \<circ> fst) (zip orders_fields (map int [0, 1, 2, 3, 4, 5, 6, 7])))"
    by (simp add: orders_fields_def FieldAndType_def FieldAndType_null_def)
  note ref = item_of_ref[OF assms(1) this]
  obtain ord c where oc: "oc = (ord, c)" by force
  show ?thesis
    using assms(2,3) unfolding shows_order_def get_raw_int_ref get_raw_string_ref ref oc
    by (cases "o_date_of_completion ord")
      (auto simp: field_index_def orders_fields_def FieldAndType_def FieldAndType_null_def
        row_field_def order_cells_def order_ok_row_def customer_ok_def cell_result_day cell_result_id
        cell_result_show_nat)
qed

definition customer_of :: "db \<Rightarrow> order_row \<Rightarrow> customer_row" where
  "customer_of db ord = hd (filter (\<lambda>c. o_customer_tel ord = c_telephone c) (customers db))"

lemma customer_of_unique:
  assumes "db_inv cfg db" and "ord \<in> set (orders db)"
  shows "filter (\<lambda>c. o_customer_tel ord = c_telephone c) (customers db) = [customer_of db ord]"
  unfolding customer_of_def using assms
  by (intro filter_unique) (auto simp: db_inv_def keys_ok_def refs_ok_def exists_iff)

lemma order_rows_eq:
  assumes "db_inv cfg db"
  shows "order_rows cfg P db = map (\<lambda>ord. order_cells cfg (ord, customer_of db ord)) (filter P (orders db))"
proof -
  have "concat (map (\<lambda>ord. map (\<lambda>c. order_cells cfg (ord, c))
        (filter (\<lambda>c. o_customer_tel ord = c_telephone c) (customers db))) os) =
      map (\<lambda>ord. order_cells cfg (ord, customer_of db ord)) os" if "set os \<subseteq> set (orders db)" for os
    using that by (induction os) (simp_all add: customer_of_unique[OF assms])
  from this[of "filter P (orders db)"] show ?thesis
    by (simp add: order_rows_def order_cells_def)
qed

lemma names_ok_customer: "names_ok db \<Longrightarrow> c \<in> set (customers db) \<Longrightarrow> customer_ok c"
  by (simp add: names_ok_def customer_ok_def)

lemma names_ok_user: "names_ok db \<Longrightarrow> u \<in> set (users db) \<Longrightarrow> user_ok u"
  by (simp add: names_ok_def user_ok_def)

lemma order_row_ok:
  assumes "db_inv cfg db" and "names_ok db" and "ord \<in> set (orders db)"
  shows "order_ok_row (ord, customer_of db ord)"
proof -
  have "customer_of db ord \<in> set (filter (\<lambda>c. o_customer_tel ord = c_telephone c) (customers db))"
    by (simp only: customer_of_unique[OF assms(1,3)]) simp
  then have "customer_ok (customer_of db ord)"
    using names_ok_customer[OF assms(2)] by simp
  then show ?thesis
    using assms(1,3) by (auto simp: order_ok_row_def db_inv_def ids_ok_def id_ok_def)
qed

section \<open>The replies\<close>

context sql_server
begin

lemma get_customers_items:
  assumes "names_ok (db_of c)"
  shows "\<exists>c'. get_customers E d config c = (Value (listing E ''customers''
       (map (item_of E customers_fields [0, 1, 2, 3] \<circ> customer_cells) (customers (db_of c)))), c') \<and>
     db_of c' = db_of c"
proof -
  let ?rows = "map customer_cells (customers (db_of c))"
  have ok: "list_all (row_ok E (zip customers_fields (map int [0, 1, 2, 3]))) ?rows"
    using names_ok_customer[OF assms] customer_cells_ok by (auto simp: list_all_iff)
  have "run_call cfg (now_of c) (''GetCustomers'', []) (db_of c) =
      rows_of GetCustomers_columns ?rows (db_of c)"
    by (simp add: run_query_calls GetCustomers_def customer_cells_def[abs_def])
  then show ?thesis
    using store_reply_listing[OF _ columns_positions(1) _ ok, of "''GetCustomers''" "[]" c]
    unfolding get_customers_def query_texts by (simp add: safe_call_def)
qed

lemma get_customers_reply:
  assumes "order_ok E" and "names_ok (db_of c)"
  shows "\<exists>its c'. get_customers E d config c = (Value (listing E ''customers'' its), c') \<and>
     db_of c' = db_of c \<and> list_all2 shows_customer its (customers (db_of c))"
  using get_customers_items[OF assms(2), of E config] names_ok_customer[OF assms(2)]
    shows_customer_cells[OF assms(1)]
  by (fastforce simp: list_all2_map1 intro: list.rel_refl_strong)

lemma users_listing:
  assumes "names_ok (db_of c)" and "db_inv cfg (db_of c)"
  shows "\<exists>c'. store_reply E d (call_text ''GetUsers'' []) ''users'' users_fields c = (Value (listing E ''users''
       (map (\<lambda>u. item_of E users_fields [0, 1, 2, 3, 4] (user_cells (u, rank_of (db_of c) u)))
         (users (db_of c)))), c') \<and> db_of c' = db_of c"
proof -
  let ?rows = "map (\<lambda>u. user_cells (u, rank_of (db_of c) u)) (users (db_of c))"
  have ok: "list_all (row_ok E (zip users_fields (map int [0, 1, 2, 3, 4]))) ?rows"
    using names_ok_user[OF assms(1)] user_cells_ok by (auto simp: list_all_iff)
  have "run_call cfg (now_of c) (''GetUsers'', []) (db_of c) = rows_of GetUsers_columns ?rows (db_of c)"
    by (simp add: run_query_calls GetUsers_eq[OF assms(2)])
  then show ?thesis
    using store_reply_listing[OF _ columns_positions(2) _ ok, of "''GetUsers''" "[]" c]
    by (simp add: safe_call_def o_def)
qed

lemma get_users_items:
  assumes "names_ok (db_of c)" and "db_inv cfg (db_of c)"
    and "safe_credentials config" and "authorised cfg config [''Admin''] (db_of c)"
  shows "\<exists>c'. get_users E d config c = (Value (listing E ''users''
       (map (\<lambda>u. item_of E users_fields [0, 1, 2, 3, 4] (user_cells (u, rank_of (db_of c) u)))
         (users (db_of c)))), c') \<and> db_of c' = db_of c"
proof -
  obtain c1 where c1: "db_of c1 = db_of c"
    and g: "get_users E d config c = store_reply E d (call_text ''GetUsers'' []) ''users'' users_fields c1"
    using guarded_allowed[OF assms(3) plain_ranks_used(2) assms(4), of E
        "store_reply E d (call_text ''GetUsers'' []) ''users'' users_fields"]
    unfolding get_users_def query_texts by blast
  show ?thesis
    using users_listing[of c1 E] assms(1,2) unfolding g c1 by simp
qed

lemma get_users_reply:
  assumes "order_ok E" and "names_ok (db_of c)" and "db_inv cfg (db_of c)"
    and "safe_credentials config" and "authorised cfg config [''Admin''] (db_of c)"
  shows "\<exists>its c'. get_users E d config c = (Value (listing E ''users'' its), c') \<and>
     db_of c' = db_of c \<and>
     list_all2 shows_user its (map (\<lambda>u. (u, rank_of (db_of c) u)) (users (db_of c)))"
  using get_users_items[OF assms(2-5), of E] names_ok_user[OF assms(2)] shows_user_cells[OF assms(1)]
  by (fastforce simp: list_all2_map1 list_all2_map2 intro: list.rel_refl_strong)

lemma orders_reply:
  assumes "order_ok E" and "names_ok (db_of c)" and "db_inv cfg (db_of c)" and "days_ok cfg"
    and "safe_call name args"
    and "run_call cfg (now_of c) (name, args) (db_of c) =
      rows_of Order_columns (order_rows cfg P (db_of c)) (db_of c)"
  shows "\<exists>its c'. store_reply E d (call_text name args) table orders_fields c =
       (Value (listing E table its), c') \<and> db_of c' = db_of c \<and>
     list_all2 (shows_order cfg) its
       (map (\<lambda>ord. (ord, customer_of (db_of c) ord)) (filter P (orders (db_of c))))"
proof -
  let ?rows = "map (\<lambda>ord. order_cells cfg (ord, customer_of (db_of c) ord)) (filter P (orders (db_of c)))"
  have rows: "order_rows cfg P (db_of c) = ?rows"
    by (rule order_rows_eq[OF assms(3)])
  have ok: "list_all (row_ok E (zip orders_fields (map int [0, 1, 2, 3, 4, 5, 6, 7]))) ?rows"
    using order_row_ok[OF assms(3,2)] order_cells_ok[OF assms(4)] by (auto simp: list_all_iff)
  have "list_all2 (shows_order cfg) (map (item_of E orders_fields [0, 1, 2, 3, 4, 5, 6, 7]) ?rows)
      (map (\<lambda>ord. (ord, customer_of (db_of c) ord)) (filter P (orders (db_of c))))"
    using order_row_ok[OF assms(3,2)] shows_order_cells[OF assms(1,4)]
    by (auto simp: list.rel_map intro!: list.rel_refl_strong)
  then show ?thesis
    using store_reply_listing[OF assms(5) columns_positions(3) assms(6)[unfolded rows] ok] by blast
qed

lemma get_orders_reply:
  assumes "order_ok E" and "names_ok (db_of c)" and "db_inv cfg (db_of c)" and "days_ok cfg"
  shows "\<exists>its c'. get_orders E d config c = (Value (listing E ''orders'' its), c') \<and>
     db_of c' = db_of c \<and> list_all2 (shows_order cfg) its
       (map (\<lambda>ord. (ord, customer_of (db_of c) ord)) (orders (db_of c)))"
  using orders_reply[OF assms, of "''GetOrders''" "[]" "\<lambda>ord. True" "''orders''"]
  unfolding get_orders_def query_texts
  by (simp add: safe_call_def run_query_calls GetOrders_def)

lemma as_date_show_i64: "as_date cfg (Arg_from_unixtime (show_i64 w)) = Inr (day_of_unix cfg (sint w))"
  by (simp add: as_date_def show_i64_def parse_sint_show_int)

lemma get_completed_orders_reply:
  assumes "order_ok E" and "names_ok (db_of c)" and "db_inv cfg (db_of c)" and "days_ok cfg"
    and "get_raw_int (get_raw_ref config ''dates'') ''start_date'' = Some t1"
    and "get_raw_int (get_raw_ref config ''dates'') ''end_date'' = Some t2"
  shows "\<exists>its c'. get_completed_orders E d config c =
       (Value (listing E ''completed_orders'' its), c') \<and> db_of c' = db_of c \<and>
     list_all2 (shows_order cfg) its
       (map (\<lambda>ord. (ord, customer_of (db_of c) ord))
         (filter (completed_between (day_of_unix cfg (sint t1)) (day_of_unix cfg (sint t2)))
           (orders (db_of c))))"
proof -
  let ?args = "[Arg_from_unixtime (show_i64 t1), Arg_from_unixtime (show_i64 t2)]"
  let ?P = "completed_between (day_of_unix cfg (sint t1)) (day_of_unix cfg (sint t2))"
  have "safe_call ''GetCompletedOrders'' ?args"
    by (simp add: safe_call_def)
  moreover have "run_call cfg (now_of c) (''GetCompletedOrders'', ?args) (db_of c) =
      rows_of Order_columns (order_rows cfg ?P (db_of c)) (db_of c)"
    by (simp add: run_report_calls as_date_show_i64 GetCompletedOrders_def)
  ultimately obtain its c' where
    "store_reply E d (call_text ''GetCompletedOrders'' ?args) ''completed_orders'' orders_fields c =
       (Value (listing E ''completed_orders'' its), c')" "db_of c' = db_of c"
    "list_all2 (shows_order cfg) its
       (map (\<lambda>ord. (ord, customer_of (db_of c) ord)) (filter ?P (orders (db_of c))))"
    using orders_reply[OF assms(1-4), of "''GetCompletedOrders''" ?args ?P "''completed_orders''"]
    by blast
  then show ?thesis
    unfolding get_completed_orders_def with_dates_def try_bad_config_def Let_def int_value_def call_texts
      assms(5,6) outcome_simps
    by (auto simp: catch_all_def)
qed

text \<open>A telephone number that does not fit 63 bits ends the process.\<close>

lemma fill_customer_overflow:
  assumes "2 ^ 63 \<le> c_telephone cu"
  shows "fill_item E d (customer_cells cu) (zip customers_fields (map int [0, 1, 2, 3])) t c = (Abort, c)"
proof -
  have "cell_result E VM_Int (show_nat (c_telephone cu)) = None"
    using cell_result_Int_overflow[of "int (c_telephone cu)" E] assms by (simp add: show_int_def)
  then show ?thesis
    by (simp add: customers_fields_def FieldAndType_def customer_cells_def row_at_def outcome_simps
        cell_data_def bindM_def convert_cell_eq)
qed

lemma fill_table_abort:
  assumes "\<And>x t c. x \<in> set cs \<Longrightarrow> bad x \<Longrightarrow> fill_item E d (g x) fis t c = (Abort, c)"
    and "\<And>x. x \<in> set cs \<Longrightarrow> \<not> bad x \<Longrightarrow> row_ok E fis (g x)"
    and "\<exists>x \<in> set cs. bad x"
  shows "fill_table E d fis (map g cs) t = (\<lambda>c. (Abort, c))"
  using assms
proof (induction cs arbitrary: t)
  case (Cons x cs)
  show ?case
  proof (cases "bad x")
    case True
    with Cons.prems(1) show ?thesis
      by (intro ext) (simp add: bindM_def)
  next
    case False
    with Cons.prems have "fill_table E d fis (map g cs) t' = (\<lambda>c. (Abort, c))" for t'
      by (intro Cons.IH) auto
    with False Cons.prems(2) show ?thesis
      by (intro ext) (simp add: bindM_def fill_item_value)
  qed
qed simp

lemma fill_customers_overflow:
  assumes "cu \<in> set cs" and "2 ^ 63 \<le> c_telephone cu"
    and "\<And>x. x \<in> set cs \<Longrightarrow> customer_ok (x\<lparr>c_telephone := 0\<rparr>)"
  shows "fill_table E d (zip customers_fields (map int [0, 1, 2, 3])) (map customer_cells cs) t =
     (\<lambda>c. (Abort, c))"
proof (rule fill_table_abort[where bad = "\<lambda>x. 2 ^ 63 \<le> c_telephone x"])
  show "row_ok E (zip customers_fields (map int [0, 1, 2, 3])) (customer_cells x)"
    if "x \<in> set cs" "\<not> 2 ^ 63 \<le> c_telephone x" for x
    using assms(3)[OF that(1)] that(2) by (intro customer_cells_ok) (simp add: customer_ok_def)
qed (use assms(1,2) fill_customer_overflow in blast)+

lemma get_customers_overflow:
  assumes "cu \<in> set (customers (db_of c))" and "2 ^ 63 \<le> c_telephone cu"
    and "\<And>x. x \<in> set (customers (db_of c)) \<Longrightarrow> customer_ok (x\<lparr>c_telephone := 0\<rparr>)"
  shows "fst (get_customers E d config c) = Abort"
proof -
  have "run_call cfg (now_of c) (''GetCustomers'', []) (db_of c) =
      rows_of GetCustomers_columns (map customer_cells (customers (db_of c))) (db_of c)"
    by (simp add: run_query_calls GetCustomers_def customer_cells_def[abs_def])
  from store_reply_abort[OF _ columns_positions(1) this fill_customers_overflow[OF assms]]
  show ?thesis
    unfolding get_customers_def query_texts by (simp add: safe_call_def)
qed

end

end
