(* ===== verification/Reply_Types.thy ===== *)
theory Reply_Types
  imports Query_Replies Request_Properties
begin

text \<open>
  The types of a reply: whatever the database returns, when the conversion of a result set comes to an
  end, every field of every row has the type its handler declares, and a field is absent only where
  NULL is allowed. Values are converted or the process is ended; nothing is converted to another type.
\<close>

section \<open>One row\<close>

lemma cell_result_type: "cell_result E ty s = Some v \<Longrightarrow> type_of v = ty"
  by (cases ty) (auto simp: cell_result_def split: if_splits prod.splits)

lemma fill_item_row_ok:
  assumes "fill_item E d row fis item c = (Value item', c')"
  shows "row_ok E fis row \<and> item' = build_item E row fis item \<and> c' = c"
  using assms
proof (induction fis arbitrary: item)
  case (Cons p fis)
  obtain f i where p: "p = (f, i)" by force
  from Cons.prems obtain cell where cell: "row_at row i = Some cell"
    by (cases "row_at row i") (auto simp: p outcome_simps)
  then have at: "0 \<le> i" "nat i < length row" "cell = row ! nat i"
    by (auto simp: row_at_def split: if_splits)
  show ?case
  proof (cases cell)
    case None
    with Cons.prems cell have "\<not> deny_null f" "fill_item E d row fis item c = (Value item', c')"
      by (auto simp: p outcome_simps bindM_def assertM_def split: if_splits)
    moreover have "row ! nat i = None" using at(3) None by simp
    ultimately show ?thesis using Cons.IH[of item] at(1,2)
      by (auto simp: p row_ok_def cell_ok_def)
  next
    case (Some s)
    with Cons.prems cell obtain v where v: "cell_result E (field_type f) s = Some v"
      and rest: "fill_item E d row fis (set_raw E item (field_name f) v) c = (Value item', c')"
      by (auto simp: p outcome_simps bindM_def assertM_def cell_data_def convert_cell_eq
          split: if_splits option.splits)
    have "row ! nat i = Some s" using at(3) Some by simp
    with Cons.IH[OF rest] at(1,2) v show ?thesis
      by (auto simp: p row_ok_def cell_ok_def)
  qed
qed (simp add: row_ok_def outcome_simps)

definition typed_field :: "lua \<Rightarrow> field_and_type \<Rightarrow> bool" where
  "typed_field item f \<longleftrightarrow> type_of (get_raw_ref item (field_name f)) = field_type f \<or>
     (\<not> deny_null f \<and> get_raw_ref item (field_name f) = LNil)"

lemma build_item_typed:
  assumes "order_ok E" and "distinct (map (field_name \<circ> fst) fis)" and "row_ok E fis row"
    and "(f, i) \<in> set fis"
  shows "typed_field (build_item E row fis create_table) f"
proof -
  have "map fst (map (\<lambda>p. (field_name (fst p), p)) fis) = map (field_name \<circ> fst) fis" by simp
  then have "field_index fis (field_name f) = Some (f, i)"
    unfolding field_index_def using assms(2,4)
    by (intro map_of_is_SomeI) (auto simp: image_iff o_def intro!: bexI)
  then have "get_raw_ref (build_item E row fis create_table) (field_name f) =
      row_field E row (f, i) (get_raw_ref create_table (field_name f))"
    using build_item_ref[OF assms(1) _ assms(2), of "[]" row "[]" "field_name f"] by (simp add: create_table_def)
  moreover have "get_raw_ref create_table k = LNil" for k
    by (simp add: get_raw_ref_def create_table_def)
  moreover have "cell_ok E f (row ! nat i)" using assms(3,4) by (auto simp: row_ok_def)
  ultimately show ?thesis
    by (auto simp: typed_field_def row_field_def cell_ok_def split: option.splits dest: cell_result_type)
qed

section \<open>All rows\<close>

lemma fill_table_rows_ok:
  assumes "fill_table E d fis rows (LTable fs arr) c = (Value t, c')"
  shows "list_all (row_ok E fis) rows \<and> c' = c \<and>
     t = LTable fs (arr @ map (\<lambda>row. build_item E row fis create_table) rows)"
  using assms
proof (induction rows arbitrary: arr)
  case (Cons row rows)
  obtain r c1 where r: "fill_item E d row fis create_table c = (r, c1)" by force
  with Cons.prems obtain item where item: "r = Value item" by (cases r) (auto simp: bindM_def)
  from fill_item_row_ok[OF r[unfolded item]] have "row_ok E fis row"
    "item = build_item E row fis create_table" "c1 = c" by auto
  moreover from this Cons.prems have "fill_table E d fis rows (LTable fs (arr @ [item])) c = (Value t, c')"
    by (simp add: bindM_def r item push_raw_def)
  ultimately show ?case using Cons.IH[of "arr @ [item]"] by simp
qed (simp add: outcome_simps)

lemma find_indices_zip:
  assumes "find_indices d res flds c = (Value is, c')"
  shows "length is = length flds \<and> c' = c"
  using assms
proof (induction flds arbitrary: "is")
  case (Cons f fs)
  obtain r c1 where r: "find_indices d res fs c = (r, c1)" by force
  with Cons.prems obtain js where "r = Value js" "is = field_num d (sr_columns res) (field_name f) # js" "c1 = c'"
    by (cases r) (auto simp: Let_def bindM_def assertM_def outcome_simps split: if_splits)
  with Cons.IH[of js] r show ?case by simp
qed (simp add: outcome_simps)

text \<open>
  C32: When the conversion of a result set returns, its text is a printed list with one table per row, in
  the order of the rows, in which every field the handler asks for has the declared type, or is
  absent where the handler allows NULL; the connection is not touched.
\<close>

theorem reply_fields_typed:
  assumes "order_ok E" and "distinct (map field_name flds)"
    and "serialize_query_result E d res name flds c = (Value out, c')"
  shows "\<exists>its. out = LuaConfSerialize E (LTable [] its) name 0 \<and> c' = c \<and>
     length its = length (sr_rows res) \<and> (\<forall>item \<in> set its. \<forall>f \<in> set flds. typed_field item f)"
proof -
  obtain r c1 where r: "find_indices d res flds c = (r, c1)" by force
  with assms(3) obtain ixs where ixs: "r = Value ixs"
    by (cases r) (auto simp: serialize_query_result_def bindM_def)
  from find_indices_zip[OF r[unfolded ixs]] have len: "length ixs = length flds" and c1: "c1 = c" by auto
  let ?fis = "zip flds ixs"
  obtain r2 c2 where r2: "fill_table E d ?fis (sr_rows res) (LTable [] []) c = (r2, c2)" by force
  with assms(3) obtain t where t: "r2 = Value t" and out: "out = LuaConfSerialize E t name 0" and "c' = c2"
    by (cases r2) (auto simp: serialize_query_result_def bindM_def r ixs c1 create_table_def outcome_simps)
  from fill_table_rows_ok[OF r2[unfolded t]] have rows: "list_all (row_ok E ?fis) (sr_rows res)" and "c2 = c"
    and its: "t = LTable [] (map (\<lambda>row. build_item E row ?fis create_table) (sr_rows res))" by auto
  have names: "distinct (map (field_name \<circ> fst) ?fis)"
    using assms(2) len by (metis map_fst_zip map_map)
  have "typed_field (build_item E row ?fis create_table) f" if row: "row \<in> set (sr_rows res)" and f: "f \<in> set flds" for row f
  proof -
    obtain i where "(f, i) \<in> set ?fis" using f len by (metis in_set_impl_in_set_zip1)
    then show ?thesis using build_item_typed[OF assms(1) names] rows row by (auto simp: list_all_iff)
  qed
  then show ?thesis
    unfolding out its \<open>c' = c2\<close> \<open>c2 = c\<close>
    by (intro exI[of _ "map (\<lambda>row. build_item E row ?fis create_table) (sr_rows res)"]) simp
qed

text \<open>Two rows, one with a NULL that is allowed.\<close>

definition sample_result :: store_result where
  "sample_result = \<lparr>sr_ok = True, sr_columns = [''id'', ''name''],
     sr_rows = [[Some (show_i64 1), Some ''a''], [Some (show_i64 2), None]]\<rparr>"

theorem reply_fields_typed_witness:
  "\<exists>out its. serialize_query_result sample_env (session_driver sample_cfg sample_other no_id) sample_result ''t''
       [FieldAndType ''id'' VM_Int, FieldAndType_null ''name'' VM_String] sample_session = (Value out, sample_session) \<and>
     out = LuaConfSerialize sample_env (LTable [] its) ''t'' 0 \<and> length its = 2 \<and>
     (\<forall>item \<in> set its. typed_field item (FieldAndType_null ''name'' VM_String))"
proof -
  let ?d = "session_driver sample_cfg sample_other no_id"
  let ?flds = "[FieldAndType ''id'' VM_Int, FieldAndType_null ''name'' VM_String]"
  have "col_indices ?d sample_result ?flds = [0, 1]"
    by (simp add: col_indices_def session_driver_def sample_result_def FieldAndType_def FieldAndType_null_def
        lower_char_def)
  then have "result_ok sample_env ?d sample_result ?flds"
    by (simp add: result_ok_def row_ok_def cell_ok_def sample_result_def FieldAndType_def FieldAndType_null_def)
  note run = serialize_query_result_value[OF this, of "''t''" sample_session]
  have "order_ok sample_env" by (simp add: order_ok_def sample_env_def)
  moreover have "distinct (map field_name ?flds)"
    by (simp add: FieldAndType_def FieldAndType_null_def)
  ultimately obtain its where "LuaConfSerialize sample_env (result_table sample_env ?d sample_result ?flds) ''t'' 0 =
      LuaConfSerialize sample_env (LTable [] its) ''t'' 0" "length its = length (sr_rows sample_result)"
    "\<forall>item \<in> set its. \<forall>f \<in> set ?flds. typed_field item f"
    using reply_fields_typed[OF _ _ run] by blast
  then show ?thesis
    using run by (auto simp: sample_result_def)
qed

end
