(* ===== verification/Connection.thy ===== *)
theory Connection
  imports Request_Table Database_Invariant
begin

text \<open>
  The life of one connection (pc_course_server/Connection.cpp): the asynchronous read, the timer
  that bounds it, the processing of the message and the asynchronous write. The handlers run on
  the threads of one \<open>io_context\<close> without a strand, so the handler of a read and the handler of an
  expired timer of the same connection can run at the same time. The state keeps the operations
  that are outstanding; a step is a completion, or what a handler does between two accesses to the
  atomic flag \<open>is_timeout\<close>. \<open>process\<close> is the reply to a message, with the end marker.
\<close>

section \<open>The message in the buffer\<close>

text \<open>
  \<open>std::getline(istr, request_str, '\r')\<close>: the text up to the first carriage return, which need not
  be part of the end marker the read waited for, and the rest of the buffer.
\<close>

definition CR :: char where "CR = CHR 0x0D"

definition getline :: "char \<Rightarrow> string \<Rightarrow> string \<times> string" where
  "getline delim buf = (takeWhile (\<lambda>c. c \<noteq> delim) buf, drop 1 (dropWhile (\<lambda>c. c \<noteq> delim) buf))"

definition holds_marker :: "string \<Rightarrow> string \<Rightarrow> bool" where
  "holds_marker marker buf \<longleftrightarrow>
     list_ex (\<lambda>i. take (length marker) (drop i buf) = marker) [0..<Suc (length buf)]"

section \<open>The state\<close>

datatype read_error = Read_eof | Read_aborted | Read_other

datatype io_state =
    IO_reading
  | IO_read (read_result: "read_error + unit")
  | IO_processing string
  | IO_writing string
  | IO_written bool string
  | IO_ended

text \<open>
  \<open>armed\<close>: a wait of the timer is outstanding. \<open>fired\<close>, \<open>tested\<close>, \<open>cancelled\<close>: how many expired
  timer handlers stand before their test of the flag, between the test and \<open>socket.cancel()\<close>, and
  between that and setting the flag. \<open>served\<close> and \<open>replies\<close> record the messages that were processed
  and the texts that were sent completely.
\<close>

record connection =
  input_buf :: string
  is_timeout :: bool
  io :: io_state
  armed :: bool
  fired :: nat
  tested :: nat
  cancelled :: nat
  served :: "string list"
  replies :: "string list"

section \<open>The operations\<close>

definition ReadRequest :: "connection \<Rightarrow> connection" where
  "ReadRequest c = c\<lparr>input_buf := [], is_timeout := False, io := IO_reading, armed := True\<rparr>"

definition Create :: connection where
  "Create = \<lparr>input_buf = [], is_timeout = False, io = IO_ended, armed = False, fired = 0, tested = 0,
     cancelled = 0, served = [], replies = []\<rparr>"

definition Start :: "connection \<Rightarrow> connection" where
  "Start c = ReadRequest c"

text \<open>The handler of the read; \<open>timer.cancel()\<close> ends a wait that has not expired.\<close>

definition read_handler :: "read_error + unit \<Rightarrow> connection \<Rightarrow> connection" where
  "read_handler result c =
     (let prev_flag = is_timeout c; c = c\<lparr>is_timeout := True\<rparr> in
      if prev_flag then c\<lparr>io := IO_ended\<rparr>
      else case result of
        Inl Read_eof \<Rightarrow> c\<lparr>armed := False, io := IO_ended\<rparr>
      | Inl Read_aborted \<Rightarrow> c\<lparr>io := IO_ended\<rparr>
      | Inl Read_other \<Rightarrow> c\<lparr>armed := False, io := IO_ended\<rparr>
      | Inr _ \<Rightarrow> (case getline CR (input_buf c) of (request_str, rest) \<Rightarrow>
          c\<lparr>armed := False, input_buf := rest, io := IO_processing request_str\<rparr>))"

definition ProcessRequest :: "(string \<Rightarrow> string) \<Rightarrow> string \<Rightarrow> connection \<Rightarrow> connection" where
  "ProcessRequest process request_str c =
     c\<lparr>served := served c @ [request_str], io := IO_writing (process request_str)\<rparr>"

definition write_handler :: "bool \<Rightarrow> string \<Rightarrow> connection \<Rightarrow> connection" where
  "write_handler ok output_str c =
     (if \<not> ok then c\<lparr>io := IO_ended\<rparr> else ReadRequest (c\<lparr>replies := replies c @ [output_str]\<rparr>))"

text \<open>\<open>socket.cancel()\<close> completes the outstanding operation with \<open>operation_aborted\<close>.\<close>

definition socket_cancel :: "connection \<Rightarrow> connection" where
  "socket_cancel c = (case io c of
      IO_reading \<Rightarrow> c\<lparr>io := IO_read (Inl Read_aborted)\<rparr>
    | IO_writing s \<Rightarrow> c\<lparr>io := IO_written False s\<rparr>
    | _ \<Rightarrow> c)"

text \<open>The three parts of the timer's handler, and the handler run in one go.\<close>

definition timer_test :: "connection \<Rightarrow> connection" where
  "timer_test c = (if \<not> is_timeout c then c\<lparr>fired := fired c - 1, tested := tested c + 1\<rparr>
     else c\<lparr>fired := fired c - 1\<rparr>)"

definition timer_cancel :: "connection \<Rightarrow> connection" where
  "timer_cancel c = socket_cancel (c\<lparr>tested := tested c - 1, cancelled := cancelled c + 1\<rparr>)"

definition timer_set :: "connection \<Rightarrow> connection" where
  "timer_set c = c\<lparr>is_timeout := True, cancelled := cancelled c - 1\<rparr>"

definition timer_handler :: "connection \<Rightarrow> connection" where
  "timer_handler c = (if \<not> is_timeout c then timer_set (timer_cancel (timer_test c)) else timer_test c)"

section \<open>The steps\<close>

text \<open>Completions: the network and the clock.\<close>

inductive completion :: "string \<Rightarrow> connection \<Rightarrow> connection \<Rightarrow> bool" for marker where
  data: "io c = IO_reading \<Longrightarrow> holds_marker marker buf \<Longrightarrow>
     completion marker c (c\<lparr>input_buf := buf, io := IO_read (Inr ())\<rparr>)"
| read_fails: "io c = IO_reading \<Longrightarrow> e \<noteq> Read_aborted \<Longrightarrow>
     completion marker c (c\<lparr>io := IO_read (Inl e)\<rparr>)"
| written: "io c = IO_writing s \<Longrightarrow> completion marker c (c\<lparr>io := IO_written ok s\<rparr>)"
| expires: "armed c \<Longrightarrow> completion marker c (c\<lparr>armed := False, fired := fired c + 1\<rparr>)"

inductive io_step :: "(string \<Rightarrow> string) \<Rightarrow> connection \<Rightarrow> connection \<Rightarrow> bool" for process where
  read_done: "io c = IO_read r \<Longrightarrow> io_step process c (read_handler r c)"
| processed: "io c = IO_processing s \<Longrightarrow> io_step process c (ProcessRequest process s c)"
| write_done: "io c = IO_written ok s \<Longrightarrow> io_step process c (write_handler ok s c)"

text \<open>With several threads the parts of the timer's handler are steps; with one it is one step.\<close>

inductive threaded_step :: "(string \<Rightarrow> string) \<Rightarrow> string \<Rightarrow> connection \<Rightarrow> connection \<Rightarrow> bool"
  for process marker where
  completion: "completion marker c c' \<Longrightarrow> threaded_step process marker c c'"
| io: "io_step process c c' \<Longrightarrow> threaded_step process marker c c'"
| test: "0 < fired c \<Longrightarrow> threaded_step process marker c (timer_test c)"
| cancel: "0 < tested c \<Longrightarrow> threaded_step process marker c (timer_cancel c)"
| set: "0 < cancelled c \<Longrightarrow> threaded_step process marker c (timer_set c)"

inductive single_step :: "(string \<Rightarrow> string) \<Rightarrow> string \<Rightarrow> connection \<Rightarrow> connection \<Rightarrow> bool"
  for process marker where
  completion: "completion marker c c' \<Longrightarrow> single_step process marker c c'"
| io: "io_step process c c' \<Longrightarrow> single_step process marker c c'"
| timer: "0 < fired c \<Longrightarrow> single_step process marker c (timer_handler c)"

inductive_cases completionE: "completion marker c c'"
inductive_cases io_stepE: "io_step process c c'"
inductive_cases threaded_stepE: "threaded_step process marker c c'"
inductive_cases single_stepE: "single_step process marker c c'"

lemmas connection_defs = ReadRequest_def read_handler_def ProcessRequest_def write_handler_def
  socket_cancel_def timer_test_def timer_cancel_def timer_set_def timer_handler_def Let_def

section \<open>Invariants\<close>

text \<open>
  Each message that was processed is answered once, in order: the replies sent are those to the
  messages served, except that the last one may still be on its way or be lost; while a request is
  processed or answered the flag is set and no wait is outstanding.
\<close>

definition pending :: "io_state \<Rightarrow> string list" where
  "pending s = (case s of IO_writing t \<Rightarrow> [t] | IO_written b t \<Rightarrow> [t] | _ \<Rightarrow> [])"

definition busy :: "io_state \<Rightarrow> bool" where
  "busy s = (case s of IO_processing t \<Rightarrow> True | IO_writing t \<Rightarrow> True | IO_written b t \<Rightarrow> True | _ \<Rightarrow> False)"

definition connection_inv :: "(string \<Rightarrow> string) \<Rightarrow> connection \<Rightarrow> bool" where
  "connection_inv process c \<longleftrightarrow>
     (if io c = IO_ended
      then map process (served c) = replies c \<or> (\<exists>lost. map process (served c) = replies c @ [lost])
      else map process (served c) = replies c @ pending (io c)) \<and>
     (busy (io c) \<longrightarrow> is_timeout c \<and> \<not> armed c)"

lemma completion_inv: "completion marker c c' \<Longrightarrow> connection_inv process c \<Longrightarrow> connection_inv process c'"
  by (erule completionE) (auto simp: connection_inv_def pending_def busy_def split: io_state.splits)

lemma io_step_inv: "io_step process c c' \<Longrightarrow> connection_inv process c \<Longrightarrow> connection_inv process c'"
  by (erule io_stepE) (auto simp: connection_inv_def pending_def busy_def connection_defs
      split: sum.splits read_error.splits prod.splits)

lemma timer_inv:
  assumes "connection_inv process c"
  shows "connection_inv process (timer_test c)" and "connection_inv process (timer_cancel c)"
    and "connection_inv process (timer_set c)"
  using assms
  by (auto simp: connection_inv_def pending_def busy_def connection_defs split: io_state.splits)

lemma timer_handler_inv: "connection_inv process c \<Longrightarrow> connection_inv process (timer_handler c)"
  by (simp add: timer_handler_def timer_inv)

interpretation threaded: invariant_system "\<lambda>c. c = Start Create" "threaded_step process marker"
  "connection_inv process" for process marker
proof unfold_locales
  show "connection_inv process c" if "c = Start Create" for c
    using that by (simp add: connection_inv_def Start_def Create_def ReadRequest_def pending_def busy_def)
  show "connection_inv process c'" if "threaded_step process marker c c'" "connection_inv process c" for c c'
    using that by (elim threaded_stepE) (auto intro: completion_inv io_step_inv timer_inv)
qed

end
