(* ===== verification/Connection_Properties.thy ===== *)
theory Connection_Properties
  imports Connection
begin

text \<open>
  The properties of a connection: replies in order, what one thread guarantees and several do not,
  the disconnection of a silent client, and what happens to data behind the first message.
\<close>

section \<open>Sample runs\<close>

definition reply_of :: "string \<Rightarrow> string" where "reply_of m = m @ [CR]"

text \<open>A run of the whole cycle: the message in \<open>buf\<close> is read, processed and answered.\<close>

definition answered :: "(string \<Rightarrow> string) \<Rightarrow> string \<Rightarrow> connection \<Rightarrow> connection" where
  "answered process buf c =
     (let m = fst (getline CR buf) in
      ReadRequest (c\<lparr>served := served c @ [m], replies := replies c @ [process m]\<rparr>))"

lemma threaded_trans:
  "threaded_step p mk c c1 \<Longrightarrow> (threaded_step p mk)\<^sup>*\<^sup>* c1 c2 \<Longrightarrow> (threaded_step p mk)\<^sup>*\<^sup>* c c2"
  by (rule converse_rtranclp_into_rtranclp)

lemma threaded_answers:
  assumes "holds_marker marker buf" and "io c = IO_reading" and "\<not> is_timeout c"
  shows "\<exists>c'. (threaded_step process marker)\<^sup>*\<^sup>* c c' \<and> io c' = IO_reading \<and>
     served c' = served c @ [fst (getline CR buf)] \<and>
     replies c' = replies c @ [process (fst (getline CR buf))] \<and>
     fired c' = fired c \<and> tested c' = tested c \<and> \<not> is_timeout c' \<and> input_buf c' = [] \<and> armed c'"
proof -
  let ?m = "fst (getline CR buf)"
  let ?c1 = "c\<lparr>input_buf := buf, io := IO_read (Inr ())\<rparr>"
  let ?c2 = "read_handler (Inr ()) ?c1"
  let ?c3 = "ProcessRequest process ?m ?c2"
  let ?c4 = "?c3\<lparr>io := IO_written True (process ?m)\<rparr>"
  let ?c5 = "write_handler True (process ?m) ?c4"
  have io2: "io ?c2 = IO_processing ?m"
    using assms(3) by (simp add: connection_defs split: prod.split)
  have io3: "io ?c3 = IO_writing (process ?m)"
    by (simp add: ProcessRequest_def)
  have "threaded_step process marker c ?c1"
    by (intro threaded_step.completion completion.data assms)
  moreover have "threaded_step process marker ?c1 ?c2"
    by (intro threaded_step.io io_step.read_done) simp
  moreover have "threaded_step process marker ?c2 ?c3"
    by (intro threaded_step.io io_step.processed io2)
  moreover have "threaded_step process marker ?c3 ?c4"
    by (intro threaded_step.completion completion.written io3)
  moreover have "threaded_step process marker ?c4 ?c5"
    by (intro threaded_step.io io_step.write_done) simp
  ultimately have "(threaded_step process marker)\<^sup>*\<^sup>* c ?c5"
    by (meson rtranclp.rtrancl_into_rtrancl rtranclp.rtrancl_refl)
  moreover have "io ?c5 = IO_reading \<and> served ?c5 = served c @ [?m] \<and>
     replies ?c5 = replies c @ [process ?m] \<and> fired ?c5 = fired c \<and> tested ?c5 = tested c \<and>
     \<not> is_timeout ?c5 \<and> input_buf ?c5 = [] \<and> armed ?c5"
    using assms(3) by (simp add: connection_defs split: prod.split)
  ultimately show ?thesis by blast
qed

lemma start_reading [simp]:
  "io (Start Create) = IO_reading" "\<not> is_timeout (Start Create)" "served (Start Create) = []"
  "replies (Start Create) = []" "armed (Start Create)"
  by (simp_all add: Start_def Create_def ReadRequest_def)

section \<open>Replies\<close>

text \<open>
  However the handlers of a connection interleave, the replies that were sent are the replies to
  the messages that were processed, in their order and each once; at most the last one is missing.
\<close>

theorem replies_in_order:
  assumes "(threaded_step process marker)\<^sup>*\<^sup>* (Start Create) c"
  shows "\<exists>rest. map process (served c) = replies c @ rest \<and> length rest \<le> 1"
proof -
  have "connection_inv process c"
    using threaded.reachable_inv[OF _ assms] by simp
  then show ?thesis
    by (auto simp: connection_inv_def pending_def split: if_splits io_state.splits)
qed

theorem replies_in_order_witness:
  "\<exists>c rest. (threaded_step reply_of [CR])\<^sup>*\<^sup>* (Start Create) c \<and> served c = [''a''] \<and>
     map reply_of (served c) = replies c @ rest \<and> length rest \<le> 1"
proof -
  have "holds_marker [CR] [CHR ''a'', CR]" and "fst (getline CR [CHR ''a'', CR]) = ''a''"
    by (simp_all add: holds_marker_def getline_def CR_def)
  then obtain c where "(threaded_step reply_of [CR])\<^sup>*\<^sup>* (Start Create) c" "served c = [''a'']"
    using threaded_answers[of "[CR]" "[CHR ''a'', CR]" "Start Create" reply_of] by auto
  then show ?thesis using replies_in_order by blast
qed

section \<open>One thread and several\<close>

lemma single_inv: "(single_step process marker)\<^sup>*\<^sup>* (Start Create) c \<Longrightarrow> connection_inv process c"
proof (induction rule: rtranclp_induct)
  case base
  then show ?case
    using threaded.reachable_inv[of "Start Create" process marker "Start Create"] by simp
next
  case (step c c')
  then show ?case
    by (auto elim!: single_stepE intro: completion_inv io_step_inv timer_handler_inv)
qed

text \<open>
  C27: When the handlers run one at a time, the timer never touches a request that is being processed
  or answered: its handler leaves the outstanding operation and the reply alone.
\<close>

theorem single_thread_timer_harmless:
  assumes "(single_step process marker)\<^sup>*\<^sup>* (Start Create) c" and "busy (io c)"
  shows "io (timer_handler c) = io c \<and> replies (timer_handler c) = replies c \<and> is_timeout (timer_handler c)"
  using single_inv[OF assms(1)] assms(2) by (simp add: connection_inv_def timer_handler_def timer_test_def)

theorem single_thread_timer_harmless_witness:
  "\<exists>c. io c = IO_processing ''a'' \<and> fired c = 1 \<and> io (timer_handler c) = IO_processing ''a''"
proof -
  let ?c0 = "Start Create"
  let ?c1 = "?c0\<lparr>input_buf := [CHR ''a'', CR], io := IO_read (Inr ())\<rparr>"
  let ?c2 = "?c1\<lparr>armed := False, fired := fired ?c1 + 1\<rparr>"
  let ?c3 = "read_handler (Inr ()) ?c2"
  have "single_step reply_of [CR] ?c0 ?c1"
    by (intro single_step.completion completion.data) (simp_all add: holds_marker_def CR_def)
  moreover have "single_step reply_of [CR] ?c1 ?c2"
    by (intro single_step.completion completion.expires) simp
  moreover have "single_step reply_of [CR] ?c2 ?c3"
    by (intro single_step.io io_step.read_done) simp
  ultimately have run: "(single_step reply_of [CR])\<^sup>*\<^sup>* ?c0 ?c3"
    by (meson rtranclp.rtrancl_into_rtrancl rtranclp.rtrancl_refl)
  have c3: "io ?c3 = IO_processing ''a''" "fired ?c3 = 1"
    by (simp_all add: Start_def Create_def connection_defs getline_def CR_def)
  then have "busy (io ?c3)" by (simp add: busy_def)
  from single_thread_timer_harmless[OF run this] c3 show ?thesis by metis
qed

text \<open>
  With several threads it does: from a fresh connection and any message there is a run in which
  the request has been processed and its reply is being written when the timer's handler, which
  had tested the flag before, cancels the write; the reply is lost.
\<close>

theorem threaded_timer_cancels_reply:
  assumes "holds_marker marker buf"
  shows "\<exists>c m. m = fst (getline CR buf) \<and> (threaded_step process marker)\<^sup>*\<^sup>* (Start Create) c \<and>
     served c = [m] \<and> replies c = [] \<and> io c = IO_writing (process m) \<and> 0 < tested c \<and>
     io (timer_cancel c) = IO_written False (process m)"
proof -
  let ?m = "fst (getline CR buf)"
  let ?c0 = "Start Create"
  let ?c1 = "?c0\<lparr>armed := False, fired := fired ?c0 + 1\<rparr>"
  let ?c2 = "timer_test ?c1"
  let ?c3 = "?c2\<lparr>input_buf := buf, io := IO_read (Inr ())\<rparr>"
  let ?c4 = "read_handler (Inr ()) ?c3"
  let ?c5 = "ProcessRequest process ?m ?c4"
  have io2: "io ?c2 = IO_reading"
    by (simp add: timer_test_def)
  have io4: "io ?c4 = IO_processing ?m"
    by (simp add: Start_def Create_def connection_defs split: prod.split)
  have "threaded_step process marker ?c0 ?c1"
    by (intro threaded_step.completion completion.expires) simp
  moreover have "threaded_step process marker ?c1 ?c2"
    by (intro threaded_step.test) simp
  moreover have "threaded_step process marker ?c2 ?c3"
    by (intro threaded_step.completion completion.data assms io2)
  moreover have "threaded_step process marker ?c3 ?c4"
    by (intro threaded_step.io io_step.read_done) simp
  moreover have "threaded_step process marker ?c4 ?c5"
    by (intro threaded_step.io io_step.processed io4)
  ultimately have "(threaded_step process marker)\<^sup>*\<^sup>* ?c0 ?c5"
    by (meson rtranclp.rtrancl_into_rtrancl rtranclp.rtrancl_refl)
  moreover have "served ?c5 = [?m]" "replies ?c5 = []" "io ?c5 = IO_writing (process ?m)"
    "0 < tested ?c5" "io (timer_cancel ?c5) = IO_written False (process ?m)"
    by (simp_all add: Start_def Create_def connection_defs split: prod.split)
  ultimately show ?thesis by blast
qed

theorem threaded_timer_cancels_reply_witness:
  "\<exists>c. (threaded_step reply_of [CR])\<^sup>*\<^sup>* (Start Create) c \<and> served c = [''a''] \<and>
     io (timer_cancel c) = IO_written False (reply_of ''a'')"
proof -
  have "holds_marker [CR] [CHR ''a'', CR]" and "fst (getline CR [CHR ''a'', CR]) = ''a''"
    by (simp_all add: holds_marker_def getline_def CR_def)
  then show ?thesis
    using threaded_timer_cancels_reply[of "[CR]" "[CHR ''a'', CR]" reply_of] by auto
qed

section \<open>The timeout\<close>

text \<open>
  The timer ends a read that is outstanding: once its handler has passed the test and cancelled
  the socket, the connection ends, whether the flag is set before or after the read's handler runs,
  and no message is processed.
\<close>

theorem timeout_ends_read:
  assumes "io c = IO_reading" and "\<not> is_timeout c"
  shows "let c' = timer_cancel (timer_test c) in
     io c' = IO_read (Inl Read_aborted) \<and>
     io (read_handler (Inl Read_aborted) c') = IO_ended \<and>
     io (read_handler (Inl Read_aborted) (timer_set c')) = IO_ended \<and>
     served (read_handler (Inl Read_aborted) c') = served c"
  using assms by (simp add: connection_defs)

theorem timeout_ends_read_witness:
  "io (read_handler (Inl Read_aborted) (timer_cancel (timer_test (Start Create)))) = IO_ended"
  using timeout_ends_read[of "Start Create"] by (simp add: Let_def)

section \<open>Data behind the first message\<close>

text \<open>
  When a read brings more than one message, only the text up to the first carriage return is
  processed; everything behind it is thrown away when the reply has been written and the next read
  begins.
\<close>

theorem pipelined_data_dropped:
  assumes "CR \<notin> set m"
  shows "let c1 = read_handler (Inr ()) (c\<lparr>input_buf := m @ CR # rest, is_timeout := False\<rparr>);
      c2 = write_handler True (process m) (ProcessRequest process m c1) in
     io c1 = IO_processing m \<and> input_buf c1 = rest \<and> served c2 = served c @ [m] \<and>
     io c2 = IO_reading \<and> input_buf c2 = []"
proof -
  have "takeWhile (\<lambda>c. c \<noteq> CR) (m @ CR # rest) = m" "dropWhile (\<lambda>c. c \<noteq> CR) (m @ CR # rest) = CR # rest"
    using assms by (auto simp: takeWhile_append dropWhile_append)
  then show ?thesis
    by (simp add: connection_defs getline_def)
qed

theorem pipelined_data_dropped_witness:
  "input_buf (write_handler True [] (ProcessRequest (\<lambda>s. []) ''a''
     (read_handler (Inr ()) (Create\<lparr>input_buf := ''a'' @ CR # ''b'' @ [CR], is_timeout := False\<rparr>)))) = []"
  using pipelined_data_dropped[where m = "''a''" and c = Create and rest = "''b'' @ [CR]" and process = "\<lambda>s. []"]
  by (simp add: CR_def Let_def)

end
