(* ===== verification/Server_Connections.thy ===== *)
theory Server_Connections
  imports Connection_Properties Request_Properties
begin

text \<open>
  The running server: any number of connections (Server.cpp, \<open>accept\<close>), each with its read, timer and
  write handlers (Connection.cpp), over one database. Handlers of all connections interleave at the
  steps of \<open>Connection\<close>; the processing of one message (\<open>ProcessRequest\<close>) is one step, with respect to
  the database, which is the case for one thread, and for several when the requests do not overlap.
  What does not change while the server runs is in the record \<open>service_setup\<close>.
\<close>

section \<open>The state\<close>

record service_setup =
  su_env :: env
  su_cfg :: sql_config
  su_other :: "sql_error \<Rightarrow> string"
  su_ins :: "db \<Rightarrow> db \<Rightarrow> 64 word"
  su_exec :: "string \<Rightarrow> lua option"
  su_walk :: "(string \<times> session handler) list"
  su_marker :: string
  su_resets :: bool

text \<open>
  The log is not part of the program: which connection got which reply to which message, at which
  time of the system clock, and how the clock of the database server went on.
\<close>

datatype event = Tick int | Served nat string int string

record server =
  connections :: "connection list"
  accepting :: bool
  down :: bool
  database :: session
  log :: "event list"

definition Running_server :: "session \<Rightarrow> server" where
  "Running_server s = \<lparr>connections = [], accepting = True, down = False, database = s, log = []\<rparr>"

section \<open>The steps\<close>

text \<open>One message, at time \<open>t\<close>, with the end marker that \<open>WriteRespone\<close> appends.\<close>

definition serve :: "service_setup \<Rightarrow> int \<Rightarrow> string \<Rightarrow> session \<Rightarrow> string outcome \<times> session" where
  "serve P t m s =
     (case process_request (su_env P\<lparr>clock := t\<rparr>) (session_driver (su_cfg P) (su_other P) (su_ins P))
        (su_exec P) (su_walk P) m s of
        (Value r, s') \<Rightarrow> (Value (write_response (su_marker P) r), s')
      | (Throw e, s') \<Rightarrow> (Throw e, s')
      | (Abort, s') \<Rightarrow> (Abort, s')
      | (Diverge, s') \<Rightarrow> (Diverge, s'))"

text \<open>What a connection does without the database.\<close>

inductive transport_step :: "string \<Rightarrow> connection \<Rightarrow> connection \<Rightarrow> bool" for marker where
  completion: "completion marker c c' \<Longrightarrow> transport_step marker c c'"
| read_done: "io c = IO_read r \<Longrightarrow> transport_step marker c (read_handler r c)"
| write_done: "io c = IO_written ok s \<Longrightarrow> transport_step marker c (write_handler ok s c)"
| test: "0 < fired c \<Longrightarrow> transport_step marker c (timer_test c)"
| cancel: "0 < tested c \<Longrightarrow> transport_step marker c (timer_cancel c)"
| set: "0 < cancelled c \<Longrightarrow> transport_step marker c (timer_set c)"

text \<open>
  The handlers print \<open>socket.remote_endpoint()\<close> when a connection was accepted, when a read comes too late, is
  aborted or meets the end of the data, and when a write does. The call throws when the peer has reset
  the connection by then, which \<open>su_resets\<close> allows.
\<close>

definition prints_endpoint :: "connection \<Rightarrow> bool" where
  "prints_endpoint c \<longleftrightarrow> (case io c of
      IO_read r \<Rightarrow> is_timeout c \<or> r = Inl Read_eof \<or> r = Inl Read_aborted
    | IO_written ok s \<Rightarrow> \<not> ok
    | _ \<Rightarrow> False)"

text \<open>
  \<open>accept\<close> starts the next \<open>accept\<close> only when it has succeeded. An exception or a failed assertion in a
  handler leaves the function of its thread and ends the process.
\<close>

inductive service_step :: "service_setup \<Rightarrow> server \<Rightarrow> server \<Rightarrow> bool" for P where
  accepted: "\<not> down sv \<Longrightarrow> accepting sv \<Longrightarrow>
     service_step P sv (sv\<lparr>connections := connections sv @ [Start Create]\<rparr>)"
| accept_throws: "\<not> down sv \<Longrightarrow> accepting sv \<Longrightarrow> su_resets P \<Longrightarrow> service_step P sv (sv\<lparr>down := True\<rparr>)"
| endpoint_throws: "\<not> down sv \<Longrightarrow> i < length (connections sv) \<Longrightarrow> prints_endpoint (connections sv ! i) \<Longrightarrow>
     su_resets P \<Longrightarrow> service_step P sv (sv\<lparr>down := True\<rparr>)"
| accept_fails: "\<not> down sv \<Longrightarrow> accepting sv \<Longrightarrow> service_step P sv (sv\<lparr>accepting := False\<rparr>)"
| transport: "\<not> down sv \<Longrightarrow> i < length (connections sv) \<Longrightarrow> transport_step (su_marker P) (connections sv ! i) c \<Longrightarrow>
     service_step P sv (sv\<lparr>connections := (connections sv)[i := c]\<rparr>)"
| request: "\<not> down sv \<Longrightarrow> i < length (connections sv) \<Longrightarrow> io (connections sv ! i) = IO_processing m \<Longrightarrow>
     serve P t m (database sv) = (Value reply, s') \<Longrightarrow>
     service_step P sv (sv\<lparr>connections := (connections sv)[i := ProcessRequest (\<lambda>m. reply) m (connections sv ! i)],
       database := s', log := log sv @ [Served i m t reply]\<rparr>)"
| crash: "\<not> down sv \<Longrightarrow> i < length (connections sv) \<Longrightarrow> io (connections sv ! i) = IO_processing m \<Longrightarrow>
     serve P t m (database sv) = (r, s') \<Longrightarrow> \<not> (\<exists>reply. r = Value reply) \<Longrightarrow>
     service_step P sv (sv\<lparr>down := True\<rparr>)"
| tick: "\<not> down sv \<Longrightarrow> s_now (database sv) \<le> now \<Longrightarrow>
     service_step P sv (sv\<lparr>database := (database sv)\<lparr>s_now := now\<rparr>, log := log sv @ [Tick now]\<rparr>)"

inductive_cases transport_stepE: "transport_step marker c c'"
inductive_cases service_stepE: "service_step P sv sv'"

section \<open>The service in sequence\<close>

text \<open>The same messages, one after the other on the database, with nothing in between.\<close>

fun replay :: "service_setup \<Rightarrow> event list \<Rightarrow> session \<Rightarrow> session option" where
  "replay P [] s = Some s"
| "replay P (Tick now # es) s = (if s_now s \<le> now then replay P es (s\<lparr>s_now := now\<rparr>) else None)"
| "replay P (Served i m t reply # es) s =
     (case serve P t m s of
        (Value r, s') \<Rightarrow> if r = reply then replay P es s' else None
      | _ \<Rightarrow> None)"

fun messages_of :: "nat \<Rightarrow> event list \<Rightarrow> string list" where
  "messages_of i [] = []"
| "messages_of i (Tick now # es) = messages_of i es"
| "messages_of i (Served j m t reply # es) = (if i = j then [m] else []) @ messages_of i es"

fun answers_of :: "nat \<Rightarrow> event list \<Rightarrow> string list" where
  "answers_of i [] = []"
| "answers_of i (Tick now # es) = answers_of i es"
| "answers_of i (Served j m t reply # es) = (if i = j then [reply] else []) @ answers_of i es"

lemma messages_append: "messages_of i (es @ fs) = messages_of i es @ messages_of i fs"
  by (induction es rule: messages_of.induct) auto

lemma answers_append: "answers_of i (es @ fs) = answers_of i es @ answers_of i fs"
  by (induction es rule: answers_of.induct) auto

lemma replay_append: "replay P (es @ fs) s = (case replay P es s of None \<Rightarrow> None | Some s' \<Rightarrow> replay P fs s')"
  by (induction P es s rule: replay.induct) (auto split: option.split outcome.split prod.split)

section \<open>The invariant\<close>

text \<open>
  The replies of a connection are those in the log, in order; the last one may be on its way, or lost
  when the connection has ended.
\<close>

definition answers_inv :: "string list \<Rightarrow> connection \<Rightarrow> bool" where
  "answers_inv rs c \<longleftrightarrow>
     (if io c = IO_ended then rs = replies c \<or> (\<exists>lost. rs = replies c @ [lost])
      else rs = replies c @ pending (io c))"

lemma answers_start: "answers_inv [] (Start Create)"
  by (simp add: answers_inv_def pending_def)

lemma answers_transport:
  assumes "transport_step marker c c'" and "answers_inv rs c"
  shows "answers_inv rs c' \<and> served c' = served c"
  using assms
  by (elim transport_stepE completionE)
    (auto simp: answers_inv_def pending_def connection_defs
      split: io_state.splits sum.splits read_error.splits prod.splits)

lemma answers_request:
  "io c = IO_processing m \<Longrightarrow> answers_inv rs c \<Longrightarrow>
     answers_inv (rs @ [reply]) (ProcessRequest (\<lambda>m. reply) m c) \<and>
     served (ProcessRequest (\<lambda>m. reply) m c) = served c @ [m]"
  by (simp add: answers_inv_def pending_def ProcessRequest_def)

definition connection_logged :: "event list \<Rightarrow> nat \<Rightarrow> connection \<Rightarrow> bool" where
  "connection_logged es i c \<longleftrightarrow> served c = messages_of i es \<and> answers_inv (answers_of i es) c"

definition known_connections :: "nat \<Rightarrow> event list \<Rightarrow> bool" where
  "known_connections n es \<longleftrightarrow> (\<forall>i \<ge> n. messages_of i es = [] \<and> answers_of i es = [])"

definition service_inv :: "service_setup \<Rightarrow> session \<Rightarrow> server \<Rightarrow> bool" where
  "service_inv P s sv \<longleftrightarrow> replay P (log sv) s = Some (database sv) \<and>
     known_connections (length (connections sv)) (log sv) \<and>
     (\<forall>i < length (connections sv). connection_logged (log sv) i (connections sv ! i))"

lemma service_invI:
  assumes "replay P (log sv) s = Some (database sv)"
    and "known_connections (length (connections sv)) (log sv)"
    and "\<And>i. i < length (connections sv) \<Longrightarrow> connection_logged (log sv) i (connections sv ! i)"
  shows "service_inv P s sv"
  using assms by (simp add: service_inv_def)

lemma service_step_inv:
  assumes "service_step P sv sv'" and "service_inv P s sv"
  shows "service_inv P s sv'"
proof -
  have replay: "replay P (log sv) s = Some (database sv)"
    and known: "known_connections (length (connections sv)) (log sv)"
    using assms(2) by (simp_all add: service_inv_def)
  have logged: "connection_logged (log sv) i (connections sv ! i)" if "i < length (connections sv)" for i
    using assms(2) that by (simp add: service_inv_def)
  from assms(1) show ?thesis
  proof cases
    case accepted
    from known have "connection_logged (log sv) (length (connections sv)) (Start Create)"
      by (simp add: connection_logged_def known_connections_def answers_start)
    moreover from known have "known_connections (Suc (length (connections sv))) (log sv)"
      by (simp add: known_connections_def)
    ultimately show ?thesis
      using assms(2) by (auto simp: accepted(1) service_inv_def nth_append less_Suc_eq)
  next
    case (transport i c)
    have "connection_logged (log sv) i c"
      using answers_transport[OF transport(4), of "answers_of i (log sv)"] logged[OF transport(3)]
      by (simp add: connection_logged_def)
    then show ?thesis
      using transport(1,3) assms(2) by (auto simp: service_inv_def nth_list_update)
  next
    case (request i m t reply s')
    have "connection_logged (log sv') j (connections sv' ! j)" if "j < length (connections sv)" for j
      using answers_request[OF request(4), of "answers_of i (log sv)" reply] logged[OF that] request(1,3)
      by (cases "j = i")
        (auto simp: connection_logged_def messages_append answers_append nth_list_update)
    moreover have "replay P (log sv') s = Some (database sv')"
      using replay request(1,5) by (simp add: replay_append)
    moreover have "known_connections (length (connections sv')) (log sv')"
      using known request(1,3) by (auto simp: known_connections_def messages_append answers_append)
    ultimately show ?thesis
      using request(1) by (intro service_invI) simp_all
  next
    case (tick now)
    then show ?thesis
      using assms(2) by (auto simp: service_inv_def connection_logged_def known_connections_def replay_append
          messages_append answers_append)
  qed (use assms(2) in \<open>simp_all add: service_inv_def\<close>)
qed

interpretation service: invariant_system "\<lambda>sv. sv = Running_server s" "service_step P" "service_inv P s"
  for P s
proof unfold_locales
  show "service_inv P s sv" if "sv = Running_server s" for sv
    using that by (simp add: service_inv_def Running_server_def known_connections_def)
qed (rule service_step_inv)

section \<open>Properties\<close>


text \<open>A server with one connection that asks for a request the server does not have.\<close>

definition setup_of :: "sql_config \<Rightarrow> service_setup" where
  "setup_of cfg = \<lparr>su_env = sample_env, su_cfg = cfg, su_other = sample_other, su_ins = no_id,
     su_exec = (\<lambda>m. Some (LTable [(''request'', LString m)] [])), su_walk = requests, su_marker = [CR],
     su_resets = False\<rparr>"

abbreviation sample_setup :: service_setup where
  "sample_setup \<equiv> setup_of sample_cfg"

lemma serve_unknown: "serve (setup_of cfg) t ''a'' s = (Value (bad_config @ [CR]), s)"
proof -
  let ?requests = "requests :: (string \<times> session handler) list"
  have "walk_of ?requests ?requests" by (simp add: walk_of_def request_set_requests)
  moreover have "map_of ?requests ''a'' = None" by (simp add: requests_def)
  moreover have "get_config_request (LTable [(''request'', LString ''a'')] []) = ''a''"
    by (simp add: get_config_request_def get_raw_of_ref)
  ultimately show ?thesis
    by (simp add: serve_def setup_of_def process_request_cases write_response_def)
qed

lemma one_message_served:
  "\<exists>sv. (service_step (setup_of cfg))\<^sup>*\<^sup>* (Running_server s) sv \<and> log sv = [Served 0 ''a'' 7 (bad_config @ [CR])] \<and>
     length (connections sv) = 1"
proof -
  let ?sv0 = "Running_server s"
  let ?sv1 = "?sv0\<lparr>connections := connections ?sv0 @ [Start Create]\<rparr>"
  let ?c1 = "Start Create"
  let ?c2 = "?c1\<lparr>input_buf := [CHR ''a'', CR], io := IO_read (Inr ())\<rparr>"
  let ?sv2 = "?sv1\<lparr>connections := (connections ?sv1)[0 := ?c2]\<rparr>"
  let ?c3 = "read_handler (Inr ()) ?c2"
  let ?sv3 = "?sv2\<lparr>connections := (connections ?sv2)[0 := ?c3]\<rparr>"
  have "service_step (setup_of cfg) ?sv0 ?sv1"
    by (rule service_step.accepted) (simp_all add: Running_server_def)
  moreover have "service_step (setup_of cfg) ?sv1 ?sv2"
  proof (rule service_step.transport)
    have "completion [CR] ?c1 ?c2"
      by (rule completion.data) (simp_all add: holds_marker_def CR_def)
    then show "transport_step (su_marker (setup_of cfg)) (connections ?sv1 ! 0) ?c2"
      by (simp add: Running_server_def setup_of_def transport_step.completion)
  qed (simp_all add: Running_server_def)
  moreover have "service_step (setup_of cfg) ?sv2 ?sv3"
  proof (rule service_step.transport)
    have "transport_step [CR] ?c2 ?c3" by (rule transport_step.read_done) simp
    then show "transport_step (su_marker (setup_of cfg)) (connections ?sv2 ! 0) ?c3"
      by (simp add: Running_server_def setup_of_def)
  qed (simp_all add: Running_server_def)
  moreover obtain sv4 where "service_step (setup_of cfg) ?sv3 sv4"
    "log sv4 = [Served 0 ''a'' 7 (bad_config @ [CR])]" "length (connections sv4) = 1"
  proof
    have "io (connections ?sv3 ! 0) = IO_processing ''a''"
      by (simp add: Running_server_def connection_defs getline_def CR_def Start_def Create_def)
    from service_step.request[OF _ _ this serve_unknown[of cfg 7]]
    show "service_step (setup_of cfg) ?sv3 (?sv3\<lparr>connections := (connections ?sv3)[0 :=
        ProcessRequest (\<lambda>m. bad_config @ [CR]) ''a'' (connections ?sv3 ! 0)],
        database := database ?sv3, log := log ?sv3 @ [Served 0 ''a'' 7 (bad_config @ [CR])]\<rparr>)"
      by (simp add: Running_server_def)
  qed (simp_all add: Running_server_def)
  ultimately show ?thesis
    by (meson rtranclp.rtrancl_into_rtrancl rtranclp.rtrancl_refl)
qed


section \<open>The database of the running server\<close>

lemma replay_server_steps:
  "replay P es s = Some s' \<Longrightarrow> walk_of (su_walk P) requests \<Longrightarrow>
     (server_step (su_cfg P) (su_other P) (su_ins P))\<^sup>*\<^sup>* s s'"
proof (induction P es s rule: replay.induct)
  case (2 P now es s)
  then have "server_step (su_cfg P) (su_other P) (su_ins P) s (s\<lparr>s_now := now\<rparr>)"
    by (intro server_step.time) (simp split: if_splits)
  with 2 show ?case
    by (auto intro: converse_rtranclp_into_rtranclp split: if_splits)
next
  case (3 P i m t reply es s)
  then obtain r s1 where r: "process_request (su_env P\<lparr>clock := t\<rparr>)
      (session_driver (su_cfg P) (su_other P) (su_ins P)) (su_exec P) (su_walk P) m s = (Value r, s1)"
    "serve P t m s = (Value reply, s1)" "replay P es s1 = Some s'"
    by (auto simp: serve_def split: prod.splits outcome.splits if_splits)
  from server_step.message[OF "3.prems"(2) r(1)] "3.IH"[OF r(2)[symmetric]] r(3) "3.prems"(2)
  show ?case by (auto intro: converse_rtranclp_into_rtranclp)
qed simp

text \<open>
  However many connections there are and however their handlers interleave, keys, references and
  column ranges of the database stay in order.
\<close>

theorem service_keeps_database:
  assumes "(service_step P)\<^sup>*\<^sup>* (Running_server s) sv" and "fresh_server s" and "walk_of (su_walk P) requests"
  shows "db_inv (su_cfg P) (s_db (database sv))"
proof -
  have "service_inv P s sv"
    using service.reachable_inv[OF _ assms(1)] by blast
  then have "(server_step (su_cfg P) (su_other P) (su_ins P))\<^sup>*\<^sup>* s (database sv)"
    using assms(3) by (intro replay_server_steps[of P "log sv"]) (simp_all add: service_inv_def)
  then have "session_inv (su_cfg P) (database sv)"
    by (rule serving.reachable_inv[OF assms(2)])
  then show ?thesis by (simp add: session_inv_def)
qed

theorem service_keeps_database_witness:
  "\<exists>sv :: server. log sv = [Served 0 ''a'' 7 (bad_config @ [CR])] \<and> db_inv sample_cfg (s_db (database sv))"
proof -
  let ?s = "sample_session\<lparr>s_db := init_db, s_saved := None\<rparr>"
  obtain sv where sv: "(service_step sample_setup)\<^sup>*\<^sup>* (Running_server ?s) sv"
    "log sv = [Served 0 ''a'' 7 (bad_config @ [CR])]"
    using one_message_served by blast
  have "fresh_server ?s" by (simp add: fresh_server_def)
  moreover have "walk_of (su_walk sample_setup) requests"
    by (simp add: setup_of_def walk_of_def request_set_requests)
  ultimately have "db_inv (su_cfg sample_setup) (s_db (database sv))"
    by (rule service_keeps_database[OF sv(1)])
  with sv(2) show ?thesis by (auto simp: setup_of_def)
qed

end
