(* ===== verification/Query_Properties.thy ===== *)
theory Query_Properties
  imports Query_Replies Request_Properties
begin

text \<open>
  The properties of the query requests on a session of the modelled database: a listing holds
  exactly the rows it should, with every column under its name, and the one way in which such a
  reply can end the process.
\<close>

section \<open>Listings\<close>

lemma sample_order_ok: "order_ok sample_env"
  by (simp add: order_ok_def sample_env_def)

lemma session_sample_inv: "names_ok (s_db sample_session)" "db_inv sample_cfg (s_db sample_session)"
  by (simp_all add: sample_names_ok sample_db_inv)

lemma sample_lengths:
  "length (customers sample_db) = 3" "length (users sample_db) = 3" "length (orders sample_db) = 1"
  by (simp_all add: sample_db_eval)

text \<open>
  A server whose day numbers give Unix seconds in range.
\<close>

definition day_cfg :: sql_config where
  "day_cfg = sample_cfg\<lparr>unix_of_day := (\<lambda>t. max 0 (min t 100000) * 86400)\<rparr>"

lemma day_cfg_ok: "days_ok day_cfg"
  by (auto simp: days_ok_def day_cfg_def)

lemma day_cfg_inv: "db_inv day_cfg (s_db sample_session)"
  using sample_db_inv by (simp add: db_inv_def keys_ok_def day_cfg_def sample_cfg_def)

text \<open>
  The reply of \<open>get_customers\<close> is the listing of all customers, in the order of the table, each
  with the telephone number as a 64-bit integer and the three parts of the name.
\<close>

theorem get_customers_complete:
  assumes "order_ok E" and "names_ok (s_db s)"
  shows "\<exists>its s'. get_customers E (session_driver cfg other ins) config s =
       (Value (listing E ''customers'' its), s') \<and> s_db s' = s_db s \<and>
     list_all2 shows_customer its (customers (s_db s))"
  by (rule session.get_customers_reply[OF assms])

theorem get_customers_complete_witness:
  "\<exists>its s'. get_customers sample_env (session_driver sample_cfg sample_other no_id) (LTable [] [])
       sample_session = (Value (listing sample_env ''customers'' its), s') \<and> length its = 3"
  using get_customers_complete[OF sample_order_ok session_sample_inv(1), of sample_cfg sample_other
      no_id "LTable [] []"]
  by (auto dest!: list_all2_lengthD simp: sample_lengths)

text \<open>
  The reply of \<open>get_users\<close> to an administrator is the listing of all users, each exactly once
  and with the name of its rank; the stored password is not part of it.
\<close>

theorem get_users_complete:
  assumes "order_ok E" and "names_ok (s_db s)" and "db_inv cfg (s_db s)"
    and "safe_credentials config" and "authorised cfg config [''Admin''] (s_db s)"
  shows "\<exists>its s'. get_users E (session_driver cfg other ins) config s =
       (Value (listing E ''users'' its), s') \<and> s_db s' = s_db s \<and>
     list_all2 shows_user its (map (\<lambda>u. (u, rank_of (s_db s) u)) (users (s_db s)))"
  by (rule session.get_users_reply[OF assms])

theorem get_users_complete_witness:
  "\<exists>its s'. get_users sample_env (session_driver sample_cfg sample_other no_id) (admin_request [])
       sample_session = (Value (listing sample_env ''users'' its), s') \<and> length its = 3"
  using get_users_complete[OF sample_order_ok session_sample_inv, of "admin_request []" sample_other no_id]
  by (auto dest!: list_all2_lengthD simp: sample_lengths)

text \<open>
  The reply of \<open>get_orders\<close> is the listing of all orders, each exactly once with its customer,
  with its days in Unix seconds; the completion day is there exactly when the order is completed.
\<close>

theorem get_orders_complete:
  assumes "order_ok E" and "names_ok (s_db s)" and "db_inv cfg (s_db s)" and "days_ok cfg"
  shows "\<exists>its s'. get_orders E (session_driver cfg other ins) config s =
       (Value (listing E ''orders'' its), s') \<and> s_db s' = s_db s \<and>
     list_all2 (shows_order cfg) its (map (\<lambda>ord. (ord, customer_of (s_db s) ord)) (orders (s_db s)))"
  by (rule session.get_orders_reply[OF assms])

theorem get_orders_complete_witness:
  "\<exists>its s'. get_orders sample_env (session_driver day_cfg sample_other no_id) (LTable [] [])
       sample_session = (Value (listing sample_env ''orders'' its), s') \<and> length its = 1"
  using get_orders_complete[OF sample_order_ok session_sample_inv(1) day_cfg_inv day_cfg_ok, of
      sample_other no_id "LTable [] []"]
  by (auto dest!: list_all2_lengthD simp: sample_lengths)

text \<open>
  The report of the completed orders lists exactly the orders whose completion day lies between
  the days of the two given times, both included.
\<close>

theorem get_completed_orders_exact:
  assumes "order_ok E" and "names_ok (s_db s)" and "db_inv cfg (s_db s)" and "days_ok cfg"
    and "get_raw_int (get_raw_ref config ''dates'') ''start_date'' = Some t1"
    and "get_raw_int (get_raw_ref config ''dates'') ''end_date'' = Some t2"
    and "day_of_unix cfg (sint t1) = Some d1" and "day_of_unix cfg (sint t2) = Some d2"
  shows "\<exists>its s'. get_completed_orders E (session_driver cfg other ins) config s =
       (Value (listing E ''completed_orders'' its), s') \<and> s_db s' = s_db s \<and>
     list_all2 (shows_order cfg) its (map (\<lambda>ord. (ord, customer_of (s_db s) ord))
       (filter (\<lambda>ord. case o_date_of_completion ord of None \<Rightarrow> False | Some t \<Rightarrow> d1 \<le> t \<and> t \<le> d2)
         (orders (s_db s))))"
proof -
  have "completed_between (Some d1) (Some d2) =
      (\<lambda>ord. case o_date_of_completion ord of None \<Rightarrow> False | Some t \<Rightarrow> d1 \<le> t \<and> t \<le> d2)"
    by (intro ext) (simp add: completed_between_def split: option.split)
  then show ?thesis
    using session.get_completed_orders_reply[OF assms(1-6), of other ins]
    by (simp add: assms(7,8))
qed

definition dates_request :: lua where
  "dates_request = LTable [(''dates'', LTable [(''start_date'', LInt 0), (''end_date'', LInt 86400)] [])] []"

theorem get_completed_orders_exact_witness:
  "\<exists>its s'. get_completed_orders sample_env (session_driver day_cfg sample_other no_id) dates_request
       sample_session = (Value (listing sample_env ''completed_orders'' its), s') \<and> its = []"
proof -
  have "get_raw_int (get_raw_ref dates_request ''dates'') ''start_date'' = Some 0"
    "get_raw_int (get_raw_ref dates_request ''dates'') ''end_date'' = Some 86400"
    "day_of_unix day_cfg (sint (0 :: i64)) = Some 0" "day_of_unix day_cfg (sint (86400 :: i64)) = Some 1"
    by (simp_all add: dates_request_def get_raw_of_ref day_cfg_def sample_cfg_def)
  from get_completed_orders_exact[OF sample_order_ok session_sample_inv(1) day_cfg_inv day_cfg_ok this,
      of sample_other no_id]
  show ?thesis by (auto simp: sample_db_eval)
qed

section \<open>Where a listing ends the process\<close>

text \<open>
  C24: The column of the telephone number is unsigned, the conversion reads it as a signed 64-bit
  integer and asserts that it fits: one customer with a number of 2^63 or more, and every
  \<open>get_customers\<close> request, which needs no account, ends the server process.
\<close>

theorem get_customers_overflow_aborts:
  assumes "cu \<in> set (customers (s_db s))" and "2 ^ 63 \<le> c_telephone cu"
    and "\<And>x. x \<in> set (customers (s_db s)) \<Longrightarrow> customer_ok (x\<lparr>c_telephone := 0\<rparr>)"
  shows "fst (get_customers E (session_driver cfg other ins) config s) = Abort"
  by (rule session.get_customers_overflow[OF assms])

theorem get_customers_overflow_aborts_witness:
  "fst (get_customers sample_env (session_driver sample_cfg sample_other no_id) (LTable [] [])
     (sample_session\<lparr>s_db := sample_db\<lparr>customers := [\<lparr>c_telephone = 2 ^ 63, c_sname = Some [],
       c_name = Some [], c_pname = Some []\<rparr>]\<rparr>\<rparr>)) = Abort"
  by (rule get_customers_overflow_aborts[where cu = "\<lparr>c_telephone = 2 ^ 63, c_sname = Some [],
       c_name = Some [], c_pname = Some []\<rparr>"])
    (simp_all add: customer_ok_def)

end
