(* ===== verification/Report_Replies.thy ===== *)
theory Report_Replies
  imports Query_Properties
begin

text \<open>
  The replies of the remaining queries: the stock, the lines of an order, distributors, kinds of items and
  ranks, the expired orders, the income and the statistics. Amounts of money are \<open>double\<close>s, which
  the database server prints (\<open>dbl_text\<close>) and \<open>std::from_chars\<close> reads: both are parameters,
  and \<open>reads_numbers\<close> is the hypothesis that what the one prints the other can read.
\<close>

section \<open>Amounts\<close>

definition reads_numbers :: "env \<Rightarrow> sql_config \<Rightarrow> bool" where
  "reads_numbers E cfg \<longleftrightarrow>
     (\<forall>t. cell_result E VM_Number (dbl_text cfg t) \<noteq> None) \<and> cell_result E VM_Number ''0'' \<noteq> None"

definition amount :: "env \<Rightarrow> string \<Rightarrow> lua" where
  "amount E s = the (cell_result E VM_Number s)"

lemma reads_amount:
  "reads_numbers E cfg \<Longrightarrow> cell_result E VM_Number (dbl_text cfg t) = Some (amount E (dbl_text cfg t))"
  "reads_numbers E cfg \<Longrightarrow> cell_result E VM_Number ''0'' = Some (amount E ''0'')"
  by (auto simp: reads_numbers_def amount_def)

lemma sample_reads: "reads_numbers sample_env cfg"
  by (simp add: reads_numbers_def cell_result_def sample_env_def)

section \<open>Names\<close>

definition named_of :: "int \<Rightarrow> named_row list \<Rightarrow> named_row" where
  "named_of i rs = hd (filter (\<lambda>r. i = n_id r) rs)"

lemma named_unique:
  assumes "distinct (map n_id rs)" and "named_exists i rs"
  shows "filter (\<lambda>r. i = n_id r) rs = [named_of i rs]"
  unfolding named_of_def using assms by (intro filter_unique) (auto simp: exists_iff)

definition shows_named :: "lua \<Rightarrow> int \<times> string \<Rightarrow> bool" where
  "shows_named item r \<longleftrightarrow> get_raw_int item ''id'' = Some (word_of_int (fst r)) \<and>
     get_raw_string item ''name'' = Some (snd r)"

definition named_cells :: "int \<times> string \<Rightarrow> string option list" where
  "named_cells r = [Some (show_int (fst r)), Some (snd r)]"

definition small_ids :: "int list \<Rightarrow> bool" where
  "small_ids is \<longleftrightarrow> list_all (\<lambda>i. - (2 ^ 63) \<le> i \<and> i < 2 ^ 63) is"

lemma named_cells_ok:
  "- (2 ^ 63) \<le> fst r \<Longrightarrow> fst r < 2 ^ 63 \<Longrightarrow> row_ok E (zip id_name_fields (map int [0, 1])) (named_cells r)"
  by (auto simp: row_ok_def id_name_fields_def FieldAndType_def named_cells_def cell_ok_def cell_result_Int_show_int)

lemma shows_named_cells:
  assumes "order_ok E" and "- (2 ^ 63) \<le> fst r" and "fst r < 2 ^ 63"
  shows "shows_named (item_of E id_name_fields [0, 1] (named_cells r)) r"
proof -
  have "distinct (map (field_name \<circ> fst) (zip id_name_fields (map int [0, 1])))"
    by (simp add: id_name_fields_def FieldAndType_def)
  note ref = item_of_ref[OF assms(1) this]
  show ?thesis
    using assms(2,3) unfolding shows_named_def get_raw_int_ref get_raw_string_ref ref
    by (auto simp: field_index_def id_name_fields_def FieldAndType_def row_field_def named_cells_def
        cell_result_Int_show_int)
qed

section \<open>The stock\<close>

type_synonym stocked = "item_row \<times> named_row \<times> named_row"

definition item_cells :: "sql_config \<Rightarrow> stocked \<Rightarrow> string option list" where
  "item_cells cfg x = (case x of (it, dist, ty) \<Rightarrow>
     [Some (show_int (it_id it)), Some (it_name it), Some (dbl_text cfg (it_cost it)),
      Some (show_nat (it_count it)), Some (n_name dist), Some (n_name ty), Some (it_description it)])"

definition shows_item :: "env \<Rightarrow> sql_config \<Rightarrow> lua \<Rightarrow> stocked \<Rightarrow> bool" where
  "shows_item E cfg item x \<longleftrightarrow> (case x of (it, dist, ty) \<Rightarrow>
     get_raw_int item ''id'' = Some (word_of_int (it_id it)) \<and> get_raw_string item ''name'' = Some (it_name it) \<and>
     get_raw_ref item ''cost'' = amount E (dbl_text cfg (it_cost it)) \<and>
     get_raw_int item ''count_on_warehouse'' = Some (word_of_nat (it_count it)) \<and>
     get_raw_string item ''distributor'' = Some (n_name dist) \<and>
     get_raw_string item ''type'' = Some (n_name ty) \<and>
     get_raw_string item ''description'' = Some (it_description it))"

definition stocked_ok :: "stocked \<Rightarrow> bool" where
  "stocked_ok x \<longleftrightarrow> 1 \<le> it_id (fst x) \<and> it_id (fst x) \<le> int_max \<and> it_count (fst x) \<le> uint_max"

lemma item_cells_ok:
  assumes "reads_numbers E cfg" and "stocked_ok x"
  shows "row_ok E (zip items_fields (map int [0, 1, 2, 3, 4, 5, 6])) (item_cells cfg x)"
proof -
  have "it_count (fst x) < 2 ^ 63" using assms(2) by (simp add: stocked_ok_def uint_max_def)
  then show ?thesis
    using assms by (cases x) (auto simp: row_ok_def items_fields_def FieldAndType_def item_cells_def cell_ok_def
        stocked_ok_def cell_result_id cell_result_show_nat reads_amount)
qed

lemma shows_item_cells:
  assumes "order_ok E" and "reads_numbers E cfg" and "stocked_ok x"
  shows "shows_item E cfg (item_of E items_fields [0, 1, 2, 3, 4, 5, 6] (item_cells cfg x)) x"
proof -
  have "distinct (map (field_name \<circ> fst) (zip items_fields (map int [0, 1, 2, 3, 4, 5, 6])))"
    by (simp add: items_fields_def FieldAndType_def)
  note ref = item_of_ref[OF assms(1) this]
  have "it_count (fst x) < 2 ^ 63" using assms(3) by (simp add: stocked_ok_def uint_max_def)
  then show ?thesis
    using assms(2,3) unfolding shows_item_def get_raw_int_ref get_raw_string_ref ref
    by (cases x) (auto simp: field_index_def items_fields_def FieldAndType_def row_field_def item_cells_def
        stocked_ok_def cell_result_id cell_result_show_nat reads_amount)
qed

text \<open>An item with its distributor and its kind.\<close>

definition stocked_of :: "db \<Rightarrow> item_row \<Rightarrow> stocked" where
  "stocked_of db it = (it, named_of (it_distributor it) (distributors db), named_of (it_type it) (item_types db))"

lemma item_names:
  assumes "db_inv cfg db" and "it \<in> set (items db)"
  shows "filter (\<lambda>r. it_distributor it = n_id r) (distributors db) = [named_of (it_distributor it) (distributors db)]"
    and "filter (\<lambda>r. it_type it = n_id r) (item_types db) = [named_of (it_type it) (item_types db)]"
  using assms by (auto simp: db_inv_def keys_ok_def refs_ok_def intro!: named_unique)

lemma GetItems_eq:
  assumes "db_inv cfg db"
  shows "GetItems cfg db = map (\<lambda>it. item_cells cfg (stocked_of db it)) (items db)"
proof -
  have "concat (map (\<lambda>it. concat (map (\<lambda>dist. map (\<lambda>ty. item_cells cfg (it, dist, ty))
        (filter (\<lambda>r. it_type it = n_id r) (item_types db)))
        (filter (\<lambda>r. it_distributor it = n_id r) (distributors db)))) its) =
      map (\<lambda>it. item_cells cfg (stocked_of db it)) its" if "set its \<subseteq> set (items db)" for its
    using that by (induction its) (simp_all add: item_names[OF assms] stocked_of_def)
  from this[of "items db"] show ?thesis
    by (simp add: GetItems_def item_cells_def)
qed

lemma stocked_of_ok: "db_inv cfg db \<Longrightarrow> it \<in> set (items db) \<Longrightarrow> stocked_ok (stocked_of db it)"
  by (auto simp: db_inv_def ids_ok_def id_ok_def stocked_ok_def stocked_of_def)

section \<open>The lines of an order\<close>

type_synonym line = "ordered_item_row \<times> item_row"

definition line_cells :: "sql_config \<Rightarrow> db \<Rightarrow> line \<Rightarrow> string option list" where
  "line_cells cfg db l = (case l of (oi, it) \<Rightarrow>
     [Some (show_int (oi_id oi)), Some (show_nat (oi_count oi)), Some (it_name it),
      Some (dbl_text cfg (it_cost it)), Some (n_name (named_of (it_distributor it) (distributors db))),
      Some (it_description it), Some (n_name (named_of (it_type it) (item_types db))),
      Some (dbl_text cfg (line_cost cfg l))])"

definition shows_line :: "env \<Rightarrow> sql_config \<Rightarrow> db \<Rightarrow> lua \<Rightarrow> line \<Rightarrow> bool" where
  "shows_line E cfg db item l \<longleftrightarrow> (case l of (oi, it) \<Rightarrow>
     get_raw_int item ''id'' = Some (word_of_int (oi_id oi)) \<and>
     get_raw_int item ''count_in_order'' = Some (word_of_nat (oi_count oi)) \<and>
     get_raw_string item ''name'' = Some (it_name it) \<and>
     get_raw_ref item ''cost'' = amount E (dbl_text cfg (it_cost it)) \<and>
     get_raw_string item ''distributor'' = Some (n_name (named_of (it_distributor it) (distributors db))) \<and>
     get_raw_string item ''description'' = Some (it_description it) \<and>
     get_raw_ref item ''common_cost'' = amount E (dbl_text cfg (line_cost cfg l)))"

definition line_ok :: "line \<Rightarrow> bool" where
  "line_ok l \<longleftrightarrow> 1 \<le> oi_id (fst l) \<and> oi_id (fst l) \<le> int_max \<and> oi_count (fst l) < 2 ^ 63"

lemma line_positions: "columns_at GetOrderItems_columns order_items_fields [0, 1, 2, 3, 4, 5, 7]"
  by (simp add: columns_at_def GetOrderItems_columns_def order_items_fields_def FieldAndType_def lower_char_def)

lemma line_cells_ok:
  assumes "reads_numbers E cfg" and "line_ok l"
  shows "row_ok E (zip order_items_fields (map int [0, 1, 2, 3, 4, 5, 7])) (line_cells cfg db l)"
  using assms by (cases l) (auto simp: row_ok_def order_items_fields_def FieldAndType_def line_cells_def
      cell_ok_def line_ok_def cell_result_id cell_result_show_nat reads_amount)

lemma shows_line_cells:
  assumes "order_ok E" and "reads_numbers E cfg" and "line_ok l"
  shows "shows_line E cfg db (item_of E order_items_fields [0, 1, 2, 3, 4, 5, 7] (line_cells cfg db l)) l"
proof -
  have "distinct (map (field_name \<circ> fst) (zip order_items_fields (map int [0, 1, 2, 3, 4, 5, 7])))"
    by (simp add: order_items_fields_def FieldAndType_def)
  note ref = item_of_ref[OF assms(1) this]
  show ?thesis
    using assms(2,3) unfolding shows_line_def get_raw_int_ref get_raw_string_ref ref
    by (cases l) (auto simp: field_index_def order_items_fields_def FieldAndType_def row_field_def line_cells_def
        line_ok_def cell_result_id cell_result_show_nat reads_amount)
qed

lemma GetOrderItems_eq:
  assumes "db_inv cfg db"
  shows "GetOrderItems cfg i db = map (line_cells cfg db) (order_lines i db)"
proof -
  have "concat (map (\<lambda>(oi, it). concat (map (\<lambda>dist. map (\<lambda>ty.
          [Some (show_int (oi_id oi)), Some (show_nat (oi_count oi)), Some (it_name it),
           Some (dbl_text cfg (it_cost it)), Some (n_name dist), Some (it_description it),
           Some (n_name ty), Some (dbl_text cfg (dbl_scale cfg (oi_count oi) (it_cost it)))])
        (filter (\<lambda>r. it_type it = n_id r) (item_types db)))
        (filter (\<lambda>r. it_distributor it = n_id r) (distributors db)))) ls) =
      map (line_cells cfg db) ls" if "snd ` set ls \<subseteq> set (items db)" for ls
    using that
    by (induction ls) (auto simp: item_names[OF assms] line_cells_def line_cost_def)
  moreover have "snd ` set (order_lines i db) \<subseteq> set (items db)"
    by (auto simp: order_lines_def)
  ultimately show ?thesis by (simp add: GetOrderItems_def)
qed

definition counts_ok :: "db \<Rightarrow> bool" where
  "counts_ok db \<longleftrightarrow> sum_list (map oi_count (ordered_items db)) < 2 ^ 63"

text \<open>At most \<open>2\<^sup>3\<^sup>1\<close> lines of at most \<open>2\<^sup>3\<^sup>2\<close> pieces each: no sum of counts leaves 63 bits.\<close>

lemma counts_bounded:
  assumes "db_inv cfg db"
  shows "counts_ok db"
proof -
  have ids: "oi_id ` set (ordered_items db) \<subseteq> {1 .. int_max}" and dist: "distinct (map oi_id (ordered_items db))"
    using assms by (force simp: db_inv_def ids_ok_def keys_ok_def id_ok_def)+
  have "length (ordered_items db) = card (oi_id ` set (ordered_items db))"
    using distinct_card[OF dist] by simp
  also have "\<dots> \<le> card {1 .. int_max}" by (rule card_mono[OF _ ids]) simp
  finally have len: "length (ordered_items db) \<le> 2 ^ 31" by (simp add: int_max_def)
  have "sum_list (map oi_count (ordered_items db)) \<le> sum_list (map (\<lambda>_. uint_max) (ordered_items db))"
    using assms by (intro sum_list_mono) (simp add: db_inv_def ids_ok_def)
  also have "\<dots> = length (ordered_items db) * uint_max" by (simp add: sum_list_triv)
  also have "\<dots> \<le> 2 ^ 31 * uint_max" using len by (rule mult_right_mono) simp
  also have "\<dots> < 2 ^ 63" by (simp add: uint_max_def)
  finally show ?thesis by (simp add: counts_ok_def)
qed

lemma order_lines_ok:
  assumes "db_inv cfg db" and "l \<in> set (order_lines i db)"
  shows "line_ok l"
proof -
  have "fst l \<in> set (ordered_items db)" using assms(2) by (auto simp: order_lines_def)
  moreover from this have "oi_count (fst l) \<le> sum_list (map oi_count (ordered_items db))"
    by (simp add: member_le_sum_list)
  ultimately show ?thesis
    using assms(1) counts_bounded[OF assms(1)] by (auto simp: line_ok_def db_inv_def ids_ok_def id_ok_def counts_ok_def)
qed

section \<open>Sales\<close>

text \<open>The item and the order of an ordered item; the sold ones, as one line each.\<close>

definition item_of_line :: "db \<Rightarrow> ordered_item_row \<Rightarrow> item_row" where
  "item_of_line db oi = hd (filter (\<lambda>it. oi_item oi = it_id it) (items db))"

definition order_of_line :: "db \<Rightarrow> ordered_item_row \<Rightarrow> order_row" where
  "order_of_line db oi = hd (filter (\<lambda>ord. oi_order oi = o_id ord) (orders db))"

lemma line_unique:
  assumes "db_inv cfg db" and "oi \<in> set (ordered_items db)"
  shows "filter (\<lambda>it. oi_item oi = it_id it) (items db) = [item_of_line db oi]"
    and "filter (\<lambda>ord. oi_order oi = o_id ord) (orders db) = [order_of_line db oi]"
  unfolding item_of_line_def order_of_line_def using assms
  by (auto simp: db_inv_def keys_ok_def refs_ok_def exists_iff intro!: filter_unique)

definition sold :: "int option \<Rightarrow> int option \<Rightarrow> db \<Rightarrow> ordered_item_row list" where
  "sold start end db = filter (\<lambda>oi. completed_between start end (order_of_line db oi)) (ordered_items db)"

lemma sold_lines_eq:
  assumes "db_inv cfg db"
  shows "sold_lines start end db = map (\<lambda>oi. (oi, item_of_line db oi)) (sold start end db)"
proof -
  have both: "filter (\<lambda>ord. oi_order oi = o_id ord \<and> completed_between start end ord) (orders db) =
      (if completed_between start end (order_of_line db oi) then [order_of_line db oi] else [])"
    if "oi \<in> set (ordered_items db)" for oi
  proof -
    have "filter (\<lambda>ord. oi_order oi = o_id ord \<and> completed_between start end ord) (orders db) =
        filter (completed_between start end) (filter (\<lambda>ord. oi_order oi = o_id ord) (orders db))"
      by (simp add: conj_commute)
    then show ?thesis by (simp add: line_unique[OF assms that])
  qed
  have "concat (map (\<lambda>oi. concat (map (\<lambda>it. map (\<lambda>ord. (oi, it))
        (filter (\<lambda>ord. oi_order oi = o_id ord \<and> completed_between start end ord) (orders db)))
        (filter (\<lambda>it. oi_item oi = it_id it) (items db)))) ois) =
      map (\<lambda>oi. (oi, item_of_line db oi))
        (filter (\<lambda>oi. completed_between start end (order_of_line db oi)) ois)"
    if "set ois \<subseteq> set (ordered_items db)" for ois
    using that by (induction ois) (simp_all add: both line_unique[OF assms])
  from this[of "ordered_items db"] show ?thesis by (simp add: sold_lines_def sold_def)
qed

text \<open>Every sold line has exactly one distributor; the groups of the statistics are its names.\<close>

lemma sold_lines_items: "l \<in> set (sold_lines start end db) \<Longrightarrow> snd l \<in> set (items db)"
  by (auto simp: sold_lines_def)

lemma statistics_lines_eq:
  assumes "db_inv cfg db"
  shows "statistics_lines start end db =
     map (\<lambda>l. (l, n_name (named_of (it_distributor (snd l)) (distributors db)))) (sold_lines start end db)"
proof -
  have "concat (map (\<lambda>l. map (\<lambda>dist. (l, n_name dist))
        (filter (\<lambda>r. it_distributor (snd l) = n_id r) (distributors db))) ls) =
      map (\<lambda>l. (l, n_name (named_of (it_distributor (snd l)) (distributors db)))) ls"
    if "snd ` set ls \<subseteq> set (items db)" for ls
    using that by (induction ls) (auto simp: item_names[OF assms])
  moreover have "snd ` set (sold_lines start end db) \<subseteq> set (items db)"
    using sold_lines_items by blast
  ultimately show ?thesis by (simp add: statistics_lines_def)
qed

lemma sum_groups:
  "sum_list (map (\<lambda>g. sum_list (map f (filter (\<lambda>x. k x = g) xs))) (remdups (map k xs))) = (sum_list (map f xs) :: nat)"
proof -
  have "sum_list (map (\<lambda>g. sum_list (map f (filter (\<lambda>x. k x = g) xs))) (remdups (map k xs))) =
      (\<Sum>g \<in> k ` set xs. sum_list (map f (filter (\<lambda>x. k x = g) xs)))"
    by (simp add: sum_list_distinct_conv_sum_set)
  also have "\<dots> = sum_list (map f xs)"
  proof (induction xs)
    case (Cons x xs)
    have "(\<Sum>g \<in> k ` set (x # xs). sum_list (map f (filter (\<lambda>y. k y = g) (x # xs)))) =
        (\<Sum>g \<in> insert (k x) (k ` set xs). (if g = k x then f x else 0) + sum_list (map f (filter (\<lambda>y. k y = g) xs)))"
      by (intro sum.cong) auto
    also have "\<dots> = f x + (\<Sum>g \<in> insert (k x) (k ` set xs). sum_list (map f (filter (\<lambda>y. k y = g) xs)))"
      by (simp add: sum.distrib)
    also have "(\<Sum>g \<in> insert (k x) (k ` set xs). sum_list (map f (filter (\<lambda>y. k y = g) xs))) =
        (\<Sum>g \<in> k ` set xs. sum_list (map f (filter (\<lambda>y. k y = g) xs)))"
    proof (cases "k x \<in> k ` set xs")
      case False
      then have "filter (\<lambda>y. k y = k x) xs = []" by (auto simp: filter_empty_conv image_iff)
      with False show ?thesis by simp
    qed (simp add: insert_absorb)
    finally show ?case using Cons.IH by simp
  qed simp
  finally show ?thesis .
qed

lemma sum_filter_le: "sum_list (map f (filter P xs)) \<le> (sum_list (map f xs) :: nat)"
  by (induction xs) auto

text \<open>The groups of the statistics.\<close>

type_synonym sales = "(line \<times> string) list"

definition sales_groups :: "sql_config \<Rightarrow> int option \<Rightarrow> int option \<Rightarrow> db \<Rightarrow> sales list" where
  "sales_groups cfg start end db = (let ls = statistics_lines start end db in
     map (\<lambda>g. filter (\<lambda>l. weight cfg (snd l) = g) ls) (remdups (map (weight cfg \<circ> snd) ls)))"

definition sales_count :: "sales \<Rightarrow> nat" where
  "sales_count grp = sum_list (map (oi_count \<circ> fst \<circ> fst) grp)"

definition sales_cells :: "sql_config \<Rightarrow> sales \<Rightarrow> string option list" where
  "sales_cells cfg grp = [Some (dbl_text cfg (dbl_sum cfg (map (line_cost cfg \<circ> fst) grp))),
     Some (show_nat (sales_count grp)), Some (snd (hd grp))]"

definition shows_sales :: "env \<Rightarrow> sql_config \<Rightarrow> lua \<Rightarrow> sales \<Rightarrow> bool" where
  "shows_sales E cfg item grp \<longleftrightarrow>
     get_raw_ref item ''common_cost'' = amount E (dbl_text cfg (dbl_sum cfg (map (line_cost cfg \<circ> fst) grp))) \<and>
     get_raw_int item ''common_count'' = Some (word_of_nat (sales_count grp)) \<and>
     get_raw_string item ''distributor'' = Some (snd (hd grp))"

lemma statistics_eq:
  "GetSellsStatiscticsByDistributors cfg start end db = map (sales_cells cfg) (sales_groups cfg start end db)"
  by (simp add: GetSellsStatiscticsByDistributors_def sales_groups_def sales_cells_def[abs_def]
      sales_count_def Let_def o_def)

lemma sales_total:
  assumes "db_inv cfg db"
  shows "sum_list (map sales_count (sales_groups cfg start end db)) = sum_list (map oi_count (sold start end db))"
proof -
  have "sum_list (map sales_count (sales_groups cfg start end db)) =
      sum_list (map (oi_count \<circ> fst \<circ> fst) (statistics_lines start end db))"
    using sum_groups[of "oi_count \<circ> fst \<circ> fst" "weight cfg \<circ> snd" "statistics_lines start end db"]
    by (simp add: sales_groups_def sales_count_def[abs_def] Let_def o_def)
  also have "\<dots> = sum_list (map oi_count (sold start end db))"
    by (simp add: statistics_lines_eq[OF assms] sold_lines_eq[OF assms] o_def)
  finally show ?thesis .
qed

lemma sales_distinct: "distinct (map (weight cfg \<circ> snd \<circ> hd) (sales_groups cfg start end db))"
proof -
  let ?ls = "statistics_lines start end db"
  let ?gs = "remdups (map (weight cfg \<circ> snd) ?ls)"
  have "weight cfg (snd (hd (filter (\<lambda>l. weight cfg (snd l) = g) ?ls))) = g" if "g \<in> set ?gs" for g
  proof -
    from that have "filter (\<lambda>l. weight cfg (snd l) = g) ?ls \<noteq> []" by (auto simp: filter_empty_conv)
    from hd_in_set[OF this] show ?thesis by simp
  qed
  then have "map (weight cfg \<circ> snd \<circ> hd) (sales_groups cfg start end db) = ?gs"
    unfolding sales_groups_def Let_def map_map by (intro map_idI) simp
  then show ?thesis by simp
qed

lemma sales_count_small:
  assumes "db_inv cfg db" and "grp \<in> set (sales_groups cfg start end db)"
  shows "sales_count grp < 2 ^ 63"
proof -
  have "sales_count grp \<le> sum_list (map sales_count (sales_groups cfg start end db))"
    using assms(2) by (simp add: member_le_sum_list)
  also have "\<dots> = sum_list (map oi_count (sold start end db))" by (rule sales_total[OF assms(1)])
  also have "\<dots> \<le> sum_list (map oi_count (ordered_items db))" unfolding sold_def by (rule sum_filter_le)
  finally show ?thesis using counts_bounded[OF assms(1)] by (simp add: counts_ok_def)
qed

lemma sales_positions: "columns_at GetStatistics_columns statistics_fields [0, 1, 2]"
  by (simp add: columns_at_def GetStatistics_columns_def statistics_fields_def FieldAndType_def lower_char_def)

lemma sales_cells_ok:
  "reads_numbers E cfg \<Longrightarrow> sales_count grp < 2 ^ 63 \<Longrightarrow>
     row_ok E (zip statistics_fields (map int [0, 1, 2])) (sales_cells cfg grp)"
  by (auto simp: row_ok_def statistics_fields_def FieldAndType_def sales_cells_def cell_ok_def
      cell_result_show_nat reads_amount)

lemma shows_sales_cells:
  assumes "order_ok E" and "reads_numbers E cfg" and "sales_count grp < 2 ^ 63"
  shows "shows_sales E cfg (item_of E statistics_fields [0, 1, 2] (sales_cells cfg grp)) grp"
proof -
  have "distinct (map (field_name \<circ> fst) (zip statistics_fields (map int [0, 1, 2])))"
    by (simp add: statistics_fields_def FieldAndType_def)
  note ref = item_of_ref[OF assms(1) this]
  show ?thesis
    using assms(2,3) unfolding shows_sales_def get_raw_int_ref get_raw_string_ref ref
    by (auto simp: field_index_def statistics_fields_def FieldAndType_def row_field_def sales_cells_def
        cell_result_show_nat reads_amount)
qed

text \<open>The income: \<open>0\<close> when nothing was sold, the sum of the costs of the lines otherwise.\<close>

definition income_text :: "sql_config \<Rightarrow> db \<Rightarrow> ordered_item_row list \<Rightarrow> string" where
  "income_text cfg db ois = (if ois = [] then ''0''
     else dbl_text cfg (dbl_sum cfg (map (\<lambda>oi. line_cost cfg (oi, item_of_line db oi)) ois)))"

lemma GetIncome_eq:
  "db_inv cfg db \<Longrightarrow> GetIncome cfg start end db = [[Some (income_text cfg db (sold start end db))]]"
  by (cases "sold start end db") (simp_all add: GetIncome_def sold_lines_eq income_text_def o_def)

lemma income_amount:
  "reads_numbers E cfg \<Longrightarrow>
     cell_result E VM_Number (income_text cfg db ois) = Some (amount E (income_text cfg db ois))"
  by (simp add: income_text_def reads_amount)

section \<open>The replies\<close>

lemma as_int_number: "fits_int i \<Longrightarrow> as_int (Arg_number (show_i64 i)) = Inr (sint i)"
  by (simp add: as_int_def as_integer_def Let_def show_i64_def parse_sint_show_int fits_int_def)

context sql_server
begin

lemma store_reply_shows:
  assumes "safe_call name args" and "columns_at cols flds ps"
    and "run_call cfg (now_of c) (name, args) (db_of c) = rows_of cols (map cells xs) (db_of c)"
    and "\<And>x. P x \<Longrightarrow> row_ok E (zip flds (map int ps)) (cells x)"
    and "\<And>x. P x \<Longrightarrow> S (item_of E flds ps (cells x)) x"
    and "\<And>x. x \<in> set xs \<Longrightarrow> P x"
  shows "\<exists>its c'. store_reply E d (call_text name args) table flds c = (Value (listing E table its), c') \<and>
     db_of c' = db_of c \<and> list_all2 S its xs"
proof -
  have "list_all (row_ok E (zip flds (map int ps))) (map cells xs)"
    using assms(4,6) by (auto simp: list_all_iff)
  from store_reply_listing[OF assms(1-3) this, of table]
  obtain c' where "store_reply E d (call_text name args) table flds c =
      (Value (listing E table (map (item_of E flds ps) (map cells xs))), c')" "db_of c' = db_of c" by blast
  moreover have "list_all2 S (map (item_of E flds ps) (map cells xs)) xs"
    using assms(5,6) by (auto simp: list.rel_map intro!: list.rel_refl_strong)
  ultimately show ?thesis by blast
qed

lemma get_items_reply:
  assumes "order_ok E" and "reads_numbers E cfg" and "db_inv cfg (db_of c)"
  shows "\<exists>its c'. get_items E d config c = (Value (listing E ''items'' its), c') \<and> db_of c' = db_of c \<and>
     list_all2 (shows_item E cfg) its (map (stocked_of (db_of c)) (items (db_of c)))"
proof -
  have "columns_at GetItems_columns items_fields [0, 1, 2, 3, 4, 5, 6]"
    by (simp add: columns_at_def GetItems_columns_def items_fields_def FieldAndType_def lower_char_def)
  moreover have "run_call cfg (now_of c) (''GetItems'', []) (db_of c) = rows_of GetItems_columns
      (map (item_cells cfg) (map (stocked_of (db_of c)) (items (db_of c)))) (db_of c)"
    by (simp add: run_query_calls GetItems_eq[OF assms(3)] o_def)
  moreover have "stocked_ok x" if "x \<in> set (map (stocked_of (db_of c)) (items (db_of c)))" for x
    using stocked_of_ok[OF assms(3)] that by auto
  ultimately show ?thesis
    unfolding get_items_def query_texts
    by (intro store_reply_shows[where P = stocked_ok and cells = "item_cells cfg" and
          S = "shows_item E cfg" and ps = "[0, 1, 2, 3, 4, 5, 6]"])
      (simp_all only: safe_call_def list.pred_inject item_cells_ok[OF assms(2)] shows_item_cells[OF assms(1,2)],
        simp_all)
qed

lemma get_order_items_reply:
  assumes "order_ok E" and "reads_numbers E cfg" and "db_inv cfg (db_of c)"
    and "get_raw_int config ''order_id'' = Some i" and "fits_int i"
  shows "\<exists>its c'. get_order_items E d config c = (Value (listing E ''order_items'' its), c') \<and>
     db_of c' = db_of c \<and> list_all2 (shows_line E cfg (db_of c)) its (order_lines (sint i) (db_of c))"
proof -
  have "run_call cfg (now_of c) (''GetOrderItems'', [Arg_number (show_i64 i)]) (db_of c) =
      rows_of GetOrderItems_columns (map (line_cells cfg (db_of c)) (order_lines (sint i) (db_of c))) (db_of c)"
    by (simp add: run_report_calls as_int_number[OF assms(5)] GetOrderItems_eq[OF assms(3)])
  note reply = store_reply_shows[where P = line_ok and cells = "line_cells cfg (db_of c)" and
      S = "shows_line E cfg (db_of c)", OF _ line_positions this line_cells_ok[OF assms(2)]
      shows_line_cells[OF assms(1,2)] order_lines_ok[OF assms(3)]]
  have "\<exists>its c'. store_reply E d (call_text ''GetOrderItems'' [Arg_number (show_i64 i)]) ''order_items''
       order_items_fields c = (Value (listing E ''order_items'' its), c') \<and> db_of c' = db_of c \<and>
     list_all2 (shows_line E cfg (db_of c)) its (order_lines (sint i) (db_of c))"
    by (rule reply) (simp_all add: safe_call_def)
  then show ?thesis
    unfolding get_order_items_def call_texts by (simp add: assms(4))
qed

lemma names_reply:
  assumes "order_ok E" and "small_ids (map n_id rs)" and "safe_call name []"
    and "run_call cfg (now_of c) (name, []) (db_of c) = rows_of named_columns (named_rows rs) (db_of c)"
  shows "\<exists>its c'. store_reply E d (call_text name []) table id_name_fields c = (Value (listing E table its), c') \<and>
     db_of c' = db_of c \<and> list_all2 shows_named its (map (\<lambda>r. (n_id r, n_name r)) rs)"
proof -
  have rows: "named_rows rs = map named_cells (map (\<lambda>r. (n_id r, n_name r)) rs)"
    by (simp add: named_rows_def named_cells_def)
  have small: "- (2 ^ 63) \<le> fst r \<and> fst r < 2 ^ 63" if "r \<in> set (map (\<lambda>r. (n_id r, n_name r)) rs)" for r
    using assms(2) that by (auto simp: small_ids_def list_all_iff)
  let ?P = "\<lambda>r :: int \<times> string. - (2 ^ 63) \<le> fst r \<and> fst r < 2 ^ 63"
  have cells: "?P r \<Longrightarrow> row_ok E (zip id_name_fields (map int [0, 1])) (named_cells r)"
    "?P r \<Longrightarrow> shows_named (item_of E id_name_fields [0, 1] (named_cells r)) r" for r
    by (blast intro: named_cells_ok shows_named_cells[OF assms(1)])+
  show ?thesis
    by (rule store_reply_shows[where P = ?P and cells = named_cells and S = shows_named,
          OF assms(3) columns_positions(5) assms(4)[unfolded rows] cells small])
qed

lemma get_expired_orders_reply:
  assumes "order_ok E" and "names_ok (db_of c)" and "db_inv cfg (db_of c)" and "days_ok cfg"
    and "safe_credentials config" and "authorised cfg config [''Admin'', ''Employee'', ''Accountant''] (db_of c)"
    and "\<And>E' R. now_of (snd (check_user_existance E' d config R c)) = now_of c"
  shows "\<exists>its c'. get_expired_orders E d config c = (Value (listing E ''expired_orders'' its), c') \<and>
     db_of c' = db_of c \<and> list_all2 (shows_order cfg) its
       (map (\<lambda>ord. (ord, customer_of (db_of c) ord)) (filter (order_expired cfg (now_of c)) (orders (db_of c))))"
proof -
  let ?R = "[''Admin'', ''Employee'', ''Accountant'']"
  obtain c1 where check: "check_user_existance E d config ?R c = (Value [], c1)" "db_of c1 = db_of c"
    using check_user_exact[OF assms(5) plain_ranks_used(1), of E c] assms(6) by (auto split: if_splits)
  have "now_of c1 = now_of c" using assms(7)[of E ?R] check(1) by simp
  moreover have "get_expired_orders E d config c =
      store_reply E d (call_text ''GetExpiredOrders'' []) ''expired_orders'' orders_fields c1"
    unfolding get_expired_orders_def query_texts by (simp add: guarded_def outcome_simps check(1))
  moreover have "run_call cfg (now_of c1) (''GetExpiredOrders'', []) (db_of c1) =
      rows_of Order_columns (order_rows cfg (order_expired cfg (now_of c1)) (db_of c1)) (db_of c1)"
    by (simp add: run_query_calls GetExpiredOrders_def)
  ultimately show ?thesis
    using orders_reply[of E c1 "''GetExpiredOrders''" "[]" "order_expired cfg (now_of c1)" "''expired_orders''"]
      assms(1-4) check(2)
    by (simp add: safe_call_def)
qed

text \<open>The reports over a period of two days, both included.\<close>

lemma with_dates_eq:
  assumes "get_raw_int (get_raw_ref config ''dates'') ''start_date'' = Some t1"
    and "get_raw_int (get_raw_ref config ''dates'') ''end_date'' = Some t2"
    and "f t1 t2 c = (Value v, c')"
  shows "with_dates E config f c = (Value v, c')"
  using assms by (simp add: with_dates_def try_bad_config_def Let_def int_value_def outcome_simps catch_all_def)

lemma get_income_reply:
  assumes "reads_numbers E cfg" and "db_inv cfg (db_of c)"
    and "get_raw_int (get_raw_ref config ''dates'') ''start_date'' = Some t1"
    and "get_raw_int (get_raw_ref config ''dates'') ''end_date'' = Some t2"
  shows "\<exists>c'. get_income E d config c = (Value (success @ LuaConfSerialize E
       (amount E (income_text cfg (db_of c)
          (sold (day_of_unix cfg (sint t1)) (day_of_unix cfg (sint t2)) (db_of c)))) ''income'' 0), c') \<and>
     db_of c' = db_of c"
proof -
  let ?args = "[Arg_from_unixtime (show_i64 t1), Arg_from_unixtime (show_i64 t2)]"
  let ?ls = "sold (day_of_unix cfg (sint t1)) (day_of_unix cfg (sint t2)) (db_of c)"
  let ?text = "income_text cfg (db_of c) ?ls"
  let ?res = "\<lparr>sr_ok = True, sr_columns = [''income''], sr_rows = [[Some ?text]]\<rparr>"
  let ?reply = "success @ LuaConfSerialize E (amount E ?text) ''income'' 0"
  let ?F = "\<lambda>start end. invoke_store d
      (call_text ''GetIncome'' [Arg_from_unixtime (show_i64 start), Arg_from_unixtime (show_i64 end)])
      (\<lambda>res. bindM (serialize_one_query_result E d res (FieldAndType ''income'' VM_Number))
        (\<lambda>s. retM (success @ s)))"
  have "safe_call ''GetIncome'' ?args" by (simp add: safe_call_def)
  moreover have "run_call cfg (now_of c) (''GetIncome'', ?args) (db_of c) =
      Inr (([''income''], [[Some ?text]]), db_of c)"
    by (simp add: run_report_calls as_date_show_i64 GetIncome_eq[OF assms(2)] rows_of_def)
  moreover have "bindM (serialize_one_query_result E d ?res (FieldAndType ''income'' VM_Number))
      (\<lambda>s. retM (success @ s)) c1 = (Value ?reply, c1)" for c1
    using field_num_ok[of "[''income'']" 0]
    by (simp add: serialize_one_query_result_def FieldAndType_def row_at_def cell_data_def convert_cell_eq
        outcome_simps bindM_def income_amount[OF assms(1)])
  ultimately have "\<exists>c'. ?F t1 t2 c = (Value ?reply, c') \<and> db_of c' = db_of c \<and> saved_of c' = saved_of c"
    by (rule invoke_store_ok)
  then obtain c' where r: "?F t1 t2 c = (Value ?reply, c')" and "db_of c' = db_of c" by blast
  with with_dates_eq[where f = ?F, OF assms(3,4) r] show ?thesis
    unfolding get_income_def call_texts by blast
qed

lemma get_statistics_reply:
  assumes "order_ok E" and "reads_numbers E cfg" and "db_inv cfg (db_of c)"
    and "get_raw_int (get_raw_ref config ''dates'') ''start_date'' = Some t1"
    and "get_raw_int (get_raw_ref config ''dates'') ''end_date'' = Some t2"
  shows "\<exists>its c'. get_statistics E d config c = (Value (listing E ''statistics'' its), c') \<and>
     db_of c' = db_of c \<and> list_all2 (shows_sales E cfg) its
       (sales_groups cfg (day_of_unix cfg (sint t1)) (day_of_unix cfg (sint t2)) (db_of c))"
proof -
  let ?args = "[Arg_from_unixtime (show_i64 t1), Arg_from_unixtime (show_i64 t2)]"
  let ?F = "\<lambda>start end. store_reply E d (call_text ''GetSellsStatiscticsByDistributors''
      [Arg_from_unixtime (show_i64 start), Arg_from_unixtime (show_i64 end)]) ''statistics'' statistics_fields"
  let ?groups = "sales_groups cfg (day_of_unix cfg (sint t1)) (day_of_unix cfg (sint t2)) (db_of c)"
  have "run_call cfg (now_of c) (''GetSellsStatiscticsByDistributors'', ?args) (db_of c) =
      rows_of GetStatistics_columns (map (sales_cells cfg) ?groups) (db_of c)"
    by (simp add: run_report_calls as_date_show_i64 statistics_eq)
  note reply = store_reply_shows[where P = "\<lambda>grp. sales_count grp < 2 ^ 63" and cells = "sales_cells cfg" and
      S = "shows_sales E cfg", OF _ sales_positions this sales_cells_ok[OF assms(2)]
      shows_sales_cells[OF assms(1,2)] sales_count_small[OF assms(3)]]
  have "\<exists>its c'. store_reply E d (call_text ''GetSellsStatiscticsByDistributors'' ?args) ''statistics''
       statistics_fields c = (Value (listing E ''statistics'' its), c') \<and> db_of c' = db_of c \<and>
     list_all2 (shows_sales E cfg) its ?groups"
    by (rule reply) (simp_all add: safe_call_def)
  then obtain its c' where r: "?F t1 t2 c = (Value (listing E ''statistics'' its), c')"
    and "db_of c' = db_of c" "list_all2 (shows_sales E cfg) its ?groups" by blast
  with with_dates_eq[where f = ?F, OF assms(4,5) r] show ?thesis
    unfolding get_statistics_def call_texts by blast
qed

end

end
