(* ===== verification/Report_Properties.thy ===== *)
theory Report_Properties
  imports Report_Replies
begin

text \<open>
  The properties of the reports on a session of the modelled database: the stock, the lines of an
  order, the expired orders, the income and the statistics of a period, each applied to the sample
  database after its order was completed.
\<close>

section \<open>The sample order, completed\<close>

definition done_session :: session where
  "done_session = sample_session\<lparr>s_db := sample_db\<lparr>orders := [\<lparr>o_id = 1, o_customer_tel = 123,
     o_date_of_start = 19675, o_date_of_expire = 20040, o_date_of_completion = Some 19675\<rparr>]\<rparr>\<rparr>"

definition period_request :: lua where
  "period_request = LTable [(''dates'',
     LTable [(''start_date'', LInt 1699920000), (''end_date'', LInt 1700006400)] [])] []"

lemma done_inv: "db_inv day_cfg (s_db done_session)"
  by (simp add: done_session_def sample_db_eval db_inv_defs day_cfg_def sample_cfg_def int_max_def uint_max_def)

lemma done_names: "names_ok (s_db done_session)"
  by (simp add: done_session_def sample_db_eval names_ok_def)

lemma day_cfg_authorised: "authorised day_cfg config R db = authorised sample_cfg config R db"
  by (simp add: authorised_def CheckUserExists_def sql_eq_def day_cfg_def split: option.split prod.split)

lemma period_days:
  "get_raw_int (get_raw_ref period_request ''dates'') ''start_date'' = Some 1699920000"
  "get_raw_int (get_raw_ref period_request ''dates'') ''end_date'' = Some 1700006400"
  "day_of_unix day_cfg (sint (1699920000 :: i64)) = Some 19675"
  "day_of_unix day_cfg (sint (1700006400 :: i64)) = Some 19676"
  by (simp_all add: period_request_def get_raw_of_ref day_cfg_def sample_cfg_def)

section \<open>The stock and the lines of an order\<close>

text \<open>
  The reply of \<open>get_items\<close> is the listing of the whole stock in the order of the table: every item
  exactly once, with its distributor's and its kind's name, its count as a 64-bit integer and its
  price as the \<open>double\<close> that the text of the server reads as.
\<close>

theorem get_items_complete:
  assumes "order_ok E" and "reads_numbers E cfg" and "db_inv cfg (s_db s)"
  shows "\<exists>its s'. get_items E (session_driver cfg other ins) config s =
       (Value (listing E ''items'' its), s') \<and> s_db s' = s_db s \<and>
     list_all2 (shows_item E cfg) its (map (stocked_of (s_db s)) (items (s_db s)))"
  by (rule session.get_items_reply[OF assms])

theorem get_items_complete_witness:
  "\<exists>its s'. get_items sample_env (session_driver day_cfg sample_other no_id) (LTable [] [])
       done_session = (Value (listing sample_env ''items'' its), s') \<and> length its = 3"
  using get_items_complete[OF sample_order_ok sample_reads done_inv, of sample_other no_id "LTable [] []"]
  by (auto dest!: list_all2_lengthD simp: done_session_def sample_db_eval)

text \<open>
  C33: The reply of \<open>get_order_items\<close> lists exactly the lines of the order whose number is given, each
  with its item's name, description, distributor and price, the ordered count, and the price of
  the line.
\<close>

theorem get_order_items_exact:
  assumes "order_ok E" and "reads_numbers E cfg" and "db_inv cfg (s_db s)"
    and "get_raw_int config ''order_id'' = Some i" and "fits_int i"
  shows "\<exists>its s'. get_order_items E (session_driver cfg other ins) config s =
       (Value (listing E ''order_items'' its), s') \<and> s_db s' = s_db s \<and>
     list_all2 (shows_line E cfg (s_db s)) its (order_lines (sint i) (s_db s))"
  by (rule session.get_order_items_reply[OF assms])

theorem get_order_items_exact_witness:
  "\<exists>its s'. get_order_items sample_env (session_driver day_cfg sample_other no_id)
       (LTable [(''order_id'', LInt 1)] []) done_session =
     (Value (listing sample_env ''order_items'' its), s') \<and> length its = 4"
proof -
  have "get_raw_int (LTable [(''order_id'', LInt 1)] []) ''order_id'' = Some 1" "fits_int (1 :: i64)"
    by (simp_all add: get_raw_of_ref fits_int_def int_max_def)
  from get_order_items_exact[OF sample_order_ok sample_reads done_inv this, of sample_other no_id]
  show ?thesis
    by (auto dest!: list_all2_lengthD simp: done_session_def sample_db_eval order_lines_def)
qed

section \<open>The period reports\<close>

text \<open>
  C34: The reply of \<open>get_income\<close> carries the price of exactly the lines that belong to an order
  completed between the days of the two given times, each line counted once with its item's price
  times its count; it is \<open>0\<close> when there is none.
\<close>

theorem get_income_exact:
  assumes "reads_numbers E cfg" and "db_inv cfg (s_db s)"
    and "get_raw_int (get_raw_ref config ''dates'') ''start_date'' = Some t1"
    and "get_raw_int (get_raw_ref config ''dates'') ''end_date'' = Some t2"
    and "day_of_unix cfg (sint t1) = d1" and "day_of_unix cfg (sint t2) = d2"
  shows "\<exists>s'. get_income E (session_driver cfg other ins) config s = (Value (success @ LuaConfSerialize E
       (amount E (income_text cfg (s_db s) (sold d1 d2 (s_db s)))) ''income'' 0), s') \<and> s_db s' = s_db s"
  using session.get_income_reply[OF assms(1-4), of other ins] by (simp add: assms(5,6))

theorem get_income_exact_witness:
  "\<exists>s'. get_income sample_env (session_driver day_cfg sample_other no_id) period_request done_session =
     (Value (success @ LuaConfSerialize sample_env (amount sample_env (income_text day_cfg (s_db done_session)
        (ordered_items sample_db))) ''income'' 0), s')"
proof -
  have "sold (Some 19675) (Some 19676) (s_db done_session) = ordered_items sample_db"
    by (simp add: sold_def order_of_line_def completed_between_def done_session_def sample_db_eval)
  with get_income_exact[OF sample_reads done_inv period_days, of sample_other no_id]
  show ?thesis by auto
qed



section \<open>Expired orders\<close>

text \<open>
  To a user of the staff, the reply of \<open>get_expired_orders\<close> lists exactly the orders that are late:
  those completed after their day of expiry, and the open ones whose day of expiry has passed at
  the time of the request.
\<close>

theorem get_expired_orders_exact:
  assumes "order_ok E" and "names_ok (s_db s)" and "db_inv cfg (s_db s)" and "days_ok cfg"
    and "safe_credentials config" and "authorised cfg config [''Admin'', ''Employee'', ''Accountant''] (s_db s)"
  shows "\<exists>its s'. get_expired_orders E (session_driver cfg other ins) config s =
       (Value (listing E ''expired_orders'' its), s') \<and> s_db s' = s_db s \<and>
     list_all2 (shows_order cfg) its (map (\<lambda>ord. (ord, customer_of (s_db s) ord))
       (filter (\<lambda>ord. case o_date_of_completion ord of
            Some d \<Rightarrow> o_date_of_expire ord < d
          | None \<Rightarrow> unix_of_day cfg (o_date_of_expire ord) < s_now s) (orders (s_db s))))"
proof -
  have "order_expired cfg (s_now s) = (\<lambda>ord. case o_date_of_completion ord of
       Some d \<Rightarrow> o_date_of_expire ord < d | None \<Rightarrow> unix_of_day cfg (o_date_of_expire ord) < s_now s)"
    by (intro ext) (simp add: order_expired_def split: option.split)
  moreover have "s_now (snd (check_user_existance E' (session_driver cfg other ins) config R s)) = s_now s" for E' R
    by (rule check_clock)
  ultimately show ?thesis
    using session.get_expired_orders_reply[OF assms, of other ins] by simp
qed

theorem get_expired_orders_exact_witness:
  "\<exists>its s'. get_expired_orders sample_env (session_driver day_cfg sample_other no_id) (admin_request [])
       (sample_session\<lparr>s_now := 1800000000\<rparr>) =
     (Value (listing sample_env ''expired_orders'' its), s') \<and> length its = 1"
proof -
  let ?s = "sample_session\<lparr>s_now := 1800000000\<rparr>"
  have pre: "names_ok (s_db ?s)" "db_inv day_cfg (s_db ?s)"
    using session_sample_inv(1) day_cfg_inv by simp_all
  have "authorised day_cfg (admin_request []) [''Admin'', ''Employee'', ''Accountant''] (s_db ?s)"
    unfolding day_cfg_authorised using admin_authorised[of "[''Admin'', ''Employee'', ''Accountant'']" "[]"] by simp
  from get_expired_orders_exact[OF sample_order_ok pre day_cfg_ok admin_safe this, of sample_other no_id]
  show ?thesis
    by (auto dest!: list_all2_lengthD simp: sample_db_eval day_cfg_def)
qed

end
