(* ===== verification/Request_Answers.thy ===== *)
theory Request_Answers
  imports Report_Properties
begin

text \<open>
  No request ends the server process or leaves it waiting: a small logic of outcomes (which
  exceptions may leave an action, never a failed assertion, never an endless loop), one rule per
  construct of the handlers, and the theorem that every message is answered.
\<close>

section \<open>Which way an action may end\<close>

named_theorems calm_intros "rules for the ways an action may end"

fun may_end :: "(exn \<Rightarrow> bool) \<Rightarrow> 'a outcome \<Rightarrow> bool" where
  "may_end X (Value v) = True"
| "may_end X (Throw e) = X e"
| "may_end X Abort = False"
| "may_end X Diverge = False"

definition calm :: "(exn \<Rightarrow> bool) \<Rightarrow> ('c, 'a) act \<Rightarrow> bool" where
  "calm X m \<longleftrightarrow> (\<forall>c. may_end X (fst (m c)))"

abbreviation answers :: "('c, 'a) act \<Rightarrow> bool" where
  "answers \<equiv> calm (\<lambda>e. False)"

lemma calmI: "(\<And>c r c'. m c = (r, c') \<Longrightarrow> may_end X r) \<Longrightarrow> calm X m"
  unfolding calm_def by (metis prod.collapse)

lemma calmD: "calm X m \<Longrightarrow> m c = (r, c') \<Longrightarrow> may_end X r"
  unfolding calm_def by (metis fst_conv)

lemma answers_value:
  assumes "answers m"
  shows "\<exists>v c'. m c = (Value v, c')"
proof -
  obtain r c' where r: "m c = (r, c')" by force
  then show ?thesis using calmD[OF assms r] by (cases r) auto
qed

lemma calm_basic [calm_intros]:
  "calm X (retM v)" "calm X (effect f)" "calm X (readM g)"
  by (simp_all add: calm_def outcome_simps)

lemma calm_valueM [calm_intros]: "X e \<Longrightarrow> calm X (valueM e v)"
  by (cases v) (simp_all add: calm_def outcome_simps valueM_def)

lemma calm_bind [calm_intros]:
  assumes "calm X m" and "\<And>x. calm X (f x)"
  shows "calm X (bindM m f)"
proof (rule calmI)
  fix c r c'
  assume run: "bindM m f c = (r, c')"
  obtain r1 c1 where m: "m c = (r1, c1)" by force
  have "may_end X r1" using assms(1) m by (rule calmD)
  then show "may_end X r"
    using run calmD[OF assms(2)] by (cases r1) (auto simp: m bindM_def)
qed

lemma calm_if [calm_intros]: "calm X m \<Longrightarrow> calm X n \<Longrightarrow> calm X (if b then m else n)"
  by simp

lemma calm_catch_all [calm_intros]:
  assumes "calm (\<lambda>e. True) m" and "calm X h"
  shows "calm X (catch_all m h)"
proof (rule calmI)
  fix c r c'
  assume run: "catch_all m h c = (r, c')"
  obtain r1 c1 where m: "m c = (r1, c1)" by force
  have "may_end (\<lambda>e. True) r1" using assms(1) m by (rule calmD)
  then show "may_end X r"
    using run calmD[OF assms(2)] by (cases r1) (auto simp: m catch_all_def)
qed

lemma calm_catch_std [calm_intros]:
  assumes "calm (\<lambda>e. e \<noteq> Exn_other) m" and "calm X h"
  shows "calm X (catch_std m h)"
proof (rule calmI)
  fix c r c'
  assume run: "catch_std m h c = (r, c')"
  obtain r1 c1 where m: "m c = (r1, c1)" by force
  have "may_end (\<lambda>e. e \<noteq> Exn_other) r1" using assms(1) m by (rule calmD)
  then show "may_end X r"
    using run calmD[OF assms(2)] by (cases r1) (auto simp: m catch_std_def)
qed

lemma calm_transaction [calm_intros]:
  assumes "calm X body"
  shows "calm X (with_transaction d body)"
proof (rule calmI)
  fix c r c'
  assume run: "with_transaction d body c = (r, c')"
  obtain r1 c1 where body: "body (tx_start d c) = (r1, c1)" by force
  have "may_end X r1" using assms body by (rule calmD)
  then show "may_end X r"
    using run by (cases r1) (auto simp: body with_transaction_def split: prod.splits)
qed

lemma calm_values:
  "X (value_exn E) \<Longrightarrow> calm X (string_value E t k)"
  "X (value_exn E) \<Longrightarrow> calm X (int_value E t k)"
  "X (value_exn E) \<Longrightarrow> calm X (number_value E t k)"
  by (simp_all add: string_value_def int_value_def number_value_def calm_intros)

lemma calm_reply_error [calm_intros]: "calm X (reply_error d)" "calm X (rollback_reply d)"
  unfolding rollback_reply_def reply_error_def by (intro calm_intros)+

lemma calm_collect_items: "X (value_exn E) \<Longrightarrow> calm X (collect_items E t is)"
  by (induction "is") (auto simp: Let_def intro!: calm_intros calm_values)

text \<open>The reply of a query is text, from every state of the database that the invariant allows.\<close>

definition gets_reply :: "('c, string) act \<Rightarrow> 'c \<Rightarrow> bool" where
  "gets_reply m c \<longleftrightarrow> (\<exists>v c'. m c = (Value v, c'))"

lemma answers_replies: "answers m \<Longrightarrow> gets_reply m c"
  using answers_value by (auto simp: gets_reply_def)

lemma replies_with_dates:
  assumes "\<And>t1 t2. get_raw_int (get_raw_ref config ''dates'') ''start_date'' = Some t1 \<Longrightarrow>
    get_raw_int (get_raw_ref config ''dates'') ''end_date'' = Some t2 \<Longrightarrow> gets_reply (with_dates E config f) c"
  shows "gets_reply (with_dates E config f) c"
proof (cases "get_raw_int (get_raw_ref config ''dates'') ''start_date'' = None \<or>
    get_raw_int (get_raw_ref config ''dates'') ''end_date'' = None")
  case True
  then show ?thesis
    by (cases "get_raw_int (get_raw_ref config ''dates'') ''start_date''")
      (auto simp: gets_reply_def with_dates_def try_bad_config_def Let_def int_value_def valueM_def outcome_simps
        catch_all_def)
qed (use assms in auto)

section \<open>The handlers\<close>

text \<open>A driver on which the loop over further results ends; the rest of it does not matter here.\<close>

locale draining =
  fixes d :: "'c driver"
  assumes drain_ends: "fst (drain d c) = Value ()"
begin

lemma calm_drain: "calm X (drain d)"
  using drain_ends by (simp add: calm_def)

lemma calm_invoke_store [calm_intros]:
  assumes "\<And>res. calm X (f res)"
  shows "calm X (invoke_store d t f)"
proof (rule calmI)
  fix c r c'
  assume run: "invoke_store d t f c = (r, c')"
  obtain res c1 where q: "query_store d t c = (res, c1)" by force
  have "calm X (bindM (f res) (\<lambda>v. bindM (drain d) (\<lambda>_. retM v)))"
    by (intro calm_intros assms calm_drain)
  then show "may_end X r"
    using run by (auto simp: invoke_store_def q dest: calmD)
qed

lemma calm_invoke_exec [calm_intros]:
  assumes "\<And>res. calm X (f res)"
  shows "calm X (invoke_exec d t f)"
proof (rule calmI)
  fix c r c'
  assume run: "invoke_exec d t f c = (r, c')"
  obtain res c1 where q: "query_exec d t c = (res, c1)" by force
  have "calm X (bindM (f res) (\<lambda>v. bindM (drain d) (\<lambda>_. retM v)))"
    by (intro calm_intros assms calm_drain)
  then show "may_end X r"
    using run by (auto simp: invoke_exec_def q dest: calmD)
qed

lemma calm_check: "answers (check_user_existance E d config R)"
  unfolding check_user_existance_def Let_def by (intro calm_intros calm_values) simp_all

lemma calm_guarded [calm_intros]: "answers body \<Longrightarrow> answers (guarded E d config R body)"
  unfolding guarded_def by (intro calm_intros calm_check)

lemma calm_exec [calm_intros]: "calm X (exec_always d t)" "calm X (exec_checked d t)"
  unfolding exec_always_def exec_checked_def by (intro calm_intros)+

lemma calm_try [calm_intros]: "calm (\<lambda>e. True) body \<Longrightarrow> answers (try_bad_config body)"
  unfolding try_bad_config_def by (intro calm_intros)

lemma calm_add_ordered_items [calm_intros]: "calm X (add_ordered_items d i its)"
  by (induction its) (auto intro!: calm_intros)

lemma calm_add_order_transaction [calm_intros]: "calm X (add_order_transaction d tel expire its)"
proof -
  have "calm X (case r of Inl e \<Rightarrow> retM (e, True) | Inr i \<Rightarrow> bindM (add_ordered_items d i its)
      (\<lambda>r. if r \<noteq> [] then retM (r, True) else bindM (effect (tx_commit d)) (\<lambda>_. retM (success, True))))" for r
    by (cases r) (auto intro!: calm_intros)
  then show ?thesis
    unfolding add_order_transaction_def by (intro calm_intros)
qed

text \<open>Changes end with an answer on every message: none of them has an assertion.\<close>

lemma calm_changes:
  "answers (auth E d config)" "answers (delete_user E d config)" "answers (update_user E d config)"
  "answers (create_customer E d config)" "answers (delete_customer E d config)"
  "answers (add_item E d config)" "answers (add_item_count E d config)"
  "answers (complete_order E d config)" "answers (add_order E d config)"
  unfolding auth_def delete_user_def update_user_def create_customer_def delete_customer_def add_item_def
    add_item_count_def complete_order_def add_order_def Let_def
  by (intro calm_intros calm_values calm_collect_items TrueI)+

lemma calm_create_user: "value_exn E \<noteq> Exn_other \<Longrightarrow> answers (create_user E d config)"
  unfolding create_user_def Let_def by (intro calm_intros calm_values)

end

sublocale sql_server < draining d
  by unfold_locales (metis drain_ok prod.collapse)

context sql_server
begin

lemma replies_guarded:
  assumes "safe_credentials config" and "plain_ranks R"
    and "authorised cfg config R (db_of c) \<Longrightarrow> gets_reply (guarded E d config R body) c"
  shows "gets_reply (guarded E d config R body) c"
proof (cases "authorised cfg config R (db_of c)")
  case False
  then show ?thesis using guarded_refused_exact[OF assms(1,2), of c E body] by (auto simp: gets_reply_def)
qed (rule assms(3))

end

lemma fixed_names:
  assumes "db_inv cfg db"
  shows "small_ids (map n_id (distributors db))" and "small_ids (map n_id (item_types db))"
    and "small_ids (map r_id (ranks db))"
proof -
  have "- (2 ^ 63) \<le> i \<and> i < 2 ^ 63" if "id_ok (int_max + 1) i" for i
    using that by (simp add: id_ok_def int_max_def)
  then show "small_ids (map n_id (distributors db))" "small_ids (map n_id (item_types db))"
    "small_ids (map r_id (ranks db))"
    using assms by (simp_all add: small_ids_def list_all_iff db_inv_def ids_ok_def)
qed

lemma ranks_named: "GetRanks_columns = named_columns"
    "GetRanks db = map (named_cells \<circ> (\<lambda>r. (r_id r, r_name r))) (ranks db)"
  by (simp_all add: GetRanks_columns_def named_columns_def GetRanks_def named_cells_def o_def)

context sql_server
begin

lemma ids_names_reply:
  assumes "order_ok E" and "small_ids (map fst rs)" and "safe_call name []"
    and "run_call cfg (now_of c) (name, []) (db_of c) = rows_of named_columns (map named_cells rs) (db_of c)"
  shows "gets_reply (store_reply E d (call_text name []) table id_name_fields) c"
proof -
  let ?rs = "map (\<lambda>r. \<lparr>n_id = fst r, n_name = snd r\<rparr>) rs"
  have "named_rows ?rs = map named_cells rs" by (simp add: named_rows_def named_cells_def[abs_def] o_def)
  moreover have "small_ids (map n_id ?rs)" using assms(2) by (simp add: o_def)
  ultimately show ?thesis
    using names_reply[of E ?rs name c table] assms by (auto simp: gets_reply_def)
qed

text \<open>The queries that read one of the three fixed tables, or any caller may ask.\<close>

lemma table_queries:
  assumes "order_ok E" and "db_inv cfg (db_of c)"
  shows "gets_reply (get_ranks E d config) c" "gets_reply (get_distributors E d config) c"
    "gets_reply (get_item_types E d config) c"
proof -
  note small = fixed_names[OF assms(2)]
  show "gets_reply (get_ranks E d config) c"
    unfolding get_ranks_def query_texts
    by (rule ids_names_reply[OF assms(1), of "map (\<lambda>r. (r_id r, r_name r)) (ranks (db_of c))"])
      (use small(3) in \<open>simp_all add: safe_call_def run_query_calls ranks_named o_def\<close>)
  show "gets_reply (get_distributors E d config) c"
    unfolding get_distributors_def query_texts
    using names_reply[OF assms(1) small(1), where name = "''GetDistributors''" and c = c and table = "''distributors''"]
    by (auto simp: gets_reply_def safe_call_def run_query_calls GetDistributors_def)
  show "gets_reply (get_item_types E d config) c"
    unfolding get_item_types_def query_texts
    using names_reply[OF assms(1) small(2), where name = "''GetItemTypes''" and c = c and table = "''item_types''"]
    by (auto simp: gets_reply_def safe_call_def run_query_calls GetItemTypes_def)
qed

lemma order_queries:
  assumes "order_ok E" and "names_ok (db_of c)" and "db_inv cfg (db_of c)" and "days_ok cfg"
  shows "gets_reply (get_customers E d config) c" "gets_reply (get_orders E d config) c"
    "gets_reply (get_completed_orders E d config) c"
proof -
  show "gets_reply (get_customers E d config) c"
    using get_customers_reply[OF assms(1,2), of config] by (auto simp: gets_reply_def)
  show "gets_reply (get_orders E d config) c"
    using get_orders_reply[OF assms, of config] by (auto simp: gets_reply_def)
  have "gets_reply (get_completed_orders E d config) c"
    if "get_raw_int (get_raw_ref config ''dates'') ''start_date'' = Some t1"
      "get_raw_int (get_raw_ref config ''dates'') ''end_date'' = Some t2" for t1 t2
    using get_completed_orders_reply[OF assms that] by (auto simp: gets_reply_def)
  then show "gets_reply (get_completed_orders E d config) c"
    unfolding get_completed_orders_def by (rule replies_with_dates)
qed

lemma amount_queries:
  assumes "order_ok E" and "reads_numbers E cfg" and "db_inv cfg (db_of c)"
  shows "gets_reply (get_items E d config) c" "gets_reply (get_income E d config) c"
    "gets_reply (get_statistics E d config) c"
proof -
  show "gets_reply (get_items E d config) c"
    using get_items_reply[OF assms, of config] by (auto simp: gets_reply_def)
  have "gets_reply (get_income E d config) c"
    if "get_raw_int (get_raw_ref config ''dates'') ''start_date'' = Some t1"
      "get_raw_int (get_raw_ref config ''dates'') ''end_date'' = Some t2" for t1 t2
    using get_income_reply[OF assms(2,3) that] by (auto simp: gets_reply_def)
  then show "gets_reply (get_income E d config) c"
    unfolding get_income_def by (rule replies_with_dates)
  have "gets_reply (get_statistics E d config) c"
    if "get_raw_int (get_raw_ref config ''dates'') ''start_date'' = Some t1"
      "get_raw_int (get_raw_ref config ''dates'') ''end_date'' = Some t2" for t1 t2
    using get_statistics_reply[OF assms that] by (auto simp: gets_reply_def)
  then show "gets_reply (get_statistics E d config) c"
    unfolding get_statistics_def by (rule replies_with_dates)
qed

lemma get_order_items_replies:
  assumes "order_ok E" and "reads_numbers E cfg" and "db_inv cfg (db_of c)"
    and "\<And>i. get_raw_int config ''order_id'' = Some i \<Longrightarrow> fits_int i"
  shows "gets_reply (get_order_items E d config) c"
proof (cases "get_raw_int config ''order_id''")
  case None
  then show ?thesis by (simp add: get_order_items_def gets_reply_def outcome_simps)
next
  case (Some i)
  with get_order_items_reply[OF assms(1-3) Some assms(4)[OF Some]] show ?thesis
    by (auto simp: gets_reply_def)
qed

lemma staff_queries:
  assumes "order_ok E" and "names_ok (db_of c)" and "db_inv cfg (db_of c)" and "days_ok cfg"
    and "safe_credentials config"
    and "\<And>E' R. now_of (snd (check_user_existance E' d config R c)) = now_of c"
  shows "gets_reply (get_users E d config) c" "gets_reply (get_expired_orders E d config) c"
proof -
  have "gets_reply (get_users E d config) c" if "authorised cfg config [''Admin''] (db_of c)"
    using get_users_reply[OF assms(1-3,5) that] by (auto simp: gets_reply_def)
  then show "gets_reply (get_users E d config) c"
    unfolding get_users_def by (rule replies_guarded[OF assms(5) plain_ranks_used(2)])
  have "gets_reply (get_expired_orders E d config) c"
    if "authorised cfg config [''Admin'', ''Employee'', ''Accountant''] (db_of c)"
    using get_expired_orders_reply[OF assms(1-5) that assms(6)] by (auto simp: gets_reply_def)
  then show "gets_reply (get_expired_orders E d config) c"
    unfolding get_expired_orders_def by (rule replies_guarded[OF assms(5) plain_ranks_used(1)])
qed

text \<open>All requests together.\<close>

lemma request_replies:
  assumes "order_ok E" and "reads_numbers E cfg" and "value_exn E \<noteq> Exn_other"
    and "names_ok (db_of c)" and "db_inv cfg (db_of c)" and "days_ok cfg" and "safe_credentials config"
    and "\<And>E' R. now_of (snd (check_user_existance E' d config R c)) = now_of c"
    and "map_of requests name = Some h"
    and "\<And>i. name = ''get_order_items'' \<Longrightarrow> get_raw_int config ''order_id'' = Some i \<Longrightarrow> fits_int i"
  shows "gets_reply (h E d config) c"
proof -
  note others = calm_changes[THEN answers_replies] calm_create_user[OF assms(3), THEN answers_replies]
    table_queries[OF assms(1,5)] order_queries[OF assms(1,4-6)] amount_queries[OF assms(1,2,5)]
    staff_queries[OF assms(1,4-8)]
  have "list_all (\<lambda>(n, h). n \<noteq> ''get_order_items'' \<longrightarrow> gets_reply (h E d config) c) requests"
    unfolding requests_def by (simp add: others)
  moreover have "(name, h) \<in> set requests" using assms(9) by (rule map_of_SomeD)
  ultimately have "name \<noteq> ''get_order_items'' \<Longrightarrow> gets_reply (h E d config) c"
    by (auto simp: list_all_iff)
  moreover have "gets_reply (h E d config) c" if "name = ''get_order_items''"
  proof -
    have "h = get_order_items" using assms(9) that by (simp add: requests_def)
    then show ?thesis
      using get_order_items_replies[OF assms(1,2,5)] assms(10)[OF that] by simp
  qed
  ultimately show ?thesis by blast
qed

end

section \<open>Every message is answered\<close>

lemma sound_clock:
  "order_ok (E\<lparr>clock := t\<rparr>) = order_ok E" "reads_numbers (E\<lparr>clock := t\<rparr>) cfg = reads_numbers E cfg"
  by (simp_all add: order_ok_def reads_numbers_def cell_result_def)

lemma message_reply:
  assumes "walk_of walk requests" and "order_ok E" and "reads_numbers E cfg" and "value_exn E \<noteq> Exn_other"
    and "names_ok (s_db s)" and "db_inv cfg (s_db s)" and "days_ok cfg"
    and "\<And>config. exec msg = Some config \<Longrightarrow> safe_credentials config"
    and "\<And>config i. exec msg = Some config \<Longrightarrow> get_config_request config = ''get_order_items'' \<Longrightarrow>
      get_raw_int config ''order_id'' = Some i \<Longrightarrow> fits_int i"
  shows "\<exists>reply s'. process_request E (session_driver cfg other ins) exec walk msg s = (Value reply, s')"
proof (cases "exec msg")
  case None
  then show ?thesis by (simp add: process_request_cases[OF assms(1)])
next
  case (Some config)
  show ?thesis
  proof (cases "map_of (requests :: (string \<times> session handler) list) (get_config_request config)")
    case None
    then show ?thesis by (simp add: process_request_cases[OF assms(1)] Some)
  next
    case h: (Some h)
    have "s_now (snd (check_user_existance E' (session_driver cfg other ins) config R s)) = s_now s" for E' R
      by (rule check_clock)
    from session.request_replies[OF assms(2-7) assms(8)[OF Some] this h assms(9)[OF Some]]
    show ?thesis by (simp add: process_request_cases[OF assms(1)] Some h gets_reply_def)
  qed
qed

text \<open>
  Every message gets a reply, whatever it says and whoever sends it: no assertion fails, no exception
  leaves the handler, no loop runs for ever. Needed for this are a database in order with telephone
  numbers below 2^63, numbers and days that can be read, credentials without quotes, and, for
  \<open>get_order_items\<close>, an order number that is an \<open>INT\<close>.
\<close>

theorem every_message_answered:
  assumes "walk_of walk requests" and "order_ok E" and "reads_numbers E cfg" and "value_exn E \<noteq> Exn_other"
    and "names_ok (s_db s)" and "db_inv cfg (s_db s)" and "days_ok cfg"
    and "\<And>config. exec msg = Some config \<Longrightarrow> safe_credentials config"
    and "\<And>config i. exec msg = Some config \<Longrightarrow> get_config_request config = ''get_order_items'' \<Longrightarrow>
      get_raw_int config ''order_id'' = Some i \<Longrightarrow> fits_int i"
  shows "\<exists>reply s'. process_request E (session_driver cfg other ins) exec walk msg s = (Value reply, s')"
  by (rule message_reply[OF assms])

text \<open>The administrator asks for the accounts.\<close>

theorem every_message_answered_witness:
  "\<exists>reply s'. process_request sample_env (session_driver day_cfg sample_other no_id)
     (\<lambda>msg. Some (admin_request [(''request'', LString ''get_users'')])) requests [] done_session = (Value reply, s')"
proof (rule every_message_answered[OF _ sample_order_ok sample_reads _ done_names done_inv day_cfg_ok])
  have "get_config_request (admin_request [(''request'', LString ''get_users'')]) = ''get_users''"
    by (simp add: get_config_request_def get_raw_string_def get_raw_of_ref)
  then show "fits_int i" if "Some (admin_request [(''request'', LString ''get_users'')]) = Some config"
    "get_config_request config = ''get_order_items''" for config i
    using that by simp
qed (auto simp: walk_of_def request_set_requests sample_env_def)

end
