(* ===== verification/Server_Uptime.thy ===== *)
theory Server_Uptime
  imports Server_Connections Request_Answers
begin

text \<open>
  What can end the running server: whatever its clients send, in whatever order the handlers of
  the connections run, no message ends the process, as long as the credentials in the messages can
  be put between quotes and \<open>get_order_items\<close> is asked for an \<open>INT\<close>. A client that resets its connection can.
\<close>

section \<open>Messages without quotes in the credentials\<close>

definition gentle :: "lua \<Rightarrow> bool" where
  "gentle config \<longleftrightarrow> safe_credentials config \<and>
     (get_config_request config = ''get_order_items'' \<longrightarrow>
        (case get_raw_int config ''order_id'' of None \<Rightarrow> True | Some i \<Rightarrow> fits_int i))"

text \<open>What the rest of the system has to keep: the VM, the database server and its calendar.\<close>

definition sound_setup :: "service_setup \<Rightarrow> bool" where
  "sound_setup P \<longleftrightarrow> walk_of (su_walk P) requests \<and> order_ok (su_env P) \<and> reads_numbers (su_env P) (su_cfg P) \<and>
     value_exn (su_env P) \<noteq> Exn_other \<and> days_ok (su_cfg P)"

lemma serve_replies:
  assumes "sound_setup P" and "\<And>config. su_exec P m = Some config \<Longrightarrow> gentle config"
    and "session_ok (su_cfg P) s" and "serve P t m s = (r, s')"
  shows "(\<exists>reply. r = Value reply) \<and> session_ok (su_cfg P) s'"
proof -
  let ?E = "su_env P\<lparr>clock := t\<rparr>" and ?d = "session_driver (su_cfg P) (su_other P) (su_ins P)"
  have sound: "walk_of (su_walk P) requests" "order_ok ?E" "reads_numbers ?E (su_cfg P)" "value_exn ?E \<noteq> Exn_other"
    "days_ok (su_cfg P)"
    using assms(1) by (simp_all add: sound_setup_def sound_clock)
  have db: "names_ok (s_db s)" "db_inv (su_cfg P) (s_db s)"
    using assms(3) by (simp_all add: session_ok_def session_inv_def)
  have gentle: "safe_credentials config"
    "get_config_request config = ''get_order_items'' \<Longrightarrow> get_raw_int config ''order_id'' = Some i \<Longrightarrow> fits_int i"
    if "su_exec P m = Some config" for config i
    using assms(2)[OF that] by (auto simp: gentle_def)
  obtain reply s1 where run: "process_request ?E ?d (su_exec P) (su_walk P) m s = (Value reply, s1)"
    using message_reply[OF sound(1-4) db sound(5), of "su_exec P" m "su_other P" "su_ins P"] gentle by auto
  have "session_ok (su_cfg P) s1"
    using withinD[OF session_keeps.maintains_process_request[OF sound(1)], of "su_cfg P" s ?E "su_other P" "su_ins P"
        "su_exec P" m] assms(3) by (simp add: run)
  then show ?thesis using assms(4) by (auto simp: serve_def run)
qed

definition up_inv :: "service_setup \<Rightarrow> server \<Rightarrow> bool" where
  "up_inv P sv \<longleftrightarrow> (down sv \<longrightarrow> su_resets P) \<and> session_ok (su_cfg P) (database sv)"

lemma up_step:
  assumes "service_step P sv sv'" and "up_inv P sv" and "sound_setup P"
    and "\<And>m config. su_exec P m = Some config \<Longrightarrow> gentle config"
  shows "up_inv P sv'"
  using assms(1)
proof cases
  case (request i m t reply s')
  with serve_replies[OF assms(3,4) _ request(5)] assms(2) show ?thesis by (simp add: up_inv_def)
next
  case (crash i m t r s')
  have "session_ok (su_cfg P) (database sv)" using assms(2) by (simp add: up_inv_def)
  then have "\<exists>reply. r = Value reply"
    using serve_replies[OF assms(3) _ _ crash(5)] assms(4) by blast
  with crash(6) show ?thesis by simp
qed (use assms(2) in \<open>simp_all add: up_inv_def session_ok_def session_inv_def\<close>)



text \<open>
  One client is enough for that: it connects, lets the server read, and resets the connection when the server is about
  to print where it came from. No database access is needed, and whatever was asked before is not lost.
\<close>

theorem peer_reset_ends_server:
  assumes "(service_step P)\<^sup>*\<^sup>* (Running_server s) sv" and "\<not> down sv" and "accepting sv" and "su_resets P"
  shows "\<exists>sv'. (service_step P)\<^sup>*\<^sup>* sv sv' \<and> down sv' \<and> length (connections sv') = Suc (length (connections sv)) \<and>
     log sv' = log sv \<and> replay P (log sv') s = Some (database sv')"
proof -
  let ?n = "length (connections sv)"
  let ?sv1 = "sv\<lparr>connections := connections sv @ [Start Create]\<rparr>"
  let ?c = "(Start Create)\<lparr>io := IO_read (Inl Read_eof)\<rparr>"
  let ?sv2 = "?sv1\<lparr>connections := (connections ?sv1)[?n := ?c]\<rparr>"
  have "service_step P sv ?sv1"
    by (rule service_step.accepted) (use assms in simp_all)
  moreover have "service_step P ?sv1 ?sv2"
    by (rule service_step.transport)
      (use assms in \<open>simp_all add: transport_step.completion completion.read_fails\<close>)
  moreover have "service_step P ?sv2 (?sv2\<lparr>down := True\<rparr>)"
    by (rule service_step.endpoint_throws[where i = ?n]) (use assms in \<open>simp_all add: prints_endpoint_def\<close>)
  ultimately have steps: "(service_step P)\<^sup>*\<^sup>* sv (?sv2\<lparr>down := True\<rparr>)"
    by (meson rtranclp.rtrancl_into_rtrancl rtranclp.rtrancl_refl)
  have "service_inv P s sv"
    using service.reachable_inv[OF _ assms(1)] by blast
  with steps show ?thesis
    by (intro exI[of _ "?sv2\<lparr>down := True\<rparr>"]) (simp add: service_inv_def)
qed

theorem peer_reset_ends_server_witness:
  "\<exists>sv :: server. (service_step ((setup_of day_cfg)\<lparr>su_resets := True\<rparr>))\<^sup>*\<^sup>* (Running_server sample_session) sv \<and>
     down sv \<and> length (connections sv) = 1"
  using peer_reset_ends_server[OF rtranclp.rtrancl_refl, where P = "(setup_of day_cfg)\<lparr>su_resets := True\<rparr>"
      and s = sample_session]
  by (auto simp: Running_server_def)

end
