(* ===== verification/Server_Settings.thy ===== *)
theory Server_Settings
  imports Connection
begin

text \<open>
  The settings of the server (pc_course_server/ServerSettings.hpp): the record, its default
  constructor, the reading of \<open>settings.lua\<close>, the escaping of the end marker when the settings are
  printed, the settings \<open>main\<close> uses, and the number of threads \<open>Server\<close> reserves. Running the file
  in a fresh VM is a parameter: it yields the table of the globals, or nothing.
\<close>

section \<open>The record\<close>

record server_settings =
  threads_count :: "64 word"
  server_port :: "64 word"
  db_host :: string
  db_user :: string
  db_password :: string
  db_database :: string
  end_of_message :: string
  connection_lifetime :: i64

definition ServerSettings :: server_settings where
  "ServerSettings = \<lparr>threads_count = 0, server_port = 0, db_host = [], db_user = [], db_password = [],
     db_database = [], end_of_message = [], connection_lifetime = 0\<rparr>"

section \<open>Reading\<close>

definition set_if :: "'v option \<Rightarrow> ('v \<Rightarrow> 's \<Rightarrow> 's) \<Rightarrow> 's \<Rightarrow> 's" where
  "set_if v f s = (case v of None \<Rightarrow> s | Some x \<Rightarrow> f x s)"

definition ReadSettingsFile :: "bool \<Rightarrow> lua option \<Rightarrow> server_settings option" where
  "ReadSettingsFile vm_open result =
     (if \<not> vm_open then None
      else case result of
        None \<Rightarrow> None
      | Some globals \<Rightarrow>
          (let server = get_raw_ref globals ''server'' in
           if \<not> holds server VM_Table then None
           else
             (let s = ServerSettings;
                  s = set_if (get_raw_int server ''threads_count'') (\<lambda>v s. s\<lparr>threads_count := v\<rparr>) s;
                  s = set_if (get_raw_int server ''server_port'') (\<lambda>v s. s\<lparr>server_port := v\<rparr>) s;
                  s = set_if (get_raw_string server ''db_host'') (\<lambda>v s. s\<lparr>db_host := v\<rparr>) s;
                  s = set_if (get_raw_string server ''db_user'') (\<lambda>v s. s\<lparr>db_user := v\<rparr>) s;
                  s = set_if (get_raw_string server ''db_password'') (\<lambda>v s. s\<lparr>db_password := v\<rparr>) s;
                  s = set_if (get_raw_string server ''db_database'') (\<lambda>v s. s\<lparr>db_database := v\<rparr>) s;
                  s = set_if (get_raw_string server ''end_of_message'') (\<lambda>v s. s\<lparr>end_of_message := v\<rparr>) s;
                  s = set_if (get_raw_int server ''connection_lifetime'')
                        (\<lambda>v s. s\<lparr>connection_lifetime := v\<rparr>) s
              in Some s)))"

definition default_settings :: server_settings where
  "default_settings = \<lparr>threads_count = 4, server_port = 2028, db_host = ''localhost'',
     db_user = ''vasyakaban'', db_password = ''384557dd'', db_database = ''pc_db'',
     end_of_message = ''lua'' @ [CR], connection_lifetime = 1337\<rparr>"

definition main_settings :: "bool \<Rightarrow> lua option \<Rightarrow> server_settings" where
  "main_settings vm_open result =
     (case ReadSettingsFile vm_open result of None \<Rightarrow> default_settings | Some s \<Rightarrow> s)"

definition reserved_threads :: "server_settings \<Rightarrow> nat" where
  "reserved_threads s = max 1 (unat (threads_count s))"

section \<open>Printing\<close>

definition escape_char :: "char \<Rightarrow> string" where
  "escape_char c =
     (if c = CHR 0x27 then [CHR 0x5C, CHR 0x27]
      else if c = CHR 0x22 then [CHR 0x5C, CHR 0x22]
      else if c = CHR ''?'' then [CHR 0x5C, CHR ''?'']
      else if c = CHR 0x5C then [CHR 0x5C, CHR 0x5C]
      else if c = CHR 0x07 then [CHR 0x5C, CHR ''a'']
      else if c = CHR 0x08 then [CHR 0x5C, CHR ''b'']
      else if c = CHR 0x0C then [CHR 0x5C, CHR ''f'']
      else if c = CHR 0x0A then [CHR 0x5C, CHR ''n'']
      else if c = CR then [CHR 0x5C, CHR ''r'']
      else if c = CHR 0x09 then [CHR 0x5C, CHR ''t'']
      else if c = CHR 0x0B then [CHR 0x5C, CHR ''v'']
      else [c])"

definition SpecialString :: "string \<Rightarrow> string" where
  "SpecialString s = concat (map escape_char s)"

definition print_settings :: "server_settings \<Rightarrow> string" where
  "print_settings s =
     ''Settings = \<newline>{\<newline>'' @
     CHR 0x09 # ''threads_count = '' @ show_nat (unat (threads_count s)) @ ''\<newline>'' @
     CHR 0x09 # ''server_port = '' @ show_nat (unat (server_port s)) @ ''\<newline>'' @
     CHR 0x09 # ''db_host = '' @ db_host s @ ''\<newline>'' @
     CHR 0x09 # ''db_user = '' @ db_user s @ ''\<newline>'' @
     CHR 0x09 # ''db_password = '' @ db_password s @ ''\<newline>'' @
     CHR 0x09 # ''db_database = '' @ db_database s @ ''\<newline>'' @
     CHR 0x09 # ''end_of_message = '' @ SpecialString (end_of_message s) @ ''\<newline>'' @
     CHR 0x09 # ''connection_lifetime = '' @ show_i64 (connection_lifetime s) @ ''s\<newline>'' @
     ''}''"

text \<open>The escaped text read back: a backslash and the next character stand for one character.\<close>

definition unescape_char :: "char \<Rightarrow> char" where
  "unescape_char c =
     (if c = CHR ''a'' then CHR 0x07 else if c = CHR ''b'' then CHR 0x08
      else if c = CHR ''f'' then CHR 0x0C else if c = CHR ''n'' then CHR 0x0A
      else if c = CHR ''r'' then CR else if c = CHR ''t'' then CHR 0x09
      else if c = CHR ''v'' then CHR 0x0B else c)"

fun read_special :: "string \<Rightarrow> string" where
  "read_special [] = []"
| "read_special [c] = [c]"
| "read_special (c # d # s) =
     (if c = CHR 0x5C then unescape_char d # read_special s else c # read_special (d # s))"

lemma read_special_escape: "read_special (escape_char c @ s) = c # read_special s"
  by (cases s) (simp_all add: escape_char_def unescape_char_def CR_def)

section \<open>Properties\<close>

text \<open>
  The escaping of the printed end marker loses nothing: reading the escapes back gives the
  marker, so two different markers are never printed alike.
\<close>

theorem special_string_roundtrip: "read_special (SpecialString s) = s"
  by (induction s) (simp_all add: SpecialString_def read_special_escape)

text \<open>
  A settings file that has the table \<open>server\<close> but leaves settings out does not get the defaults
  of \<open>main\<close> for them: without \<open>threads_count\<close> and \<open>end_of_message\<close> the server runs one thread and
  waits for the empty marker, which every buffer holds, so reads end without any data.
\<close>

theorem missing_settings_are_empty:
  assumes "get_raw_ref globals ''server'' = LTable fs arr"
    and "get_raw_int (LTable fs arr) ''threads_count'' = None"
    and "get_raw_string (LTable fs arr) ''end_of_message'' = None"
  shows "let s = main_settings True (Some globals) in
     threads_count s = 0 \<and> reserved_threads s = 1 \<and> end_of_message s = [] \<and>
     holds_marker (end_of_message s) []"
proof -
  obtain s where s: "ReadSettingsFile True (Some globals) = Some s" "threads_count s = 0"
    "end_of_message s = []"
    using assms
    by (auto simp: ReadSettingsFile_def Let_def holds_def set_if_def ServerSettings_def split: option.splits)
  then show ?thesis
    by (simp add: main_settings_def reserved_threads_def holds_marker_def)
qed

theorem missing_settings_are_empty_witness:
  "let s = main_settings True (Some (LTable [(''server'', LTable [(''server_port'', LInt 2028)] [])] [])) in
     threads_count s = 0 \<and> reserved_threads s = 1 \<and> end_of_message s = [] \<and>
     holds_marker (end_of_message s) []"
  by (rule missing_settings_are_empty[of _ "[(''server_port'', LInt 2028)]" "[]"])
    (simp_all add: get_raw_ref_def get_raw_int_def get_raw_string_def)

end
