(* ===== verification/Server_Startup.thy ===== *)
theory Server_Startup
  imports Server_Settings
begin

text \<open>
  The threads of the server (pc_course_server/Server.cpp): \<open>Start\<close> creates them, gives each a
  database connection and a VM, releases them through the atomics \<open>start\<close> and \<open>count_execs\<close> of its
  stack frame and waits until all have counted themselves; \<open>Stop\<close> stops the context and joins
  them. A step is what \<open>Start\<close>, \<open>Stop\<close> or one thread does between two accesses to shared data.
  Then the loop of \<open>main\<close> over the console and how the process ends (main.cpp).
\<close>

section \<open>The state\<close>

text \<open>
  Where the calling thread stands: before the creation of thread \<open>i\<close>, before connecting to the
  database, before opening the VM, before the insertion into \<open>threads_props\<close>, before \<open>push_back\<close>, before the store to
  \<open>start\<close>, in the loop over \<open>count_execs\<close>, returned, in the join of thread \<open>i\<close>, stopped, or the
  process has ended in a failed assertion.
\<close>

datatype caller = At_thread nat | At_connect nat | At_open nat | At_insert nat | At_push nat | At_release | At_wait
  | Started | At_join nat | Stopped | Aborted

datatype worker = Spinning | Counting | Running | Finished

record startup =
  caller :: caller
  start_flag :: bool
  count_execs :: nat
  workers :: "worker list"
  threads_props :: "nat list"
  threads :: "nat list"
  context_stopped :: bool

definition Start_server :: startup where
  "Start_server = \<lparr>caller = At_thread 0, start_flag = False, count_execs = 0, workers = [],
     threads_props = [], threads = [], context_stopped = False\<rparr>"

section \<open>The steps\<close>

text \<open>\<open>capacity\<close> is the capacity of the vector, at least what the constructor has reserved.\<close>

inductive caller_step :: "nat \<Rightarrow> startup \<Rightarrow> startup \<Rightarrow> bool" for capacity where
  create: "caller s = At_thread i \<Longrightarrow> i < capacity \<Longrightarrow>
     caller_step capacity s (s\<lparr>caller := At_connect i, workers := workers s @ [Spinning]\<rparr>)"
| connected: "caller s = At_connect i \<Longrightarrow> caller_step capacity s (s\<lparr>caller := At_open i\<rparr>)"
| not_connected: "caller s = At_connect i \<Longrightarrow> caller_step capacity s (s\<lparr>caller := Aborted\<rparr>)"
| open_vm: "caller s = At_open i \<Longrightarrow> caller_step capacity s (s\<lparr>caller := At_insert i\<rparr>)"
| insert: "caller s = At_insert i \<Longrightarrow>
     caller_step capacity s (s\<lparr>caller := At_push i, threads_props := threads_props s @ [i]\<rparr>)"
| push_back: "caller s = At_push i \<Longrightarrow>
     caller_step capacity s (s\<lparr>caller := At_thread (i + 1), threads := threads s @ [i]\<rparr>)"
| loop_end: "caller s = At_thread i \<Longrightarrow> \<not> i < capacity \<Longrightarrow>
     caller_step capacity s (s\<lparr>caller := At_release\<rparr>)"
| release: "caller s = At_release \<Longrightarrow>
     caller_step capacity s (s\<lparr>caller := At_wait, start_flag := True\<rparr>)"
| wait_over: "caller s = At_wait \<Longrightarrow> count_execs s = length (threads s) \<Longrightarrow>
     caller_step capacity s (s\<lparr>caller := Started\<rparr>)"
| stop: "caller s = Started \<Longrightarrow>
     caller_step capacity s (s\<lparr>caller := At_join 0, context_stopped := True\<rparr>)"
| join: "caller s = At_join i \<Longrightarrow> i < length (threads s) \<Longrightarrow> workers s ! (threads s ! i) = Finished \<Longrightarrow>
     caller_step capacity s (s\<lparr>caller := At_join (i + 1)\<rparr>)"
| all_joined: "caller s = At_join i \<Longrightarrow> \<not> i < length (threads s) \<Longrightarrow>
     caller_step capacity s (s\<lparr>caller := Stopped\<rparr>)"

inductive worker_step :: "startup \<Rightarrow> startup \<Rightarrow> bool" where
  go: "k < length (workers s) \<Longrightarrow> workers s ! k = Spinning \<Longrightarrow> start_flag s \<Longrightarrow>
     worker_step s (s\<lparr>workers := (workers s)[k := Counting]\<rparr>)"
| count: "k < length (workers s) \<Longrightarrow> workers s ! k = Counting \<Longrightarrow>
     worker_step s (s\<lparr>workers := (workers s)[k := Running], count_execs := count_execs s + 1\<rparr>)"
| run_ends: "k < length (workers s) \<Longrightarrow> workers s ! k = Running \<Longrightarrow> context_stopped s \<Longrightarrow>
     worker_step s (s\<lparr>workers := (workers s)[k := Finished]\<rparr>)"

definition startup_step :: "nat \<Rightarrow> startup \<Rightarrow> startup \<Rightarrow> bool" where
  "startup_step capacity s s' \<longleftrightarrow> caller s \<noteq> Aborted \<and> (caller_step capacity s s' \<or> worker_step s s')"

inductive_cases caller_stepE: "caller_step capacity s s'"
inductive_cases worker_stepE: "worker_step s s'"

section \<open>The invariant\<close>

text \<open>How many threads have counted themselves.\<close>

definition counted :: "worker list \<Rightarrow> nat" where
  "counted ws = length (filter (\<lambda>w. w = Running \<or> w = Finished) ws)"

lemma counted_update:
  assumes "k < length ws"
  shows "counted (ws[k := w]) + (if ws ! k = Running \<or> ws ! k = Finished then 1 else 0) =
     counted ws + (if w = Running \<or> w = Finished then 1 else 0)"
proof -
  have ws: "ws = take k ws @ ws ! k # drop (Suc k) ws" using assms by (simp add: id_take_nth_drop)
  have "counted (ws[k := w]) = counted (take k ws @ w # drop (Suc k) ws)"
    using assms by (simp add: upd_conv_take_nth_drop)
  moreover have "counted ws = counted (take k ws @ ws ! k # drop (Suc k) ws)" using ws by simp
  ultimately show ?thesis by (simp add: counted_def)
qed

lemma counted_le: "counted ws \<le> length ws"
  by (simp add: counted_def)

lemma counted_all: "counted ws = length ws \<Longrightarrow> w \<in> set ws \<Longrightarrow> w = Running \<or> w = Finished"
  unfolding counted_def by (metis (mono_tags, lifting) filter_id_conv length_filter_less less_irrefl filter_True)

text \<open>The calling thread is in the loop that creates the threads.\<close>

fun creating :: "caller \<Rightarrow> bool" where
  "creating (At_thread i) = True"
| "creating (At_connect i) = True"
| "creating (At_open i) = True"
| "creating (At_insert i) = True"
| "creating (At_push i) = True"
| "creating _ = False"

fun joining :: "caller \<Rightarrow> bool" where
  "joining (At_join i) = True"
| "joining Stopped = True"
| "joining _ = False"

text \<open>How many threads have been created, how many entries and handles there are.\<close>

definition loop_counts :: "nat \<Rightarrow> caller \<Rightarrow> nat \<times> nat \<times> nat" where
  "loop_counts capacity pc = (case pc of
      At_thread i \<Rightarrow> (i, i, i)
    | At_connect i \<Rightarrow> (i + 1, i, i)
    | At_open i \<Rightarrow> (i + 1, i, i)
    | At_insert i \<Rightarrow> (i + 1, i, i)
    | At_push i \<Rightarrow> (i + 1, i + 1, i)
    | _ \<Rightarrow> (capacity, capacity, capacity))"

text \<open>Thread identifiers are the numbers in the order of creation.\<close>

definition numbered :: "nat list \<Rightarrow> bool" where
  "numbered xs \<longleftrightarrow> xs = [0..<length xs]"

lemma numbered_simps [simp]: "numbered []" "numbered xs \<Longrightarrow> numbered (xs @ [length xs])"
  by (simp_all add: numbered_def)

lemma numbered_nth: "numbered xs \<Longrightarrow> i < length xs \<Longrightarrow> xs ! i = i"
  by (metis add_0 nth_upt numbered_def)

definition startup_inv :: "nat \<Rightarrow> startup \<Rightarrow> bool" where
  "startup_inv capacity s \<longleftrightarrow> count_execs s = counted (workers s) \<and>
     (caller s \<noteq> Aborted \<longrightarrow>
        loop_counts capacity (caller s) = (length (workers s), length (threads_props s), length (threads s)) \<and>
        numbered (threads_props s) \<and> numbered (threads s) \<and>
        length (workers s) \<le> capacity \<and>
        (start_flag s \<longrightarrow> \<not> creating (caller s)) \<and>
        (\<not> start_flag s \<longrightarrow> (creating (caller s) \<or> caller s = At_release) \<and> set (workers s) \<subseteq> {Spinning}) \<and>
        (context_stopped s \<longleftrightarrow> joining (caller s)) \<and>
        (caller s = Started \<or> joining (caller s) \<longrightarrow> set (workers s) \<subseteq> {Running, Finished}) \<and>
        (\<not> context_stopped s \<longrightarrow> Finished \<notin> set (workers s)) \<and>
        (\<forall>i. caller s = At_join i \<longrightarrow> i \<le> capacity \<and> (\<forall>k < i. workers s ! k = Finished)) \<and>
        (caller s = Stopped \<longrightarrow> set (workers s) \<subseteq> {Finished}))"

lemma startup_inv_start: "startup_inv capacity Start_server"
  by (simp add: startup_inv_def Start_server_def loop_counts_def counted_def)

lemma counted_append: "counted (ws @ [Spinning]) = counted ws"
  by (simp add: counted_def)

lemma caller_step_inv:
  assumes "caller_step capacity s s'" and "startup_inv capacity s"
  shows "startup_inv capacity s'"
  using assms(1)
proof cases
  case wait_over
  then have "counted (workers s) = length (workers s)"
    using assms(2) by (simp add: startup_inv_def loop_counts_def)
  then have "set (workers s) \<subseteq> {Running, Finished}"
    using counted_all by blast
  then show ?thesis
    using wait_over assms(2) by (simp add: startup_inv_def loop_counts_def)
next
  case (join i)
  then have "threads s ! i = i"
    using assms(2) by (simp add: startup_inv_def numbered_nth)
  then show ?thesis
    using join assms(2) by (auto simp: startup_inv_def loop_counts_def less_Suc_eq)
next
  case (all_joined i)
  then have "\<forall>k < length (workers s). workers s ! k = Finished"
    using assms(2) by (auto simp: startup_inv_def loop_counts_def)
  then have "set (workers s) \<subseteq> {Finished}"
    by (auto simp: in_set_conv_nth)
  then show ?thesis
    using all_joined assms(2) by (auto simp: startup_inv_def loop_counts_def)
qed (use assms(2) in \<open>auto simp: startup_inv_def loop_counts_def counted_append\<close>)

lemma set_workers_update: "w \<in> set (ws[k := x]) \<Longrightarrow> w = x \<or> w \<in> set ws"
  using set_update_subset_insert[of ws k x] by auto

lemma worker_step_inv:
  assumes "worker_step s s'" and "startup_inv capacity s"
  shows "startup_inv capacity s'"
  using assms(1)
proof cases
  case (go k)
  then have "Spinning \<in> set (workers s)" by (metis nth_mem)
  with go show ?thesis
    using assms(2) counted_update[of k "workers s" Counting]
    by (auto simp: startup_inv_def dest: set_workers_update)
next
  case (count k)
  then have "Counting \<in> set (workers s)" by (metis nth_mem)
  with count show ?thesis
    using assms(2) counted_update[of k "workers s" Running]
    by (auto simp: startup_inv_def dest: set_workers_update)
next
  case (run_ends k)
  then have "Running \<in> set (workers s)" by (metis nth_mem)
  with run_ends show ?thesis
    using assms(2) counted_update[of k "workers s" Finished]
    by (auto simp: startup_inv_def nth_list_update dest: set_workers_update)
qed

interpretation starting: invariant_system "\<lambda>s. s = Start_server" "startup_step capacity" "startup_inv capacity"
  for capacity
  by unfold_locales
    (auto simp: startup_inv_start startup_step_def intro: caller_step_inv worker_step_inv)

lemma started_inv: "(startup_step capacity)\<^sup>*\<^sup>* Start_server s \<Longrightarrow> startup_inv capacity s"
  using starting.reachable_inv by blast

section \<open>How long it takes\<close>

definition worker_rank :: "worker \<Rightarrow> nat" where
  "worker_rank w = (case w of Spinning \<Rightarrow> 3 | Counting \<Rightarrow> 2 | Running \<Rightarrow> 1 | Finished \<Rightarrow> 0)"

definition caller_rank :: "nat \<Rightarrow> caller \<Rightarrow> nat" where
  "caller_rank capacity pc = (case pc of
      At_thread i \<Rightarrow> 20 * (capacity - i) + capacity + 10
    | At_connect i \<Rightarrow> 20 * (capacity - i) + capacity + 6
    | At_open i \<Rightarrow> 20 * (capacity - i) + capacity + 5
    | At_insert i \<Rightarrow> 20 * (capacity - i) + capacity + 4
    | At_push i \<Rightarrow> 20 * (capacity - i) + capacity + 3
    | At_release \<Rightarrow> capacity + 5
    | At_wait \<Rightarrow> capacity + 4
    | Started \<Rightarrow> capacity + 3
    | At_join i \<Rightarrow> capacity - i + 2
    | Stopped \<Rightarrow> 0
    | Aborted \<Rightarrow> 0)"

definition startup_rank :: "nat \<Rightarrow> startup \<Rightarrow> nat" where
  "startup_rank capacity s = caller_rank capacity (caller s) + sum_list (map worker_rank (workers s))"

lemma sum_list_update:
  assumes "k < length ws"
  shows "sum_list (map worker_rank (ws[k := w])) + worker_rank (ws ! k) =
     sum_list (map worker_rank ws) + worker_rank w"
proof -
  have "ws = take k ws @ ws ! k # drop (Suc k) ws" using assms by (simp add: id_take_nth_drop)
  then have "sum_list (map worker_rank ws) =
      sum_list (map worker_rank (take k ws @ ws ! k # drop (Suc k) ws))" by (rule arg_cong)
  moreover have "sum_list (map worker_rank (ws[k := w])) =
      sum_list (map worker_rank (take k ws @ w # drop (Suc k) ws))"
    using assms by (simp add: upd_conv_take_nth_drop)
  ultimately show ?thesis by simp
qed

lemma startup_rank_less:
  assumes "startup_step capacity s s'" and "startup_inv capacity s"
  shows "startup_rank capacity s' < startup_rank capacity s"
proof -
  have "startup_rank capacity s' < startup_rank capacity s" if "caller_step capacity s s'"
    using that
  proof cases
    case (join i)
    then have "i < capacity" using assms(2) by (simp add: startup_inv_def loop_counts_def)
    with join show ?thesis by (simp add: startup_rank_def caller_rank_def)
  next
    case (push_back i)
    then have "i < capacity" using assms(2) by (simp add: startup_inv_def loop_counts_def)
    with push_back show ?thesis by (simp add: startup_rank_def caller_rank_def)
  qed (simp_all add: startup_rank_def caller_rank_def worker_rank_def)
  moreover have "startup_rank capacity s' < startup_rank capacity s" if "worker_step s s'"
    using that
  proof cases
    case (go k)
    then show ?thesis
      using sum_list_update[of k "workers s" Counting] by (simp add: startup_rank_def worker_rank_def)
  next
    case (count k)
    then show ?thesis
      using sum_list_update[of k "workers s" Running] by (simp add: startup_rank_def worker_rank_def)
  next
    case (run_ends k)
    then show ?thesis
      using sum_list_update[of k "workers s" Finished] by (simp add: startup_rank_def worker_rank_def)
  qed
  ultimately show ?thesis using assms(1) by (auto simp: startup_step_def)
qed

lemma startup_progress:
  assumes "startup_inv capacity s" and "caller s \<noteq> Stopped" and "caller s \<noteq> Aborted"
  shows "\<exists>s'. startup_step capacity s s'"
proof (cases "\<exists>k < length (workers s). (workers s ! k = Spinning \<and> start_flag s) \<or> workers s ! k = Counting \<or>
    (workers s ! k = Running \<and> context_stopped s)")
  case True
  then have "\<exists>s'. worker_step s s'"
    using worker_step.go[of _ s] worker_step.count[of _ s] worker_step.run_ends[of _ s] by blast
  then show ?thesis using assms(3) by (auto simp: startup_step_def)
next
  case False
  have "\<exists>s'. caller_step capacity s s'"
  proof (cases "caller s")
    case (At_thread i)
    then show ?thesis using caller_step.create[of s i] caller_step.loop_end[of s i] by blast
  next
    case (At_connect i)
    then show ?thesis using caller_step.connected[of s i] by blast
  next
    case (At_open i)
    then show ?thesis using caller_step.open_vm[of s i] by blast
  next
    case (At_insert i)
    then show ?thesis using caller_step.insert[of s i] by blast
  next
    case (At_push i)
    then show ?thesis using caller_step.push_back[of s i] by blast
  next
    case At_release
    then show ?thesis using caller_step.release[of s] by blast
  next
    case Started
    then show ?thesis using caller_step.stop[of s] by blast
  next
    case At_wait
    then have "start_flag s" and counts: "length (threads s) = length (workers s)" "count_execs s = counted (workers s)"
      using assms(1) by (auto simp: startup_inv_def loop_counts_def)
    with False have "w = Running \<or> w = Finished" if "w \<in> set (workers s)" for w
      using that by (cases w) (auto simp: in_set_conv_nth)
    then have "count_execs s = length (threads s)" using counts by (simp add: counted_def)
    with At_wait show ?thesis using caller_step.wait_over[of s] by blast
  next
    case (At_join i)
    then have "context_stopped s" "numbered (threads s)" "length (threads s) = length (workers s)"
      and ran: "set (workers s) \<subseteq> {Running, Finished}"
      using assms(1) by (auto simp: startup_inv_def loop_counts_def)
    with False have "workers s ! (threads s ! i) = Finished" if "i < length (threads s)"
      using that subsetD[OF ran nth_mem, of i] by (auto simp: numbered_nth)
    with At_join show ?thesis using caller_step.join[of s i] caller_step.all_joined[of s i] by blast
  qed (use assms(2,3) in blast)+
  then show ?thesis using assms(3) by (auto simp: startup_step_def)
qed

section \<open>Properties\<close>


text \<open>A server with one thread, from the beginning to the return of \<open>Start\<close>.\<close>

definition one_thread :: startup where
  "one_thread = \<lparr>caller = Started, start_flag = True, count_execs = 1, workers = [Running],
     threads_props = [0], threads = [0], context_stopped = False\<rparr>"

lemma startup_callerI: "caller s \<noteq> Aborted \<Longrightarrow> caller_step n s s' \<Longrightarrow> (startup_step n)\<^sup>*\<^sup>* s' t \<Longrightarrow> (startup_step n)\<^sup>*\<^sup>* s t"
  by (rule converse_rtranclp_into_rtranclp[of _ s s']) (simp_all add: startup_step_def)

lemma startup_workerI: "caller s \<noteq> Aborted \<Longrightarrow> worker_step s s' \<Longrightarrow> (startup_step n)\<^sup>*\<^sup>* s' t \<Longrightarrow> (startup_step n)\<^sup>*\<^sup>* s t"
  by (rule converse_rtranclp_into_rtranclp[of _ s s']) (simp_all add: startup_step_def)

lemma one_thread_starts: "(startup_step 1)\<^sup>*\<^sup>* Start_server one_thread"
  unfolding Start_server_def
  apply (rule startup_callerI[OF _ caller_step.create[where i = 0]]; simp)
  apply (rule startup_callerI[OF _ caller_step.connected[where i = 0]]; simp)
  apply (rule startup_callerI[OF _ caller_step.open_vm[where i = 0]]; simp)
  apply (rule startup_callerI[OF _ caller_step.insert[where i = 0]]; simp)
  apply (rule startup_callerI[OF _ caller_step.push_back[where i = 0]]; simp)
  apply (rule startup_callerI[OF _ caller_step.loop_end[where i = 1]]; simp)
  apply (rule startup_callerI[OF _ caller_step.release]; simp)
  apply (rule startup_workerI[OF _ worker_step.go[where k = 0]]; simp)
  apply (rule startup_workerI[OF _ worker_step.count[where k = 0]]; simp)
  apply (rule startup_callerI[OF _ caller_step.wait_over]; simp)
  by (simp add: one_thread_def)


text \<open>
  C39: The handshake of \<open>Start\<close> and the joins of \<open>Stop\<close> neither deadlock nor go on for ever: with
  \<open>n\<close> threads every run has at most \<open>21 * n + 10\<close> steps, and a state in which nobody can take a step
  is the one in which all threads have been joined, or the failed assertion on a database connection.
\<close>

theorem startup_ends:
  assumes "(startup_step capacity ^^ n) Start_server s"
  shows "n \<le> 21 * capacity + 10 \<and>
     (caller s = Stopped \<or> caller s = Aborted \<or> (\<exists>s'. startup_step capacity s s'))"
proof -
  have "startup_rank capacity s + n \<le> startup_rank capacity Start_server" and "startup_inv capacity s"
    using assms
  proof (induction n arbitrary: s)
    case (Suc n)
    case 1
    then obtain r where r: "(startup_step capacity ^^ n) Start_server r" "startup_step capacity r s" by auto
    with Suc.IH(1)[OF r(1)] startup_rank_less[OF r(2) Suc.IH(2)[OF r(1)]] show ?case by simp
    case 2
    then obtain r where "(startup_step capacity ^^ n) Start_server r" "startup_step capacity r s" by auto
    with Suc.IH(2) show ?case using starting.step_inv by blast
  qed (simp_all add: startup_inv_start)
  moreover have "startup_rank capacity Start_server = 21 * capacity + 10"
    by (simp add: startup_rank_def Start_server_def caller_rank_def)
  ultimately show ?thesis using startup_progress by force
qed

theorem startup_ends_witness:
  "\<exists>s. (startup_step 1 ^^ 1) Start_server s \<and> 1 \<le> 21 * (1 :: nat) + 10 \<and>
     (caller s = Stopped \<or> caller s = Aborted \<or> (\<exists>s'. startup_step 1 s s'))"
proof -
  have "(startup_step 1 ^^ 1) Start_server (Start_server\<lparr>caller := At_connect 0, workers := [Spinning]\<rparr>)"
    using caller_step.create[of Start_server 0 1]
    by (simp only: relpowp_1) (simp add: startup_step_def Start_server_def)
  from startup_ends[OF this] this show ?thesis by blast
qed

section \<open>The end of the process\<close>

text \<open>
  The loop of \<open>main\<close>: how many lines other than \<open>stop\<close> were answered with \<open>Bad!\<close>. At the end of the
  input \<open>getline\<close> fails, leaves the line as it is and the loop goes on for ever (\<open>None\<close>).
\<close>

fun console_loop :: "string list \<Rightarrow> nat option" where
  "console_loop [] = None"
| "console_loop (inp # lines) =
     (if inp = ''stop'' then Some 0 else map_option Suc (console_loop lines))"

text \<open>
  \<open>started\<close> is what the constructor of the server and \<open>Start\<close> do. The exceptions of the block are caught
  and printed; \<open>client\<close> is a default-constructed \<open>std::thread\<close>, whose \<open>join\<close> throws.
\<close>

definition join_thread :: "bool \<Rightarrow> unit outcome" where
  "join_thread joinable = (if joinable then Value () else Throw Exn_std)"

definition main_end :: "unit outcome \<Rightarrow> string list \<Rightarrow> unit outcome" where
  "main_end started lines =
     (case started of
        Value _ \<Rightarrow> (case console_loop lines of None \<Rightarrow> Diverge | Some n \<Rightarrow> join_thread False)
      | Throw e \<Rightarrow> join_thread False
      | Abort \<Rightarrow> Abort
      | Diverge \<Rightarrow> Diverge)"

lemma console_loop_iff: "(\<exists>n. console_loop lines = Some n) \<longleftrightarrow> ''stop'' \<in> set lines"
  by (induction lines) auto

lemma console_loop_count: "console_loop lines = Some n \<Longrightarrow> n = length (takeWhile (\<lambda>l. l \<noteq> ''stop'') lines)"
  by (induction lines arbitrary: n) (auto split: if_splits)


end
