(* ===== verification/Lua_Chunk.thy ===== *)
theory Lua_Chunk
  imports Lua_Serialize
begin

text \<open>
  The part of the Lua language in which the two programs talk: a chunk of assignments
  \<open>name = value\<close>, where a value is a string in single or double quotes, a decimal integer,
  \<open>true\<close>, \<open>false\<close> or a table constructor. \<open>read_chunk\<close> reads such a text, with a lexer and a
  parser that are state machines over the characters and the tokens, and yields the assigned
  globals; for every other text it yields nothing. The VM is not in the repository: \<open>exec_ok\<close> is
  the hypothesis that it runs the chunks of this fragment as the language defines. The round
  trip says that what \<open>LuaConfSerialize\<close> prints is read back as the same table.
\<close>

section \<open>Characters\<close>

definition name_start :: "char \<Rightarrow> bool" where
  "name_start c \<longleftrightarrow> (65 \<le> (of_char c :: nat) \<and> of_char c \<le> (90 :: nat)) \<or>
     (97 \<le> (of_char c :: nat) \<and> of_char c \<le> (122 :: nat)) \<or> c = CHR ''_''"

definition name_char :: "char \<Rightarrow> bool" where
  "name_char c \<longleftrightarrow> name_start c \<or> is_digit c"

definition white :: "char \<Rightarrow> bool" where
  "white c \<longleftrightarrow> c \<in> {CHR 0x20, CHR 0x09, CHR 0x0A, CHR 0x0B, CHR 0x0C, CHR 0x0D}"

section \<open>Tokens\<close>

datatype token = T_name string | T_str string | T_int int | T_assign | T_open | T_close | T_comma

datatype lexing =
    L_start
  | L_name string
  | L_minus
  | L_num bool nat
  | L_str char string
  | L_escape char string

definition int_token :: "bool \<Rightarrow> nat \<Rightarrow> token" where
  "int_token neg n = T_int (if neg then - int n else int n)"

text \<open>The first character of a token, or white space between tokens.\<close>

definition lex_first :: "char \<Rightarrow> (token list \<times> lexing) option" where
  "lex_first c =
     (if white c then Some ([], L_start)
      else if c = CHR ''{'' then Some ([T_open], L_start)
      else if c = CHR ''}'' then Some ([T_close], L_start)
      else if c = CHR '','' then Some ([T_comma], L_start)
      else if c = CHR ''='' then Some ([T_assign], L_start)
      else if c = CHR 0x22 \<or> c = CHR 0x27 then Some ([], L_str c [])
      else if c = CHR ''-'' then Some ([], L_minus)
      else if is_digit c then Some ([], L_num False (digit_val c))
      else if name_start c then Some ([], L_name [c])
      else None)"

text \<open>
  One character: the tokens it ends, and the state after it. A raw line end ends no string, an
  escape other than the three that \<open>std::quoted\<close> and the client use is outside of the fragment, so is
  a zero (both programs hand the chunk over as \<open>c_str()\<close>, which ends at the first one),
  and so is an integer of 64 bits or more, which Lua reads as a float.
\<close>

definition lex_char :: "lexing \<Rightarrow> char \<Rightarrow> (token list \<times> lexing) option" where
  "lex_char st c = (case st of
      L_start \<Rightarrow> lex_first c
    | L_name n \<Rightarrow>
        if name_char c then Some ([], L_name (n @ [c]))
        else map_option (\<lambda>(ts, st). (T_name n # ts, st)) (lex_first c)
    | L_minus \<Rightarrow> if is_digit c then Some ([], L_num True (digit_val c)) else None
    | L_num neg n \<Rightarrow>
        if is_digit c then Some ([], L_num neg (10 * n + digit_val c))
        else if name_char c \<or> c = CHR ''.'' \<or> int n \<ge> 2 ^ 63 then None
        else map_option (\<lambda>(ts, st). (int_token neg n # ts, st)) (lex_first c)
    | L_str q s \<Rightarrow>
        if c = q then Some ([T_str s], L_start)
        else if c = CHR 0x5C then Some ([], L_escape q s)
        else if c = CHR 0x0A \<or> c = CHR 0x0D \<or> c = CHR 0x00 then None
        else Some ([], L_str q (s @ [c]))
    | L_escape q s \<Rightarrow>
        if c = CHR 0x22 \<or> c = CHR 0x27 \<or> c = CHR 0x5C then Some ([], L_str q (s @ [c])) else None)"

definition lex_end :: "lexing \<Rightarrow> token list option" where
  "lex_end st = (case st of
      L_start \<Rightarrow> Some []
    | L_name n \<Rightarrow> Some [T_name n]
    | L_num neg n \<Rightarrow> if int n \<ge> 2 ^ 63 then None else Some [int_token neg n]
    | _ \<Rightarrow> None)"

fun lex_run :: "lexing \<Rightarrow> string \<Rightarrow> (token list \<times> lexing) option" where
  "lex_run st [] = Some ([], st)"
| "lex_run st (c # s) = (case lex_char st c of
      None \<Rightarrow> None
    | Some (ts, st') \<Rightarrow> map_option (\<lambda>(us, st''). (ts @ us, st'')) (lex_run st' s))"

definition lex :: "string \<Rightarrow> token list option" where
  "lex s = (case lex_run L_start s of
      None \<Rightarrow> None
    | Some (ts, st) \<Rightarrow> map_option (\<lambda>us. ts @ us) (lex_end st))"

section \<open>Parsing\<close>

definition reserved_words :: "string list" where
  "reserved_words = [''and'', ''break'', ''do'', ''else'', ''elseif'', ''end'', ''false'', ''for'', ''function'',
     ''goto'', ''if'', ''in'', ''local'', ''nil'', ''not'', ''or'', ''repeat'', ''return'', ''then'', ''true'',
     ''until'', ''while'']"

text \<open>
  The tables that are open, the innermost first: the name the next value is for (none for a
  value of the sequence), the entries and the sequence so far. The outermost one holds the globals.
\<close>

type_synonym frame = "string option \<times> (string \<times> lua) list \<times> lua list"

datatype expecting = E_statement | E_assign | E_value | E_field bool | E_separator

definition put_value :: "lua \<Rightarrow> frame \<Rightarrow> frame" where
  "put_value v fr = (case fr of
      (Some k, fs, arr) \<Rightarrow> (None, upd_field k v fs, arr)
    | (None, fs, arr) \<Rightarrow> (None, fs, arr @ [v]))"

definition after_value :: "frame list \<Rightarrow> expecting" where
  "after_value frs = (if length frs \<le> 1 then E_statement else E_separator)"

definition deliver :: "lua \<Rightarrow> frame list \<Rightarrow> (expecting \<times> frame list) option" where
  "deliver v frs = (case frs of [] \<Rightarrow> None | fr # frs \<Rightarrow> Some (after_value (fr # frs), put_value v fr # frs))"

definition close_table :: "frame list \<Rightarrow> (expecting \<times> frame list) option" where
  "close_table frs = (case frs of (k, fs, arr) # frs \<Rightarrow> deliver (LTable fs arr) frs | [] \<Rightarrow> None)"

definition name_slot :: "string \<Rightarrow> frame list \<Rightarrow> (expecting \<times> frame list) option" where
  "name_slot n frs = (case frs of
      (k, fs, arr) # frs \<Rightarrow> if n \<in> set reserved_words then None else Some (E_assign, (Some n, fs, arr) # frs)
    | [] \<Rightarrow> None)"

definition value_token :: "token \<Rightarrow> frame list \<Rightarrow> (expecting \<times> frame list) option" where
  "value_token t frs = (case t of
      T_str s \<Rightarrow> deliver (LString s) frs
    | T_int i \<Rightarrow> deliver (LInt (word_of_int i)) frs
    | T_name n \<Rightarrow> if n = ''true'' then deliver (LBool True) frs
        else if n = ''false'' then deliver (LBool False) frs else None
    | T_open \<Rightarrow> Some (E_field True, (None, [], []) # frs)
    | _ \<Rightarrow> None)"

definition parse_token :: "expecting \<Rightarrow> frame list \<Rightarrow> token \<Rightarrow> (expecting \<times> frame list) option" where
  "parse_token ex frs t = (case ex of
      E_statement \<Rightarrow> (case t of T_name n \<Rightarrow> name_slot n frs | _ \<Rightarrow> None)
    | E_assign \<Rightarrow> (case t of T_assign \<Rightarrow> Some (E_value, frs) | _ \<Rightarrow> None)
    | E_value \<Rightarrow> value_token t frs
    | E_field may_close \<Rightarrow> (case t of
          T_close \<Rightarrow> if may_close then close_table frs else None
        | T_name n \<Rightarrow> if n = ''true'' \<or> n = ''false'' then value_token t frs else name_slot n frs
        | _ \<Rightarrow> value_token t frs)
    | E_separator \<Rightarrow> (case t of
          T_close \<Rightarrow> close_table frs
        | T_comma \<Rightarrow> Some (E_field False, frs)
        | _ \<Rightarrow> None))"

fun parse :: "expecting \<Rightarrow> frame list \<Rightarrow> token list \<Rightarrow> (expecting \<times> frame list) option" where
  "parse ex frs [] = Some (ex, frs)"
| "parse ex frs (t # ts) = (case parse_token ex frs t of
      None \<Rightarrow> None
    | Some (ex', frs') \<Rightarrow> parse ex' frs' ts)"

definition read_chunk :: "string \<Rightarrow> (string \<times> lua) list option" where
  "read_chunk s = (case lex s of
      None \<Rightarrow> None
    | Some ts \<Rightarrow> (case parse E_statement [(None, [], [])] ts of
          Some (E_statement, [(k, fs, arr)]) \<Rightarrow> Some fs
        | _ \<Rightarrow> None))"

end
