(* ===== verification/Lua_Roundtrip.thy ===== *)
theory Lua_Roundtrip
  imports Lua_Chunk
begin

text \<open>
  What the programs print is what the other side reads: the tokens of the texts, and the values the
  parser makes of them. A value is printable when the fragment can express it: strings without
  line ends, integers other than the least one, names that are identifierifiers, no doubles.
\<close>

section \<open>Lexing in pieces\<close>

lemma lex_run_append:
  "lex_run st (s @ t) = (case lex_run st s of None \<Rightarrow> None
     | Some (ts, st') \<Rightarrow> map_option (\<lambda>(us, st''). (ts @ us, st'')) (lex_run st' t))"
  by (induction s arbitrary: st) (auto simp: map_option_case split: option.split)

text \<open>A text that ends between tokens, and a text whose last token may still be open.\<close>

definition closed_text :: "string \<Rightarrow> token list \<Rightarrow> bool" where
  "closed_text s ts \<longleftrightarrow> lex_run L_start s = Some (ts, L_start)"

definition lexed :: "string \<Rightarrow> token list \<Rightarrow> bool" where
  "lexed s ts \<longleftrightarrow> (\<exists>us st p. lex_run L_start s = Some (us, st) \<and> lex_end st = Some p \<and> ts = us @ p)"

definition delim :: "char \<Rightarrow> bool" where
  "delim c \<longleftrightarrow> \<not> name_char c \<and> c \<noteq> CHR ''.'' \<and> lex_first c \<noteq> None"

lemma closed_lexed: "closed_text s ts \<Longrightarrow> lexed s ts"
  by (auto simp: closed_text_def lexed_def lex_end_def)

lemma lexed_lex: "lexed s ts \<Longrightarrow> lex s = Some ts"
  by (auto simp: lexed_def lex_def)

lemma closed_append: "closed_text s ts \<Longrightarrow> closed_text t us \<Longrightarrow> closed_text (s @ t) (ts @ us)"
  by (simp add: closed_text_def lex_run_append)

lemma closed_lexed_append: "closed_text s ts \<Longrightarrow> lexed t us \<Longrightarrow> lexed (s @ t) (ts @ us)"
  by (auto simp: closed_text_def lexed_def lex_run_append)

lemma lex_char_delim:
  assumes "delim c" and "lex_end st = Some p"
  shows "lex_char st c = map_option (\<lambda>(ts, st'). (p @ ts, st')) (lex_first c)"
  using assms
  by (cases st) (auto simp: delim_def lex_char_def lex_end_def name_char_def case_prod_beta split: if_splits)

lemma lexed_append_run:
  assumes "lexed s ts" and "delim c" and "lex_run L_start (c # t) = Some (us, st)"
  shows "lex_run L_start (s @ c # t) = Some (ts @ us, st)"
proof -
  obtain vs st' p where s: "lex_run L_start s = Some (vs, st')" "lex_end st' = Some p" "ts = vs @ p"
    using assms(1) by (auto simp: lexed_def)
  from lex_char_delim[OF assms(2) s(2)] assms(3) show ?thesis
    by (auto simp: lex_run_append s(1,3) lex_char_def case_prod_beta split: option.splits)
qed

lemma lexed_append:
  assumes "lexed s ts" and "delim c" and "lexed (c # t) us"
  shows "lexed (s @ c # t) (ts @ us)"
  using assms(3) lexed_append_run[OF assms(1,2)] unfolding lexed_def by fastforce

lemma lexed_closed_append:
  assumes "lexed s ts" and "delim c" and "closed_text (c # t) us"
  shows "closed_text (s @ c # t) (ts @ us)"
  using assms(3) lexed_append_run[OF assms(1,2)] by (simp add: closed_text_def)

lemma lexed_Nil: "lexed [] []"
  by (simp add: lexed_def lex_end_def)

lemma closed_Nil: "closed_text [] []"
  by (simp add: closed_text_def)

lemma closed_white: "white c \<Longrightarrow> closed_text s ts \<Longrightarrow> closed_text (c # s) ts"
  by (simp add: closed_text_def lex_char_def lex_first_def)

lemma lexed_white: "white c \<Longrightarrow> lexed s ts \<Longrightarrow> lexed (c # s) ts"
  by (simp add: lexed_def lex_char_def lex_first_def)

lemma symbol_chars [simp]:
  "\<not> white (CHR ''{'')" "\<not> white (CHR ''}'')" "\<not> white (CHR '','')" "\<not> white (CHR ''='')"
  "white (CHR 0x20)" "white (CHR 0x09)" "white (CHR 0x0A)"
  by (simp_all add: white_def)

lemma closed_symbols:
  "closed_text s ts \<Longrightarrow> closed_text (CHR ''{'' # s) (T_open # ts)"
  "closed_text s ts \<Longrightarrow> closed_text (CHR ''}'' # s) (T_close # ts)"
  "closed_text s ts \<Longrightarrow> closed_text (CHR '','' # s) (T_comma # ts)"
  "closed_text s ts \<Longrightarrow> closed_text (CHR ''='' # s) (T_assign # ts)"
  by (simp_all add: closed_text_def lex_char_def lex_first_def)

lemma delims [simp]: "delim (CHR 0x20)" "delim (CHR 0x09)" "delim (CHR 0x0A)" "delim (CHR '','')" "delim (CHR ''}'')"
  by (simp_all add: delim_def name_char_def name_start_def is_digit_def lex_first_def)

lemma closed_tabs: "closed_text s ts \<Longrightarrow> closed_text (write_tabs n @ s) ts"
  by (induction n) (simp_all add: write_tabs_def closed_white)

lemma lexed_tabs: "lexed s ts \<Longrightarrow> lexed (write_tabs n @ s) ts"
  by (induction n) (simp_all add: write_tabs_def lexed_white)

section \<open>The tokens of names, strings and integers\<close>

definition ident :: "string \<Rightarrow> bool" where
  "ident n \<longleftrightarrow> n \<noteq> [] \<and> name_start (hd n) \<and> list_all name_char n \<and> n \<notin> set reserved_words"

lemma name_start_first:
  assumes "name_start c"
  shows "lex_first c = Some ([], L_name [c])"
proof -
  have "\<not> white c" "c \<noteq> CHR ''{''" "c \<noteq> CHR ''}''" "c \<noteq> CHR '',''" "c \<noteq> CHR ''=''" "c \<noteq> CHR 0x22"
    "c \<noteq> CHR 0x27" "c \<noteq> CHR ''-''" "\<not> is_digit c"
    using assms by (auto simp: name_start_def white_def is_digit_def)
  then show ?thesis using assms by (simp add: lex_first_def)
qed

lemma lex_run_name: "list_all name_char n \<Longrightarrow> lex_run (L_name m) n = Some ([], L_name (m @ n))"
  by (induction n arbitrary: m) (simp_all add: lex_char_def)

lemma lexed_word:
  assumes "n \<noteq> []" and "name_start (hd n)" and "list_all name_char n"
  shows "lexed n [T_name n]"
  using assms by (cases n) (simp_all add: lexed_def lex_char_def name_start_first lex_run_name lex_end_def)

lemma lexed_name: "ident n \<Longrightarrow> lexed n [T_name n]"
  by (simp add: ident_def lexed_word)

lemma lexed_bool: "lexed ''true'' [T_name ''true'']" "lexed ''false'' [T_name ''false'']"
  by (rule lexed_word; simp add: name_char_def name_start_def)+

definition one_line :: "string \<Rightarrow> bool" where
  "one_line s \<longleftrightarrow> CHR 0x0A \<notin> set s \<and> CHR 0x0D \<notin> set s \<and> CHR 0x00 \<notin> set s"

lemma lex_run_quoted:
  "one_line s \<Longrightarrow> lex_run (L_str (CHR 0x22) acc) (quoted_body s @ [CHR 0x22]) = Some ([T_str (acc @ s)], L_start)"
  by (induction s arbitrary: acc rule: quoted_body.induct) (auto simp: one_line_def lex_char_def)

lemma closed_quoted:
  assumes "one_line s"
  shows "closed_text (std_quoted s) [T_str s]"
proof -
  have "lex_char L_start (CHR 0x22) = Some ([], L_str (CHR 0x22) [])"
    by (simp add: lex_char_def lex_first_def white_def)
  then show ?thesis
    using lex_run_quoted[OF assms, of "[]"] by (simp add: closed_text_def std_quoted_def)
qed

definition plain_text :: "string \<Rightarrow> bool" where
  "plain_text s \<longleftrightarrow> one_line s \<and> CHR 0x27 \<notin> set s \<and> CHR 0x5C \<notin> set s"

lemma lex_run_plain:
  "plain_text s \<Longrightarrow> lex_run (L_str (CHR 0x27) acc) (s @ [CHR 0x27]) = Some ([T_str (acc @ s)], L_start)"
  by (induction s arbitrary: acc) (auto simp: plain_text_def one_line_def lex_char_def)

lemma closed_plain:
  assumes "plain_text s"
  shows "closed_text (CHR 0x27 # s @ [CHR 0x27]) [T_str s]"
proof -
  have "lex_char L_start (CHR 0x27) = Some ([], L_str (CHR 0x27) [])"
    by (simp add: lex_char_def lex_first_def white_def)
  then show ?thesis
    using lex_run_plain[OF assms, of "[]"] by (simp add: closed_text_def)
qed

lemma digit_first:
  assumes "is_digit c"
  shows "lex_first c = Some ([], L_num False (digit_val c))"
proof -
  have "\<not> white c" "c \<noteq> CHR ''{''" "c \<noteq> CHR ''}''" "c \<noteq> CHR '',''" "c \<noteq> CHR ''=''" "c \<noteq> CHR 0x22"
    "c \<noteq> CHR 0x27" "c \<noteq> CHR ''-''"
    using assms by (auto simp: white_def is_digit_def)
  then show ?thesis using assms by (simp add: lex_first_def)
qed

lemma lex_run_digits:
  "list_all is_digit s \<Longrightarrow> lex_run (L_num neg n) s = Some ([], L_num neg (read_digits n s))"
  by (induction s arbitrary: n) (simp_all add: lex_char_def)

lemma show_nat_Cons: "\<exists>c s. show_nat n = c # s \<and> is_digit c \<and> list_all is_digit s \<and> read_digits (digit_val c) s = n"
proof -
  obtain c s where s: "show_nat n = c # s" by (cases "show_nat n") auto
  have "list_all is_digit (c # s)" using show_nat_digits[of _ n] by (auto simp: list_all_iff s)
  moreover have "read_digits 0 (c # s) = n" using read_digits_show_nat[of n] by (simp only: s)
  ultimately show ?thesis using s by simp
qed

lemma lexed_int:
  assumes "\<bar>i\<bar> < 2 ^ 63"
  shows "lexed (show_int i) [T_int i]"
proof -
  obtain c s where s: "show_nat (nat \<bar>i\<bar>) = c # s" "is_digit c" "list_all is_digit s"
      "read_digits (digit_val c) s = nat \<bar>i\<bar>"
    using show_nat_Cons by blast
  have minus: "lex_first (CHR ''-'') = Some ([], L_minus)"
    by (simp add: lex_first_def white_def)
  show ?thesis
  proof (cases "i < 0")
    case True
    with s assms minus show ?thesis
      by (simp add: show_int_def lexed_def lex_char_def lex_run_digits lex_end_def int_token_def)
  next
    case False
    with s assms show ?thesis
      by (simp add: show_int_def lexed_def lex_char_def digit_first lex_run_digits lex_end_def int_token_def)
  qed
qed

section \<open>The tokens of values\<close>

text \<open>An entry of a table: for a name, or of the sequence.\<close>

type_synonym 'a entry = "string option \<times> 'a"

fun separated :: "token list list \<Rightarrow> token list" where
  "separated [] = []"
| "separated [x] = x"
| "separated (x # y # xs) = x @ T_comma # separated (y # xs)"

definition entry_tokens :: "token list entry \<Rightarrow> token list" where
  "entry_tokens e = (case e of (None, ts) \<Rightarrow> ts | (Some k, ts) \<Rightarrow> T_name k # T_assign # ts)"

fun tokens :: "lua \<Rightarrow> token list" where
  "tokens (LBool b) = [T_name (if b then ''true'' else ''false'')]"
| "tokens (LInt i) = [T_int (sint i)]"
| "tokens (LString s) = [T_str s]"
| "tokens (LTable fs arr) = T_open # separated (map entry_tokens
     (map (\<lambda>(k, v). (Some k, tokens v)) fs @ map (\<lambda>v. (None, tokens v)) arr)) @ [T_close]"
| "tokens _ = []"

fun printable :: "lua \<Rightarrow> bool" where
  "printable (LBool b) = True"
| "printable (LInt i) = (sint i \<noteq> - (2 ^ 63))"
| "printable (LString s) = one_line s"
| "printable (LTable fs arr) = (distinct (map fst fs) \<and>
     list_all (\<lambda>(k, v). ident k \<and> printable v) fs \<and> list_all printable arr)"
| "printable _ = False"

lemma printable_induct [consumes 1, case_names bool int string table]:
  assumes "printable v"
    and "\<And>b. P (LBool b)"
    and "\<And>i. \<bar>sint i\<bar> < 2 ^ 63 \<Longrightarrow> P (LInt i)"
    and "\<And>s. one_line s \<Longrightarrow> P (LString s)"
    and "\<And>fs arr. distinct (map fst fs) \<Longrightarrow> (\<And>k v. (k, v) \<in> set fs \<Longrightarrow> ident k \<and> printable v \<and> P v) \<Longrightarrow>
           (\<And>v. v \<in> set arr \<Longrightarrow> printable v \<and> P v) \<Longrightarrow> P (LTable fs arr)"
  shows "P v"
  using assms(1)
proof (induction v rule: printable.induct)
  case (2 i)
  then show ?case using sint_i64_range[of i] by (intro assms(3)) auto
next
  case (4 fs arr)
  then show ?case by (intro assms(5)) (auto simp: list_all_iff)
qed (auto intro: assms)

section \<open>Printing gives these tokens\<close>

lemma lexed_join:
  assumes "list_all2 lexed xs tss"
  shows "lexed (join '',\<newline>'' xs) (separated tss)"
  using assms
proof (induction tss arbitrary: xs rule: separated.induct)
  case (3 t u us)
  then obtain x y ys where xs: "xs = x # y # ys" "lexed x t" "list_all2 lexed (y # ys) (u # us)"
    by (auto simp: list_all2_Cons2)
  have "lexed ('',\<newline>'' @ join '',\<newline>'' (y # ys)) (T_comma # separated (u # us))"
    using closed_lexed_append[OF closed_symbols(3)[OF closed_white[OF _ closed_Nil]] "3.IH"[OF xs(3)]] by simp
  then show ?case
    using lexed_append[OF xs(2), of "CHR '',''"] xs(1) by simp
qed (auto simp: list_all2_Cons2 lexed_Nil)

definition label :: "string \<Rightarrow> token list" where
  "label name = (if name = [] then [] else [T_name name, T_assign])"

lemma lexed_label:
  assumes "name = [] \<or> ident name" and "white c" and "delim c" and "closed_text t []"
  shows "closed_text (if name \<noteq> [] then name @ '' ='' @ c # t else []) (label name)"
proof (cases "name = []")
  case False
  with assms(1) have "lexed name [T_name name]" by (simp add: lexed_name)
  moreover have "closed_text ('' ='' @ c # t) [T_assign]"
    using closed_white[OF _ closed_symbols(4)[OF closed_white[OF assms(2,4)]]] by simp
  ultimately show ?thesis
    using False lexed_closed_append[of name "[T_name name]" "CHR 0x20"] by (simp add: label_def)
qed (simp add: label_def closed_Nil)

lemma closed_brace: "closed_text ''{\<newline>'' [T_open]"
  by (rule closed_symbols(1)[OF closed_white[OF _ closed_Nil]]) simp

lemma scalar_lexed:
  assumes "name = [] \<or> ident name" and "lexed (scalar_text E v) ts"
  shows "lexed (write_tabs tabs @ (if name \<noteq> [] then name @ '' = '' else []) @ scalar_text E v) (label name @ ts)"
  using lexed_tabs[OF closed_lexed_append[OF lexed_label[OF assms(1) _ _ closed_Nil, of "CHR 0x20"] assms(2)], of tabs]
  by (cases "name = []") simp_all

lemma printed_tokens:
  assumes "printable v" and "name = [] \<or> ident name"
  shows "lexed (LuaConfSerialize E v name tabs) (label name @ tokens v)"
  using assms
proof (induction v arbitrary: name tabs rule: printable_induct)
  case (bool b)
  then show ?case using scalar_lexed[OF bool, of E "LBool b"] by (cases b) (simp_all add: lexed_bool)
next
  case (int i)
  then show ?case
    using scalar_lexed[OF int(2), of E "LInt i", OF _] lexed_int[OF int(1)] by (simp add: show_i64_def)
next
  case (string s)
  then show ?case
    using scalar_lexed[OF string(2), of E "LString s", OF _] closed_lexed[OF closed_quoted[OF string(1)]] by simp
next
  case (table fs arr)
  let ?fs = "map (\<lambda>(k, v). (Some k, tokens v)) fs" and ?arr = "map (\<lambda>v. (None, tokens v)) arr"
  have kept: "\<not> is_function_or_none v" if "printable v" for v
    using that by (cases v) (simp_all add: is_function_or_none_def holds_def)
  have "list_all2 lexed (printed_fields E fs tabs) (map entry_tokens ?fs)"
  proof -
    have "filter (\<lambda>p. \<not> is_function_or_none (snd p)) fs = fs"
      using table(2) kept by (intro filter_True) auto
    moreover have "lexed (LuaConfSerialize E v k (tabs + 1)) (entry_tokens (Some k, tokens v))"
      if "(k, v) \<in> set fs" for k v
      using table(2)[OF that] by (auto simp: entry_tokens_def label_def ident_def)
    ultimately show ?thesis
      by (auto simp: printed_fields_def list_all2_map1 list_all2_map2 intro!: list.rel_refl_strong)
  qed
  moreover have "list_all2 lexed (printed_items E arr tabs) (map entry_tokens ?arr)"
  proof -
    have "filter (\<lambda>v. \<not> is_function_or_none v) arr = arr"
      using table(3) kept by (intro filter_True) auto
    moreover have "lexed (LuaConfSerialize E v [] (tabs + 1)) (entry_tokens (None, tokens v))"
      if "v \<in> set arr" for v
      using table(3)[OF that] by (auto simp: entry_tokens_def label_def)
    ultimately show ?thesis
      by (auto simp: printed_items_def list_all2_map1 list_all2_map2 intro!: list.rel_refl_strong)
  qed
  ultimately have body: "lexed (join '',\<newline>'' (printed_fields E fs tabs @ printed_items E arr tabs))
      (separated (map entry_tokens (?fs @ ?arr)))"
    by (intro lexed_join) (simp add: list_all2_appendI)
  have "closed_text (CHR 0x0A # write_tabs tabs @ ''}'') [T_close]"
    by (intro closed_white closed_tabs closed_symbols(2)[OF closed_Nil]) simp
  from lexed_closed_append[OF body _ this]
  have rest: "closed_text (''{\<newline>'' @ join '',\<newline>'' (printed_fields E fs tabs @ printed_items E arr tabs) @
      ''\<newline>'' @ write_tabs tabs @ ''}'') (tokens (LTable fs arr))"
    using closed_append[OF closed_brace] by fastforce
  have "closed_text (if name \<noteq> [] then write_tabs tabs @ name @ '' =\<newline>'' else []) (label name)"
    using closed_tabs[OF lexed_label[OF table(4) _ _ closed_Nil, of "CHR 0x0A"], of tabs]
    by (cases "name = []") (simp_all add: label_def closed_Nil)
  from closed_append[OF this closed_tabs[OF rest, of tabs]] show ?case
    by (intro closed_lexed) (simp only: serialize_table append_assoc)
qed

section \<open>The parser reads these tokens\<close>

lemma parse_append:
  "parse ex frs (ts @ us) = (case parse ex frs ts of None \<Rightarrow> None | Some (ex', frs') \<Rightarrow> parse ex' frs' us)"
  by (induction ts arbitrary: ex frs) (auto split: option.split)

definition expects_value :: "expecting \<Rightarrow> bool" where
  "expects_value ex \<longleftrightarrow> ex = E_value \<or> (\<exists>b. ex = E_field b)"

lemma parse_token_value:
  "expects_value ex \<Longrightarrow> t \<noteq> T_close \<Longrightarrow> (\<And>n. t = T_name n \<Longrightarrow> n = ''true'' \<or> n = ''false'') \<Longrightarrow>
     parse_token ex frs t = value_token t frs"
  by (cases t) (auto simp: expects_value_def parse_token_def)

lemma parse_token_values [simp]:
  "expects_value ex \<Longrightarrow> parse_token ex frs (T_name ''true'') = value_token (T_name ''true'') frs"
  "expects_value ex \<Longrightarrow> parse_token ex frs (T_name ''false'') = value_token (T_name ''false'') frs"
  "expects_value ex \<Longrightarrow> parse_token ex frs (T_int i) = value_token (T_int i) frs"
  "expects_value ex \<Longrightarrow> parse_token ex frs (T_str s) = value_token (T_str s) frs"
  "expects_value ex \<Longrightarrow> parse_token ex frs T_open = value_token T_open frs"
  by (rule parse_token_value; simp)+

fun add_entry :: "lua entry \<Rightarrow> (string \<times> lua) list \<times> lua list \<Rightarrow> (string \<times> lua) list \<times> lua list" where
  "add_entry (Some k, v) (fs, arr) = (upd_field k v fs, arr)"
| "add_entry (None, v) (fs, arr) = (fs, arr @ [v])"

definition value_entry :: "lua entry \<Rightarrow> token list" where
  "value_entry e = entry_tokens (fst e, tokens (snd e))"

lemma parse_name:
  assumes "ident k" and "ex = E_statement \<or> ex = E_field b"
  shows "parse ex ((None, p) # frs) (T_name k # T_assign # ts) = parse E_value ((Some k, p) # frs) ts"
proof -
  have "k \<noteq> ''true''" "k \<noteq> ''false''" "k \<notin> set reserved_words"
    using assms(1) by (auto simp: ident_def reserved_words_def)
  with assms(2) show ?thesis
    by (cases p) (auto simp: parse_token_def name_slot_def)
qed

lemma parse_entry:
  assumes "\<And>k. fst e = Some k \<Longrightarrow> ident k" and "frs \<noteq> []"
    and v: "\<And>ex frs. expects_value ex \<Longrightarrow> frs \<noteq> [] \<Longrightarrow> parse ex frs (tokens (snd e)) = deliver (snd e) frs"
  shows "parse (E_field b) ((None, p) # frs) (value_entry e) = Some (E_separator, (None, add_entry e p) # frs)"
proof -
  obtain k x fs arr where e: "e = (k, x)" "p = (fs, arr)" by (cases e, cases p)
  have "after_value (fr # frs) = E_separator" for fr
    using assms(2) by (cases frs) (simp_all add: after_value_def)
  then show ?thesis
    using v[of "E_field b" "(None, p) # frs"] v[of E_value "(Some (the k), p) # frs"] parse_name[of "the k" "E_field b" b p frs]
      assms(1)[of "the k"]
    by (cases k) (simp_all add: e value_entry_def entry_tokens_def deliver_def put_value_def expects_value_def)
qed

lemma parse_entries:
  assumes "\<And>e k. e \<in> set es \<Longrightarrow> fst e = Some k \<Longrightarrow> ident k" and "frs \<noteq> []" and "es \<noteq> []"
    and "\<And>e ex frs. e \<in> set es \<Longrightarrow> expects_value ex \<Longrightarrow> frs \<noteq> [] \<Longrightarrow>
      parse ex frs (tokens (snd e)) = deliver (snd e) frs"
  shows "parse (E_field b) ((None, p) # frs) (separated (map value_entry es)) =
     Some (E_separator, (None, fold add_entry es p) # frs)"
  using assms(1,3,4)
proof (induction es arbitrary: b p rule: induct_list012)
  case (2 e)
  then show ?case using parse_entry[of e frs b p] assms(2) by simp
next
  case (3 e e' es)
  have "parse (E_field b) ((None, p) # frs) (value_entry e) = Some (E_separator, (None, add_entry e p) # frs)"
    by (rule parse_entry[OF "3.prems"(1) assms(2) "3.prems"(3)]) simp_all
  moreover have "parse (E_field False) ((None, add_entry e p) # frs) (separated (map value_entry (e' # es))) =
      Some (E_separator, (None, fold add_entry (e' # es) (add_entry e p)) # frs)"
    by (rule "3.IH"(2)) (use "3.prems" in auto)
  ultimately show ?case by (simp add: parse_append parse_token_def)
qed simp

lemma fold_fields:
  "distinct (map fst fs0 @ map fst fs) \<Longrightarrow>
     fold add_entry (map (\<lambda>(k, v). (Some k, v)) fs) (fs0, arr) = (fs0 @ fs, arr)"
proof (induction fs arbitrary: fs0)
  case (Cons p fs)
  obtain k v where p: "p = (k, v)" by (cases p)
  have "filter (\<lambda>q. fst q \<noteq> k) fs0 = fs0"
    using Cons.prems p by (intro filter_True) auto
  then show ?case
    using Cons.IH[of "fs0 @ [(k, v)]"] Cons.prems p by (auto simp: upd_field_def)
qed simp

lemma fold_items: "fold add_entry (map (\<lambda>v. (None, v)) vs) (fs, arr) = (fs, arr @ vs)"
  by (induction vs arbitrary: arr) auto

lemma parse_value:
  assumes "printable v" and "expects_value ex" and "frs \<noteq> []"
  shows "parse ex frs (tokens v) = deliver v frs"
  using assms
proof (induction v arbitrary: ex frs rule: printable_induct)
  case (bool b)
  then show ?case
    by (cases b) (simp_all add: value_token_def split: option.split)
next
  case (int i)
  then show ?case by (simp add: value_token_def split: option.split)
next
  case (string s)
  then show ?case by (simp add: value_token_def split: option.split)
next
  case (table fs arr)
  let ?es = "map (\<lambda>(k, v). (Some k, v)) fs @ map (\<lambda>v. (None, v)) arr"
  have es: "map entry_tokens (map (\<lambda>(k, v). (Some k, tokens v)) fs @ map (\<lambda>v. (None, tokens v)) arr) =
      map value_entry ?es"
    by (auto simp: value_entry_def)
  have start: "parse ex frs (T_open # ts) = parse (E_field True) ((None, [], []) # frs) ts" for ts
    using table(4) by (simp add: value_token_def)
  have body: "parse (E_field True) ((None, [], []) # frs) (separated (map value_entry ?es) @ [T_close]) =
      deliver (LTable fs arr) frs"
  proof (cases "?es = []")
    case True
    then show ?thesis by (auto simp: parse_token_def close_table_def split: option.split)
  next
    case False
    have "parse (E_field True) ((None, [], []) # frs) (separated (map value_entry ?es)) =
        Some (E_separator, (None, fold add_entry ?es ([], [])) # frs)"
      using table(2,3,5) False by (intro parse_entries) (auto split: prod.splits)
    moreover have "fold add_entry ?es ([], []) = (fs, arr)"
      using fold_fields[of "[]" fs "[]"] table(1) by (simp add: fold_items)
    ultimately show ?thesis
      by (simp add: parse_append parse_token_def close_table_def split: option.split)
  qed
  show ?case unfolding tokens.simps es append_Cons start by (rule body)
qed

section \<open>Reading a chunk back\<close>

definition statement_tokens :: "string \<times> lua \<Rightarrow> token list" where
  "statement_tokens s = T_name (fst s) # T_assign # tokens (snd s)"

lemma parse_statements:
  assumes "\<And>k v. (k, v) \<in> set sts \<Longrightarrow> ident k \<and> printable v"
    and "distinct (map fst fs @ map fst sts)"
  shows "parse E_statement [(None, fs, arr)] (concat (map statement_tokens sts)) =
     Some (E_statement, [(None, fs @ sts, arr)])"
  using assms
proof (induction sts arbitrary: fs)
  case (Cons st sts)
  obtain k v where st: "st = (k, v)" by (cases st)
  have kv: "ident k" "printable v" using Cons.prems(1)[of k v] st by auto
  have "filter (\<lambda>q. fst q \<noteq> k) fs = fs"
    using Cons.prems(2) st by (intro filter_True) auto
  then have "parse E_statement [(None, fs, arr)] (statement_tokens st) =
      Some (E_statement, [(None, fs @ [(k, v)], arr)])"
    using parse_name[OF kv(1), of E_statement undefined "(fs, arr)" "[]"] parse_value[OF kv(2), of E_value]
    by (simp add: st statement_tokens_def expects_value_def deliver_def put_value_def after_value_def upd_field_def)
  moreover have "parse E_statement [(None, fs @ [(k, v)], arr)] (concat (map statement_tokens sts)) =
      Some (E_statement, [(None, (fs @ [(k, v)]) @ sts, arr)])"
    by (rule Cons.IH) (use Cons.prems st in auto)
  ultimately show ?case using st by (simp add: parse_append)
qed simp

lemma read_statements:
  assumes "lexed text (concat (map statement_tokens sts))"
    and "\<And>k v. (k, v) \<in> set sts \<Longrightarrow> ident k \<and> printable v" and "distinct (map fst sts)"
  shows "read_chunk text = Some sts"
  using lexed_lex[OF assms(1)] parse_statements[of sts "[]" "[]"] assms(2,3)
  by (simp add: read_chunk_def)

end
