(* ===== verification/Lua_Exchange.thy ===== *)
theory Lua_Exchange
  imports Lua_Roundtrip
begin

text \<open>
  Running a chunk in a VM: two values agree when every read by name, by position and by length gives
  agreeing values; the order in which a table enumerates its entries is not compared. The
  hypotheses on the two VMs are stated with it, and the texts that the server answers with are
  shown to be read back.
\<close>

section \<open>Agreement\<close>

inductive agrees :: "lua \<Rightarrow> lua \<Rightarrow> bool" where
  scalar: "\<not> holds v VM_Table \<Longrightarrow> agrees v v"
| table: "list_all2 agrees arr brr \<Longrightarrow>
     (\<And>k. agrees (get_raw_ref (LTable fs arr) k) (get_raw_ref (LTable gs brr) k)) \<Longrightarrow>
     agrees (LTable fs arr) (LTable gs brr)"

inductive_cases agrees_table: "agrees t (LTable gs brr)"
inductive_cases agrees_cases: "agrees t u"

lemma agrees_ref: "agrees t u \<Longrightarrow> agrees (get_raw_ref t k) (get_raw_ref u k)"
proof (induction rule: agrees.induct)
  case (scalar v)
  then show ?case by (cases v) (auto simp: get_raw_ref_def holds_def intro: agrees.scalar)
qed simp

lemma agrees_LTable:
  assumes "agrees t (LTable gs brr)"
  obtains fs arr where "t = LTable fs arr" and "list_all2 agrees arr brr"
  using assms by (cases rule: agrees_table) (auto simp: holds_def)

lemma agrees_not_table: "agrees t u \<Longrightarrow> \<not> holds u VM_Table \<Longrightarrow> t = u"
  by (erule agrees_cases) (auto simp: holds_def)

lemma agrees_holds: "agrees t u \<Longrightarrow> holds t ty = holds u ty"
  by (erule agrees_cases) (auto simp: holds_def)

lemma agrees_string: "agrees t u \<Longrightarrow> get_raw_string t k = get_raw_string u k"
  unfolding get_raw_string_def by (drule agrees_ref[of t u k]) (auto elim: agrees_cases)

lemma agrees_int: "agrees t u \<Longrightarrow> get_raw_int t k = get_raw_int u k"
  unfolding get_raw_int_def by (drule agrees_ref[of t u k]) (auto elim: agrees_cases)

lemma agrees_refl: "agrees v v"
proof (induction v)
  case (LTable fs arr)
  have "agrees (get_raw_ref (LTable fs arr) k) (get_raw_ref (LTable fs arr) k)" for k
  proof (cases "map_of fs k")
    case None
    then show ?thesis by (simp add: get_raw_ref_def agrees.scalar holds_def)
  next
    case (Some w)
    then have "(k, w) \<in> set fs" by (rule map_of_SomeD)
    then show ?thesis using LTable.IH(1)[of "(k, w)" w] Some by (simp add: get_raw_ref_def)
  qed
  moreover have "list_all2 agrees arr arr"
    using LTable.IH(2) by (intro list.rel_refl_strong)
  ultimately show ?case by (intro agrees.table)
qed (auto intro: agrees.scalar simp: holds_def)

section \<open>The two VMs\<close>

text \<open>
  The server's VM yields the table of the globals of a chunk that runs to its end; the client looks
  at the globals in any case.
\<close>

definition server_vm_ok :: "(string \<Rightarrow> lua option) \<Rightarrow> bool" where
  "server_vm_ok exec \<longleftrightarrow> (\<forall>text fs. read_chunk text = Some fs \<longrightarrow>
     (\<exists>t. exec text = Some t \<and> agrees t (LTable fs [])))"

definition client_vm_ok :: "(string \<Rightarrow> lua) \<Rightarrow> bool" where
  "client_vm_ok exec \<longleftrightarrow> (\<forall>text fs. read_chunk text = Some fs \<longrightarrow> agrees (exec text) (LTable fs []))"

definition sample_server_vm :: "string \<Rightarrow> lua option" where
  "sample_server_vm text = map_option (\<lambda>fs. LTable fs []) (read_chunk text)"

definition sample_client_vm :: "string \<Rightarrow> lua" where
  "sample_client_vm text = (case read_chunk text of None \<Rightarrow> LTable [] [] | Some fs \<Rightarrow> LTable fs [])"

lemma sample_vms_ok: "server_vm_ok sample_server_vm" "client_vm_ok sample_client_vm"
  by (simp_all add: server_vm_ok_def client_vm_ok_def sample_server_vm_def sample_client_vm_def agrees_refl)

section \<open>The server's texts\<close>

lemma lexed_response:
  assumes "plain_text msg"
  shows "closed_text (make_response_str msg) [T_name ''response'', T_assign, T_str msg]"
proof -
  have "ident ''response''" by (simp add: ident_def name_char_def name_start_def reserved_words_def)
  then have "lexed ''response'' [T_name ''response'']" by (rule lexed_name)
  moreover have "closed_text ('' = '' @ (CHR 0x27 # msg @ [CHR 0x27]) @ [CHR 0x0A]) ([T_assign] @ [T_str msg] @ [])"
    by (intro closed_append closed_plain assms) (simp_all add: closed_white closed_symbols closed_Nil)
  ultimately have "closed_text (''response'' @ CHR 0x20 # ''= '' @ (CHR 0x27 # msg @ [CHR 0x27]) @ [CHR 0x0A])
      ([T_name ''response''] @ [T_assign] @ [T_str msg] @ [])"
    by (intro lexed_closed_append) simp_all
  then show ?thesis by (simp add: make_response_str_def)
qed

lemma read_response:
  assumes "plain_text msg"
  shows "read_chunk (make_response_str msg) = Some [(''response'', LString msg)]"
  using closed_lexed[OF lexed_response[OF assms]] assms
  by (intro read_statements)
    (auto simp: statement_tokens_def ident_def name_char_def name_start_def reserved_words_def plain_text_def)

lemma read_listing:
  assumes "plain_text msg" and "printable v" and "ident name" and "name \<noteq> ''response''"
  shows "read_chunk (make_response_str msg @ LuaConfSerialize E v name 0) =
     Some [(''response'', LString msg), (name, v)]"
proof (rule read_statements)
  have "name \<noteq> []" using assms(3) by (simp add: ident_def)
  then show "lexed (make_response_str msg @ LuaConfSerialize E v name 0)
      (concat (map statement_tokens [(''response'', LString msg), (name, v)]))"
    using closed_lexed_append[OF lexed_response[OF assms(1)] printed_tokens[OF assms(2), of name E 0]] assms(3)
    by (simp add: statement_tokens_def label_def)
qed (use assms in \<open>auto simp: ident_def name_char_def name_start_def reserved_words_def plain_text_def\<close>)

section \<open>Properties\<close>


lemma ident_users: "ident ''users''" "ident ''customers''" "ident ''sname''"
  by (simp_all add: ident_def name_char_def name_start_def reserved_words_def)


lemma lex_run_quoted_line_end:
  "\<not> one_line s \<Longrightarrow> lex_run (L_str (CHR 0x22) acc) (quoted_body s @ t) = None"
  by (induction s arbitrary: acc rule: quoted_body.induct) (auto simp: one_line_def lex_char_def)

text \<open>
  One value with a line end or a zero makes the whole reply unreadable: \<open>std::quoted\<close> escapes neither. A line
  end ends no string of the language and a zero ends the text, so it is not a chunk of the fragment.
\<close>

theorem line_end_unreadable:
  assumes "plain_text msg" and "ident name" and "\<not> one_line s"
  shows "read_chunk (make_response_str msg @ LuaConfSerialize E (LString s) name 0) = None"
proof -
  have quoted: "lex_run L_start (std_quoted s) = None"
    using lex_run_quoted_line_end[OF assms(3), of "[]" "[CHR 0x22]"]
    by (simp add: std_quoted_def lex_char_def lex_first_def white_def)
  have "name \<noteq> []" using assms(2) by (simp add: ident_def)
  moreover have "closed_text (make_response_str msg @ write_tabs 0 @ name @ '' ='' @ [CHR 0x20])
      ([T_name ''response'', T_assign, T_str msg] @ label name)"
    using closed_append[OF lexed_response[OF assms(1)]
        closed_tabs[OF lexed_label[of name "CHR 0x20", OF _ _ _ closed_Nil], of 0]] assms(2) \<open>name \<noteq> []\<close>
    by simp
  ultimately have "lex_run L_start (make_response_str msg @ LuaConfSerialize E (LString s) name 0) = None"
    using quoted lex_run_append[of L_start "make_response_str msg @ write_tabs 0 @ name @ '' ='' @ [CHR 0x20]" "std_quoted s"]
    by (simp add: closed_text_def)
  then show ?thesis by (simp add: read_chunk_def lex_def)
qed

theorem line_end_unreadable_witness:
  "\<forall>E. read_chunk (make_response_str ''success'' @ LuaConfSerialize E (LString ''a\<newline>b'') ''sname'' 0) = None"
  by (intro allI line_end_unreadable) (simp_all add: plain_text_def one_line_def ident_users)

end
