(* ===== verification/Client_Requests.thy ===== *)
theory Client_Requests
  imports Server_Settings Sql_Text
begin

text \<open>
  The texts the client sends (pc_course_client/Utils/Requests.hpp): \<open>QString::arg\<close> with its place
  markers, and one function per request. Every text ends with carriage return and line feed; the
  lemmas say how the server's read and its \<open>getline\<close> cut such a text.
\<close>

section \<open>Place markers\<close>

text \<open>
  \<open>QString::arg\<close> is not in the repository: every text takes it as the parameter \<open>arg\<close>. Its overload
  with several texts is documented to replace the place markers in one pass, so that an argument that
  holds a marker is not replaced again; \<open>qarg\<close> is that replacement, and \<open>arg_ok\<close> the hypothesis that
  \<open>arg\<close> performs it on texts whose markers are \<open>%1\<close> to \<open>%9\<close>, as all those of the program are.
\<close>

fun qarg :: "string \<Rightarrow> string list \<Rightarrow> string" where
  "qarg [] args = []"
| "qarg [c] args = [c]"
| "qarg (c # d # s) args =
     (if c = CHR ''%'' \<and> is_digit d \<and> 1 \<le> digit_val d \<and> digit_val d \<le> length args
      then args ! (digit_val d - 1) @ qarg s args
      else c # qarg (d # s) args)"

fun plain_markers :: "string \<Rightarrow> bool" where
  "plain_markers [] = True"
| "plain_markers (c # s) =
     ((c = CHR ''%'' \<longrightarrow> s \<noteq> [] \<and> is_digit (hd s) \<and> 1 \<le> digit_val (hd s) \<and>
        (tl s = [] \<or> \<not> is_digit (hd (tl s)))) \<and> plain_markers s)"

definition arg_ok :: "(string \<Rightarrow> string list \<Rightarrow> string) \<Rightarrow> bool" where
  "arg_ok arg \<longleftrightarrow> (\<forall>s args. plain_markers s \<longrightarrow> length args \<le> 9 \<longrightarrow> arg s args = qarg s args)"

lemma arg_ok_qarg: "arg_ok qarg"
  by (simp add: arg_ok_def)

type_synonym q_arg = "string \<Rightarrow> string list \<Rightarrow> string"

section \<open>The requests\<close>

record user_login =
  ul_login :: string
  ul_password :: string
  ul_rank :: string

definition TAB :: string where "TAB = [CHR 0x09]"
definition CRLF :: string where "CRLF = [CHR 0x0D, CHR 0x0A]"

definition user_text :: string where
  "user_text = ''user = {'' @ TAB @ ''login = '%1','' @ TAB @ ''password = '%2','' @ TAB @ ''rank = '%3'}''"

definition Auth :: "q_arg \<Rightarrow> user_login \<Rightarrow> string" where
  "Auth arg usr = arg (''request = 'auth' '' @ user_text @ CRLF) [ul_login usr, ul_password usr, ul_rank usr]"

definition GetUsers_request :: "q_arg \<Rightarrow> user_login \<Rightarrow> string" where
  "GetUsers_request arg usr =
     arg (''request = 'get_users' '' @ user_text @ CRLF) [ul_login usr, ul_password usr, ul_rank usr]"

definition CreateUser_request ::
  "q_arg \<Rightarrow> user_login \<Rightarrow> string \<Rightarrow> string \<Rightarrow> string \<Rightarrow> string \<Rightarrow> string \<Rightarrow> 32 word \<Rightarrow> string" where
  "CreateUser_request arg usr login password sname name pname rank_id =
     arg (''request = 'create_user' '' @ user_text @ ''new_user = {'' @
         TAB @ ''login = '%4','' @ TAB @ ''password = '%5','' @ TAB @ ''sname = '%6','' @
         TAB @ ''name = '%7','' @ TAB @ ''pname = '%8','' @ TAB @ ''rank = %9}'' @ CRLF)
       [ul_login usr, ul_password usr, ul_rank usr, login, password, sname, name, pname,
        show_int (sint rank_id)]"

definition DeleteUser_request :: "q_arg \<Rightarrow> user_login \<Rightarrow> string \<Rightarrow> string" where
  "DeleteUser_request arg usr login =
     arg (''request = 'delete_user' '' @ user_text @ ''delete_user_login = '%4'' @ [CHR 0x27] @ CRLF)
       [ul_login usr, ul_password usr, ul_rank usr, login]"

definition GetCustomers_request :: "q_arg \<Rightarrow> user_login \<Rightarrow> string" where
  "GetCustomers_request arg usr =
     arg (''request = 'get_customers' '' @ user_text @ CRLF) [ul_login usr, ul_password usr, ul_rank usr]"

definition CreateCustomer_request :: "q_arg \<Rightarrow> user_login \<Rightarrow> 64 word \<Rightarrow> string \<Rightarrow> string \<Rightarrow> string \<Rightarrow> string" where
  "CreateCustomer_request arg usr tel_number sname name pname =
     arg (''request = 'create_customer' '' @ user_text @ ''new_customer = {'' @
         TAB @ ''telephone = %4,'' @ TAB @ ''sname = '%5','' @ TAB @ ''name = '%6','' @
         TAB @ ''pname = '%7'}'' @ CRLF)
       [ul_login usr, ul_password usr, ul_rank usr, show_nat (unat tel_number), sname, name, pname]"

definition DeleteCustomer_request :: "q_arg \<Rightarrow> user_login \<Rightarrow> 64 word \<Rightarrow> string" where
  "DeleteCustomer_request arg usr tel_number =
     arg (''request = 'delete_user' '' @ user_text @ ''delete_customer_telephone = %4'' @ CRLF)
       [ul_login usr, ul_password usr, ul_rank usr, show_nat (unat tel_number)]"

definition GetItems_request :: "q_arg \<Rightarrow> user_login \<Rightarrow> string" where
  "GetItems_request arg usr =
     arg (''request = 'get_items' '' @ user_text @ CRLF) [ul_login usr, ul_password usr, ul_rank usr]"

text \<open>
  \<open>QString::number\<close> of a \<open>double\<close> is a parameter: six significant digits, as documented.
\<close>

definition CreateItem_request ::
  "q_arg \<Rightarrow> (dbl \<Rightarrow> string) \<Rightarrow> user_login \<Rightarrow> string \<Rightarrow> dbl \<Rightarrow> 32 word \<Rightarrow> 32 word \<Rightarrow> 32 word \<Rightarrow> string \<Rightarrow> string" where
  "CreateItem_request arg number usr name cost cnt distributor_id type_id description =
     arg (''request = 'get_items' '' @ user_text @ ''new_item = {'' @
         TAB @ ''name = '%4','' @ TAB @ ''cost = %5,'' @ TAB @ ''count = %6,'' @
         TAB @ ''distributor_id = %7,'' @ TAB @ ''type_id = %8,'' @ TAB @ ''description = %9}'' @ CRLF)
       [ul_login usr, ul_password usr, ul_rank usr, name, number cost, show_nat (unat cnt),
        show_int (sint distributor_id), show_int (sint type_id), description]"

section \<open>The texts\<close>

text \<open>What the place markers make of the common part.\<close>

definition user_fields_text :: "user_login \<Rightarrow> string" where
  "user_fields_text usr = ''user = {'' @ TAB @ ''login = '' @ quote_char # ul_login usr @ quote_char # '','' @
     TAB @ ''password = '' @ quote_char # ul_password usr @ quote_char # '','' @
     TAB @ ''rank = '' @ quote_char # ul_rank usr @ quote_char # ''}''"

lemma Auth_text: "arg_ok arg \<Longrightarrow> Auth arg usr = ''request = 'auth' '' @ user_fields_text usr @ CRLF"
  by (simp add: Auth_def arg_ok_def user_text_def user_fields_text_def TAB_def CRLF_def is_digit_def digit_val_def)

lemma GetCustomers_text:
  "arg_ok arg \<Longrightarrow> GetCustomers_request arg usr = ''request = 'get_customers' '' @ user_fields_text usr @ CRLF"
  by (simp add: GetCustomers_request_def arg_ok_def user_text_def user_fields_text_def TAB_def CRLF_def is_digit_def
      digit_val_def)

lemma GetUsers_text:
  "arg_ok arg \<Longrightarrow> GetUsers_request arg usr = ''request = 'get_users' '' @ user_fields_text usr @ CRLF"
  by (simp add: GetUsers_request_def arg_ok_def user_text_def user_fields_text_def TAB_def CRLF_def is_digit_def
      digit_val_def)

lemma DeleteUser_text:
  "arg_ok arg \<Longrightarrow> DeleteUser_request arg usr login = ''request = 'delete_user' '' @ user_fields_text usr @
     ''delete_user_login = '' @ quote_char # login @ quote_char # CRLF"
  by (simp add: DeleteUser_request_def arg_ok_def user_text_def user_fields_text_def TAB_def CRLF_def is_digit_def
      digit_val_def)

lemma DeleteCustomer_text:
  "arg_ok arg \<Longrightarrow> DeleteCustomer_request arg usr tel = ''request = 'delete_user' '' @ user_fields_text usr @
     ''delete_customer_telephone = '' @ show_nat (unat tel) @ CRLF"
  by (simp add: DeleteCustomer_request_def arg_ok_def user_text_def user_fields_text_def TAB_def CRLF_def is_digit_def
      digit_val_def)

section \<open>How the server cuts the texts\<close>

definition plain_user :: "user_login \<Rightarrow> bool" where
  "plain_user usr \<longleftrightarrow> CR \<notin> set (ul_login usr) \<and> CR \<notin> set (ul_password usr) \<and> CR \<notin> set (ul_rank usr)"

lemma user_fields_no_CR: "plain_user usr \<Longrightarrow> CR \<notin> set (user_fields_text usr)"
  by (auto simp: user_fields_text_def plain_user_def TAB_def CR_def)

lemma getline_CRLF: "CR \<notin> set m \<Longrightarrow> getline CR (m @ CRLF) = (m, [CHR 0x0A])"
  by (simp add: getline_def CRLF_def CR_def takeWhile_append dropWhile_append)

lemma holds_marker_split:
  "holds_marker marker buf \<longleftrightarrow> (\<exists>pre post. buf = pre @ marker @ post)"
proof
  assume "holds_marker marker buf"
  then obtain i where "take (length marker) (drop i buf) = marker"
    by (auto simp: holds_marker_def list_ex_iff)
  then have "drop i buf = marker @ drop (length marker) (drop i buf)"
    by (metis append_take_drop_id)
  then show "\<exists>pre post. buf = pre @ marker @ post"
    by (metis append_take_drop_id)
next
  assume "\<exists>pre post. buf = pre @ marker @ post"
  then obtain pre post where "buf = pre @ marker @ post" by blast
  then show "holds_marker marker buf"
    unfolding holds_marker_def list_ex_iff by (intro bexI[of _ "length pre"]) auto
qed

lemma user_fields_last: "\<exists>q. user_fields_text usr = q @ [CHR ''}'']"
  by (rule exI[of _ "''user = {'' @ TAB @ ''login = '' @ quote_char # ul_login usr @ quote_char # '','' @
     TAB @ ''password = '' @ quote_char # ul_password usr @ quote_char # '','' @
     TAB @ ''rank = '' @ quote_char # ul_rank usr @ [quote_char]"]) (simp add: user_fields_text_def)

text \<open>
  With the end marker of the client, CR LF, a request whose texts hold no carriage return is read
  as a whole and exactly as it was built; only the line feed stays in the buffer.
\<close>

theorem auth_request_framed:
  assumes "arg_ok arg" and "plain_user usr"
  shows "holds_marker CRLF (Auth arg usr) \<and>
     getline CR (Auth arg usr) = (''request = 'auth' '' @ user_fields_text usr, [CHR 0x0A])"
proof -
  have "CR \<notin> set (''request = 'auth' '' @ user_fields_text usr)"
    using user_fields_no_CR[OF assms(2)] by (simp add: CR_def)
  from getline_CRLF[OF this] have "getline CR (Auth arg usr) =
      (''request = 'auth' '' @ user_fields_text usr, [CHR 0x0A])"
    unfolding Auth_text[OF assms(1)] by (simp only: append_assoc)
  moreover have "holds_marker CRLF (Auth arg usr)"
    unfolding holds_marker_split Auth_text[OF assms(1)] by (metis append.assoc append.right_neutral)
  ultimately show ?thesis by blast
qed

definition sample_user :: user_login where
  "sample_user = \<lparr>ul_login = ''amogus'', ul_password = ''hash'', ul_rank = ''Admin''\<rparr>"

lemma sample_user_plain: "plain_user sample_user"
  by (simp add: plain_user_def sample_user_def CR_def)

theorem auth_request_framed_witness:
  "holds_marker CRLF (Auth qarg sample_user) \<and>
     getline CR (Auth qarg sample_user) = (''request = 'auth' '' @ user_fields_text sample_user, [CHR 0x0A])"
  by (rule auth_request_framed[OF arg_ok_qarg sample_user_plain])

text \<open>
  With the end marker the server falls back to when its settings file cannot be read, a
  client's request is never complete: the marker does not occur in it, so the server waits until
  the connection times out.
\<close>

theorem default_marker_never_found:
  assumes "arg_ok arg" and "plain_user usr"
  shows "\<not> holds_marker (end_of_message default_settings) (Auth arg usr)"
proof
  assume "holds_marker (end_of_message default_settings) (Auth arg usr)"
  then obtain pre post where split: "Auth arg usr = (pre @ ''lua'') @ CR # post"
    by (auto simp: holds_marker_split default_settings_def)
  obtain q where q: "user_fields_text usr = q @ [CHR ''}'']"
    using user_fields_last by blast
  let ?p = "''request = 'auth' '' @ q"
  have p: "Auth arg usr = (?p @ [CHR ''}'']) @ CR # [CHR 0x0A]"
    by (simp add: Auth_text[OF assms(1)] q CRLF_def CR_def)
  have "CR \<notin> set (?p @ [CHR ''}''])"
    using user_fields_no_CR[OF assms(2)] by (simp add: q) (simp add: CR_def)
  moreover have "CR \<notin> set [CHR 0x0A]"
    by (simp add: CR_def)
  ultimately have eq: "?p @ [CHR ''}''] = pre @ ''lua''"
    using append_Cons_eq_iff[of CR "?p @ [CHR ''}'']" "[CHR 0x0A]" "pre @ ''lua''" post]
      p split by (simp only: simp_thms)
  have "last (?p @ [CHR ''}'']) = last (pre @ ''lua'')"
    by (simp only: eq)
  then show False by simp
qed

theorem default_marker_never_found_witness:
  "\<not> holds_marker (end_of_message default_settings) (Auth qarg sample_user)"
  by (rule default_marker_never_found[OF arg_ok_qarg sample_user_plain])

end
