(* ===== verification/Client_Connection.thy ===== *)
theory Client_Connection
  imports Client_Requests
begin

text \<open>
  The client's socket (pc_course_client/Utils/ServerConnection.cpp): the loop that writes a request,
  and the slot that collects the blocks of the reply until the end marker has arrived. The
  position at which the slot starts its search is computed in unsigned 64-bit arithmetic and
  then read as the signed start of \<open>QByteArray::indexOf\<close>, which counts a negative start from the
  end. The socket and \<open>indexOf\<close> are parameters.
\<close>

section \<open>Writing\<close>

text \<open>
  \<open>socket_write\<close> is \<open>socket.write\<close> on a state of the socket: \<open>-1\<close> or the number of bytes taken. The
  loop runs as long as bytes are left, for ever if every call takes none. The result says
  whether \<open>MessageCarried\<close> is emitted.
\<close>

partial_function (option) write_loop ::
  "(string \<Rightarrow> 's \<Rightarrow> int \<times> 's) \<Rightarrow> string \<Rightarrow> nat \<Rightarrow> nat \<Rightarrow> 's \<Rightarrow> (bool \<times> 's) option" where
  "write_loop socket_write message start_ind left_size s =
     (if left_size = 0 then Some (True, s)
      else (case socket_write (take left_size (drop start_ind message)) s of (res, s') \<Rightarrow>
        if res = -1 then Some (False, s')
        else write_loop socket_write message (start_ind + nat res) (left_size - nat res) s'))"

definition Write_request ::
  "(string \<Rightarrow> 's \<Rightarrow> int \<times> 's) \<Rightarrow> string \<Rightarrow> 's \<Rightarrow> (bool \<times> 's) option" where
  "Write_request socket_write message s = write_loop socket_write message 0 (length message) s"

text \<open>
  What is documented of the socket: a call fails and takes nothing, or takes at least one and at
  most all of the bytes, from their beginning. \<open>sent\<close> is what the socket has taken so far.
\<close>

definition sink_ok :: "(string \<Rightarrow> 's \<Rightarrow> int \<times> 's) \<Rightarrow> ('s \<Rightarrow> string) \<Rightarrow> bool" where
  "sink_ok socket_write sent \<longleftrightarrow> (\<forall>bytes s. bytes \<noteq> [] \<longrightarrow>
     (case socket_write bytes s of (res, s') \<Rightarrow>
        res = -1 \<and> sent s' = sent s \<or>
        1 \<le> res \<and> res \<le> int (length bytes) \<and> sent s' = sent s @ take (nat res) bytes))"

lemma sink_okD:
  assumes "sink_ok socket_write sent" and "bytes \<noteq> []" and "socket_write bytes s = (res, s')"
  obtains "res = -1" "sent s' = sent s"
  | "1 \<le> res" "res \<le> int (length bytes)" "sent s' = sent s @ take (nat res) bytes"
proof -
  from assms(1)[unfolded sink_ok_def, rule_format, OF assms(2), of s] assms(3) that
  show thesis by auto
qed

section \<open>Reading\<close>

text \<open>
  \<open>QByteArray::indexOf\<close> with a start: the first position of the text from there on, or \<open>-1\<close>; a
  negative start counts from the end.
\<close>

type_synonym q_index = "string \<Rightarrow> string \<Rightarrow> int \<Rightarrow> int"

definition first_from :: q_index where
  "first_from bytes delim from =
     (let from' = if from < 0 then max (from + int (length bytes)) 0 else from in
      case filter (\<lambda>i. from' \<le> int i \<and> take (length delim) (drop i bytes) = delim) [0..<Suc (length bytes)] of
        [] \<Rightarrow> -1
      | i # _ \<Rightarrow> int i)"

definition index_ok :: "q_index \<Rightarrow> bool" where
  "index_ok index_of \<longleftrightarrow> (\<forall>bytes delim from. delim \<noteq> [] \<longrightarrow> index_of bytes delim from = first_from bytes delim from)"

lemma index_ok_first_from: "index_ok first_from"
  by (simp add: index_ok_def)

definition search_start_pos :: "nat \<Rightarrow> nat \<Rightarrow> int" where
  "search_start_pos pre_size delim_size =
     sint (if (of_nat pre_size :: 64 word) \<ge> of_nat delim_size - 1
           then (of_nat pre_size :: 64 word) - of_nat delim_size - 1 else 0)"

record client_connection =
  input_message :: string
  listening :: bool
  arrived :: "string list"

definition Read :: client_connection where
  "Read = \<lparr>input_message = [], listening = True, arrived = []\<rparr>"

definition ready_read :: "q_index \<Rightarrow> string \<Rightarrow> string \<Rightarrow> client_connection \<Rightarrow> client_connection" where
  "ready_read index_of delim block c =
     (if \<not> listening c then c
      else
        let pre_size = length (input_message c);
            c = c\<lparr>input_message := input_message c @ block\<rparr>;
            ind = index_of (input_message c) delim (search_start_pos pre_size (length delim))
        in if ind \<noteq> -1
           then c\<lparr>input_message := [], listening := False,
                  arrived := arrived c @ [take (nat ind) (input_message c)]\<rparr>
           else c)"

text \<open>The blocks of a reply, in the order in which they arrive.\<close>

definition collect :: "q_index \<Rightarrow> string \<Rightarrow> string list \<Rightarrow> client_connection \<Rightarrow> client_connection" where
  "collect index_of delim blocks c = foldl (\<lambda>c b. ready_read index_of delim b c) c blocks"

section \<open>Writing ends\<close>

lemma write_loop_delivers:
  assumes ok: "sink_ok socket_write sent"
  shows "i + n = length message \<Longrightarrow> \<exists>b s'. write_loop socket_write message i n s = Some (b, s') \<and>
     (\<exists>k. k \<le> n \<and> (b \<longleftrightarrow> k = n) \<and> sent s' = sent s @ take k (drop i message))"
proof (induction n arbitrary: i s rule: less_induct)
  case (less n)
  show ?case
  proof (cases "n = 0")
    case True
    then show ?thesis by (subst write_loop.simps) auto
  next
    case False
    let ?bytes = "take n (drop i message)"
    have bytes: "?bytes \<noteq> []" "length ?bytes = n" using False less.prems by auto
    obtain res s1 where w: "socket_write ?bytes s = (res, s1)" by fastforce
    from ok bytes(1) w show ?thesis
    proof (cases rule: sink_okD)
      case 1
      then show ?thesis
        using w False by (subst write_loop.simps) (auto intro: exI[of _ 0])
    next
      case 2
      let ?r = "nat res"
      have r: "1 \<le> ?r" "?r \<le> n" using 2 bytes(2) by auto
      from less.IH[of "n - ?r" "i + ?r" s1] r less.prems False
      obtain b s' k where k: "write_loop socket_write message (i + ?r) (n - ?r) s1 = Some (b, s')"
          "k \<le> n - ?r" "b \<longleftrightarrow> k = n - ?r" "sent s' = sent s1 @ take k (drop (i + ?r) message)"
        by auto
      have "take (?r + k) (drop i message) = take ?r ?bytes @ take k (drop (i + ?r) message)"
        using r k(2) by (simp only: take_add drop_drop take_take min_absorb1 add.commute[of ?r i])
      moreover have "write_loop socket_write message i n s = Some (b, s')"
        using w False k(1) 2(1) by (subst write_loop.simps) auto
      ultimately show ?thesis
        using 2(3) k r by (intro exI[of _ b] exI[of _ s'] conjI exI[of _ "?r + k"]) auto
    qed
  qed
qed

section \<open>Searching\<close>

lemma first_from_none: "\<not> holds_marker delim bytes \<Longrightarrow> first_from bytes delim from = -1"
  by (auto simp: first_from_def holds_marker_def list_ex_iff Let_def filter_empty_conv split: list.split)

lemma search_start_small:
  "search_start_pos 0 2 = 0" "search_start_pos 1 2 = -2" "search_start_pos 2 2 = -1"
  by (simp_all add: search_start_pos_def)

lemma sint_of_small: "k < 2 ^ 63 \<Longrightarrow> sint (of_nat k :: 64 word) = int k"
  by (simp add: signed_of_nat signed_take_bit_int_eq_self)

lemma search_start_large:
  assumes "3 \<le> n" and "n < 2 ^ 62"
  shows "search_start_pos n 2 = int n - 3"
proof -
  have n: "(of_nat n :: 64 word) \<ge> 1"
    using assms by (simp add: word_le_nat_alt unat_of_nat)
  have "(of_nat n :: 64 word) - 2 - 1 = of_nat (n - 3)"
    using assms(1) by (simp add: of_nat_diff)
  moreover have "sint (of_nat (n - 3) :: 64 word) = int (n - 3)"
    using assms by (intro sint_of_small) simp
  ultimately show ?thesis
    using n assms(1) by (simp add: search_start_pos_def)
qed

lemma take_drop_split:
  assumes "take (length y) (drop i t) = y"
  shows "t = take i t @ y @ drop (i + length y) t"
  by (metis append_take_drop_id assms drop_drop add.commute)

lemma marker_only_at_end:
  assumes "\<not> holds_marker CRLF m" and "take (length CRLF) (drop i (m @ CRLF)) = CRLF"
  shows "i = length m"
proof -
  obtain t where t: "t = m @ CRLF" by blast
  define pre post where "pre = take i t" and "post = drop (i + length CRLF) t"
  from take_drop_split[of CRLF i t] assms(2) t have split: "t = pre @ CRLF @ post"
    by (simp only: pre_def post_def)
  have i: "i \<le> length t"
    using arg_cong[OF assms(2), of length] t by (simp add: CRLF_def)
  have "post = []"
  proof (rule ccontr)
    assume "post \<noteq> []"
    then obtain p x where p: "post = p @ [x]" by (metis rev_exhaust)
    have m: "m @ [CHR 0x0D] = pre @ CRLF @ p"
      using split p t by (simp add: CRLF_def)
    then have "p \<noteq> []" by (auto simp: CRLF_def)
    then obtain q y where "p = q @ [y]" by (metis rev_exhaust)
    with m have "m = pre @ CRLF @ q" by (simp add: CRLF_def)
    with assms(1) show False by (auto simp: holds_marker_split)
  qed
  with split t have "pre @ CRLF = m @ CRLF" by simp
  then have "length pre = length m" by simp
  with i show ?thesis by (simp add: pre_def min_absorb2)
qed

lemma filter_eq_upt: "filter (\<lambda>i. i = n) [0..<Suc k] = (if n \<le> k then [n] else [])"
  by (induction k) auto

lemma first_from_end:
  assumes "\<not> holds_marker CRLF m" and "from \<ge> 0"
  shows "first_from (m @ CRLF) CRLF from = (if from \<le> int (length m) then int (length m) else -1)"
proof -
  obtain t where t: "t = m @ CRLF" by blast
  let ?P = "\<lambda>i. from \<le> int i \<and> take (length CRLF) (drop i t) = CRLF"
  have P: "?P = (\<lambda>i. i = length m \<and> from \<le> int (length m))"
    using marker_only_at_end[OF assms(1)] by (auto simp: fun_eq_iff t)
  have "filter ?P [0..<Suc (length t)] = (if from \<le> int (length m) then [length m] else [])"
    unfolding P using filter_eq_upt[of "length m" "length t"] by (cases "from \<le> int (length m)") (simp_all add: t)
  then show ?thesis
    using assms(2) by (simp add: first_from_def t[symmetric])
qed

lemma first_from_negative:
  "from < 0 \<Longrightarrow> first_from bytes delim from = first_from bytes delim (max (from + int (length bytes)) 0)"
  by (simp add: first_from_def Let_def)

section \<open>Collecting\<close>

lemma holds_marker_prefix: "holds_marker marker pre \<Longrightarrow> holds_marker marker (pre @ post)"
  by (auto simp: holds_marker_split) (metis append.assoc)

lemma collect_pending:
  assumes "index_ok index_of" and "\<not> holds_marker CRLF (concat bs)"
  shows "collect index_of CRLF bs Read = \<lparr>input_message = concat bs, listening = True, arrived = []\<rparr>"
  using assms(2)
proof (induction bs rule: rev_induct)
  case Nil
  then show ?case by (simp add: collect_def Read_def)
next
  case (snoc b bs)
  then have "\<not> holds_marker CRLF (concat bs)" "\<not> holds_marker CRLF (concat bs @ b)"
    using holds_marker_prefix[of CRLF "concat bs" b] by auto
  with snoc.IH assms(1) show ?case
    by (simp add: collect_def ready_read_def Let_def index_ok_def first_from_none CRLF_def)
qed

lemma first_from_start:
  assumes "\<not> holds_marker CRLF m" and "n < length m + 2" and "n < 2 ^ 62"
  shows "first_from (m @ CRLF) CRLF (search_start_pos n 2) = (if n = 2 then -1 else int (length m))"
proof -
  consider "n = 0" | "n = 1" | "n = 2" | "3 \<le> n" by linarith
  then show ?thesis
  proof cases
    case 4
    then show ?thesis
      using assms by (simp add: search_start_large first_from_end)
  qed (use assms in \<open>simp_all add: search_start_small[unfolded One_nat_def] search_start_small
        first_from_negative first_from_end, simp_all add: CRLF_def\<close>)
qed

lemma no_marker_before_end:
  assumes "\<not> holds_marker CRLF m" and "pre @ b = m @ CRLF" and "b \<noteq> []"
  shows "\<not> holds_marker CRLF pre"
proof
  assume "holds_marker CRLF pre"
  then obtain x y where "pre = x @ CRLF @ y" by (auto simp: holds_marker_split)
  with assms(2) have split: "m @ CRLF = x @ CRLF @ y @ b" by simp
  then have "take (length CRLF) (drop (length x) (m @ CRLF)) = CRLF" by simp
  from marker_only_at_end[OF assms(1) this] have "length x = length m" .
  with split assms(3) arg_cong[OF split, of length] show False by simp
qed

lemma collect_reply:
  assumes "index_ok index_of" and "\<not> holds_marker CRLF m" and "concat bs @ b = m @ CRLF" and "b \<noteq> []"
    and "length m < 2 ^ 61"
  shows "collect index_of CRLF (bs @ [b]) Read =
     (if length (concat bs) = 2 then \<lparr>input_message = m @ CRLF, listening = True, arrived = []\<rparr>
      else \<lparr>input_message = [], listening = False, arrived = [m]\<rparr>)"
proof -
  let ?n = "length (concat bs)"
  have "?n + length b = length m + 2"
    using arg_cong[OF assms(3), of length] by (simp add: CRLF_def)
  moreover have "0 < length b" using assms(4) by simp
  ultimately have "?n < length m + 2" by linarith
  moreover from this have "?n < 2 ^ 62" using assms(5) by simp
  ultimately have n: "?n < length m + 2" "?n < 2 ^ 62" by blast+
  have pending: "collect index_of CRLF bs Read =
      \<lparr>input_message = concat bs, listening = True, arrived = []\<rparr>"
    using collect_pending assms(1) no_marker_before_end[OF assms(2-4)] by blast
  have "collect index_of CRLF (bs @ [b]) Read =
      ready_read index_of CRLF b (collect index_of CRLF bs Read)"
    by (simp add: collect_def)
  also have "\<dots> = (if ?n = 2 then \<lparr>input_message = m @ CRLF, listening = True, arrived = []\<rparr>
      else \<lparr>input_message = [], listening = False, arrived = [m]\<rparr>)"
  proof -
    have crlf: "CRLF \<noteq> []" "length CRLF = 2" by (simp_all add: CRLF_def)
    with first_from_start[OF assms(2) n] assms(1)
    have "index_of (m @ CRLF) CRLF (search_start_pos ?n (length CRLF)) = (if ?n = 2 then -1 else int (length m))"
      by (simp add: index_ok_def)
    then show ?thesis
      unfolding pending by (simp add: ready_read_def Let_def assms(3))
  qed
  finally show ?thesis .
qed

section \<open>Properties\<close>

text \<open>
  Writing a request ends: with a socket that takes at least one byte or fails in every call, the
  loop returns, the socket has taken a beginning of the request, and success is signalled exactly
  when it has taken all of it.
\<close>

theorem write_request_ends:
  assumes "sink_ok socket_write sent"
  shows "\<exists>ok s' k. Write_request socket_write message s = Some (ok, s') \<and> k \<le> length message \<and>
     (ok \<longleftrightarrow> k = length message) \<and> sent s' = sent s @ take k message"
  using write_loop_delivers[OF assms, of 0 "length message" message s]
  unfolding Write_request_def by auto

definition slow_socket :: "string \<Rightarrow> string \<Rightarrow> int \<times> string" where
  "slow_socket bytes s = (int (min 3 (length bytes)), s @ take 3 bytes)"

lemma sink_ok_slow_socket: "sink_ok slow_socket (\<lambda>s. s)"
  by (auto simp: sink_ok_def slow_socket_def Suc_le_eq min_def)

theorem write_request_ends_witness:
  "\<exists>ok s' k. Write_request slow_socket ''request'' [] = Some (ok, s') \<and> k \<le> length ''request'' \<and>
     (ok \<longleftrightarrow> k = length ''request'') \<and> s' = [] @ take k ''request''"
  by (rule write_request_ends[OF sink_ok_slow_socket])

text \<open>
  C29: A reply whose only end marker is at its end, in blocks of any sizes, is handed on without the
  marker when its last block arrives, unless exactly two bytes have arrived before that block: then
  the search begins behind the marker, nothing is handed on and the client waits for ever.
\<close>

theorem reply_arrives_iff:
  assumes "index_ok index_of" and "\<not> holds_marker CRLF m" and "concat bs @ b = m @ CRLF" and "b \<noteq> []"
    and "length m < 2 ^ 61"
  shows "collect index_of CRLF (bs @ [b]) Read =
     (if length (concat bs) = 2 then \<lparr>input_message = m @ CRLF, listening = True, arrived = []\<rparr>
      else \<lparr>input_message = [], listening = False, arrived = [m]\<rparr>)"
  by (rule collect_reply[OF assms])

theorem reply_arrives_iff_witness:
  "collect first_from CRLF ([''o''] @ [''k'' @ CRLF]) Read =
     (if length (concat [''o'']) = 2 then \<lparr>input_message = ''ok'' @ CRLF, listening = True, arrived = []\<rparr>
      else \<lparr>input_message = [], listening = False, arrived = [''ok'']\<rparr>)"
  by (rule reply_arrives_iff[OF index_ok_first_from]) (simp_all add: holds_marker_def CRLF_def upt_rec)

end
