(* ===== verification/Client_Model.thy ===== *)
theory Client_Model
  imports Client_Connection
begin

text \<open>
  What the three item models of the client share (pc_course_client): the values and indices of Qt's
  model interface, the signals a model emits to its views, the replacement of its rows by the
  received ones (the three branches every \<open>ReceiveRemoteData\<close> has), the reading of a reply
  (\<open>ParseAndGetResponse\<close> in Utils/LuaConf.hpp), and the contract of a model with its views: the
  announced insertions and removals are in range and always add up to the number of rows.
\<close>

section \<open>Values, indices and roles\<close>

datatype qvariant =
    QV_none
  | QV_string string
  | QV_int "32 word"
  | QV_uint "32 word"
  | QV_ulonglong "64 word"
  | QV_double dbl

datatype orientation = Horizontal | Vertical

text \<open>An index is a row and a column, or invalid.\<close>

type_synonym model_index = "(int \<times> int) option"

definition DisplayRole :: int where "DisplayRole = 0"
definition UserRole :: int where "UserRole = 256"

text \<open>\<open>QList::operator[]\<close>, \<open>removeAt\<close>: the index has to be in range, which is asserted.\<close>

definition item_at :: "'i list \<Rightarrow> int \<Rightarrow> 'i outcome" where
  "item_at xs i = (if 0 \<le> i \<and> i < int (length xs) then Value (xs ! nat i) else Abort)"

definition remove_at :: "'i list \<Rightarrow> int \<Rightarrow> 'i list outcome" where
  "remove_at xs i = (if 0 \<le> i \<and> i < int (length xs) then Value (take (nat i) xs @ drop (Suc (nat i)) xs)
     else Abort)"

definition shown :: "('i \<Rightarrow> qvariant) \<Rightarrow> 'i outcome \<Rightarrow> qvariant outcome" where
  "shown f x = (case x of Value i \<Rightarrow> Value (f i) | Throw e \<Rightarrow> Throw e | Abort \<Rightarrow> Abort | Diverge \<Rightarrow> Diverge)"

section \<open>Signals\<close>

text \<open>
  The argument of the signal \<open>Error\<close>: a socket error, its name, or one of the three fixed texts
  (no valid reply, a row that cannot be read, an answer other than \<open>success\<close>).
\<close>

datatype model_error = Socket_error nat | Socket_error_name nat | Bad_response | Unreadable_data | Wrong_data

datatype model_signal =
    Begin_insert int int
  | End_insert
  | Begin_remove int int
  | End_remove
  | Error_signal model_error

text \<open>
  How a view counts: the signals in order, the number of rows it knows, and the announced change
  that has not ended yet. Qt demands that ranges are in range and that every change is ended.
\<close>

fun follow :: "model_signal list \<Rightarrow> int \<Rightarrow> int option" where
  "follow [] n = Some n"
| "follow (Error_signal e # ss) n = follow ss n"
| "follow (Begin_insert a b # End_insert # ss) n =
     (if 0 \<le> a \<and> a \<le> n \<and> a \<le> b then follow ss (n + (b - a + 1)) else None)"
| "follow (Begin_remove a b # End_remove # ss) n =
     (if 0 \<le> a \<and> a \<le> b \<and> b < n then follow ss (n - (b - a + 1)) else None)"
| "follow (s # ss) n = None"

lemma follow_append: "follow ss n = Some k \<Longrightarrow> follow (ss @ ts) n = follow ts k"
  by (induction ss n rule: follow.induct) (auto split: if_splits)

section \<open>Replacing the rows\<close>

text \<open>The last loop of the three models: one assignment per received row.\<close>

definition assign_all :: "'i list \<Rightarrow> 'i list \<Rightarrow> 'i list" where
  "assign_all xs ys = foldl (\<lambda>xs i. xs[i := ys ! i]) xs [0..<length ys]"

definition update_rows :: "'i list \<Rightarrow> 'i list \<Rightarrow> 'i list \<times> model_signal list" where
  "update_rows old new =
     (if length old = length new then (new, [])
      else if length old < length new then
        (new, [Begin_insert (int (length old))
          (int (length old) + int (length new) - int (length old) - 1), End_insert])
      else (assign_all (take (length new) old) new,
        [Begin_remove (int (length new)) (int (length old) - 1), End_remove]))"

text \<open>
  \<open>UpdateModel\<close> of Model.hpp is this text once more, outside of any class: the rows it names, \<open>users\<close> and
  \<open>new_users\<close>, are its arguments here (\<open>old_items\<close> and \<open>new_items\<close>). No file includes it; the three models repeat its body.
\<close>

definition UpdateModel :: "'i list \<Rightarrow> 'i list \<Rightarrow> 'i list \<times> model_signal list" where
  "UpdateModel old_items new_items =
     (if length old_items = length new_items then (new_items, [])
      else if length old_items < length new_items then
        (new_items, [Begin_insert (int (length old_items))
          (int (length old_items) + int (length new_items) - int (length old_items) - 1), End_insert])
      else (foldl (\<lambda>old_items i. old_items[i := new_items ! i]) (take (length new_items) old_items) [0..<length new_items],
        [Begin_remove (int (length new_items)) (int (length old_items) - 1), End_remove]))"

lemma UpdateModel_shared: "UpdateModel = update_rows"
  by (simp add: fun_eq_iff UpdateModel_def update_rows_def assign_all_def)

lemma assign_prefix:
  assumes "length xs = length ys" and "k \<le> length ys"
  shows "foldl (\<lambda>xs i. xs[i := ys ! i]) xs [0..<k] = take k ys @ drop k xs"
  using assms(2)
proof (induction k)
  case (Suc k)
  then have "foldl (\<lambda>xs i. xs[i := ys ! i]) xs [0..<Suc k] = (take k ys @ drop k xs)[k := ys ! k]" by simp
  also have "\<dots> = take k ys @ ys ! k # drop (Suc k) xs"
    using Suc.prems assms(1) by (simp add: list_update_append Cons_nth_drop_Suc[symmetric])
  finally show ?case using Suc.prems by (simp add: take_Suc_conv_app_nth)
qed (simp add: assms)

lemma assign_all_eq: "length xs = length ys \<Longrightarrow> assign_all xs ys = ys"
  by (simp add: assign_all_def assign_prefix)

lemma update_rows_new: "fst (update_rows old new) = new"
  by (simp add: update_rows_def assign_all_eq)

lemma update_rows_follow:
  "follow (snd (update_rows old new)) (int (length old)) = Some (int (length new))"
  by (simp add: update_rows_def)

section \<open>Reading a reply\<close>

text \<open>
  \<open>exec\<close> runs a chunk with a fresh table as its globals and yields that table, whether or not the
  chunk ran to its end: the result of \<open>ExecuteString\<close> is not looked at.
\<close>

definition ParseAndGetResponse :: "(string \<Rightarrow> lua) \<Rightarrow> string \<Rightarrow> (lua \<times> string) option" where
  "ParseAndGetResponse exec script =
     (let fenv = exec script in
      case get_raw_string fenv ''response'' of
        None \<Rightarrow> None
      | Some response \<Rightarrow> Some (fenv, response))"

text \<open>The loop over the received rows; a value that is missing or of another type ends it.\<close>

definition read_rows :: "(lua \<Rightarrow> 'i option) \<Rightarrow> lua \<Rightarrow> 'i list option" where
  "read_rows read_item ref = those (map (\<lambda>i. read_item (get_raw_at ref i)) [1..<Suc (get_length ref)])"

lemma read_rows_LTable: "read_rows f (LTable fs arr) = those (map f arr)"
proof -
  have "map (\<lambda>i. get_raw_at (LTable fs arr) i) [1..<Suc (length arr)] = arr"
    by (rule nth_equalityI) (simp_all add: get_raw_at_def del: upt_Suc)
  then have "map (\<lambda>i. f (get_raw_at (LTable fs arr) i)) [1..<Suc (length arr)] = map f arr"
    by (metis (no_types, lifting) comp_apply map_eq_conv map_map)
  then show ?thesis
    by (simp add: read_rows_def get_length_def)
qed

section \<open>The contract of a model with its views\<close>

text \<open>The rows and the signals before and after: what was emitted announces the change of the rows.\<close>

definition announces ::
  "'i list \<Rightarrow> model_signal list \<Rightarrow> 'i list \<Rightarrow> model_signal list \<Rightarrow> bool" where
  "announces xs ss xs' ss' \<longleftrightarrow>
     (\<exists>new. ss' = ss @ new \<and> follow new (int (length xs)) = Some (int (length xs')))"

lemma announcesI:
  "follow new (int (length xs)) = Some (int (length xs')) \<Longrightarrow> announces xs ss xs' (ss @ new)"
  by (auto simp: announces_def)

lemma announces_same [simp]: "announces xs ss xs ss"
  using announcesI[of "[]" xs xs ss] by simp

lemma announces_error [simp]: "announces xs ss xs (ss @ [Error_signal e])"
  by (rule announcesI) simp

lemma announces_update [simp]:
  "announces xs ss (fst (update_rows xs new)) (ss @ snd (update_rows xs new))"
  by (rule announcesI) (simp only: update_rows_follow update_rows_new)

lemma announces_push [simp]:
  "announces xs ss (xs @ [x]) (ss @ [Begin_insert (int (length xs)) (int (length xs)), End_insert])"
  by (rule announcesI) simp

lemma announces_remove_at:
  "remove_at xs ind = Value ys \<Longrightarrow> announces xs ss ys (ss @ [Begin_remove ind ind, End_remove])"
  by (rule announcesI) (auto simp: remove_at_def split: if_splits)

locale row_model =
  fixes step :: "'m \<Rightarrow> 'm \<Rightarrow> bool"
    and row_list :: "'m \<Rightarrow> 'i list"
    and signals :: "'m \<Rightarrow> model_signal list"
  assumes step_announced: "step m m' \<Longrightarrow> announces (row_list m) (signals m) (row_list m') (signals m')"
begin

lemma steps_announced:
  assumes "step\<^sup>*\<^sup>* m m'" and "follow (signals m) 0 = Some (int (length (row_list m)))"
  shows "follow (signals m') 0 = Some (int (length (row_list m')))"
  using assms
proof (induction rule: rtranclp_induct)
  case (step y z)
  then obtain new where "signals z = signals y @ new"
      "follow new (int (length (row_list y))) = Some (int (length (row_list z)))"
    using step_announced unfolding announces_def by blast
  with step.IH step.prems show ?case by (simp add: follow_append)
qed

end

end
