(* ===== verification/Users_Model.thy ===== *)
theory Users_Model
  imports Client_Model
begin

text \<open>
  The administrator's table of accounts (pc_course_client/Admin/Models/UsersModel.cpp and .h): the
  rows, the headers, the ranks, the two queries that change the table on the server, and the
  slots that run when a reply or an error arrives. A request in flight is kept with its text and
  the slot that waits for its reply, so that replies may arrive in any order.
\<close>

section \<open>The state\<close>

record user_item =
  ui_login :: string
  ui_sname :: string
  ui_name :: string
  ui_pname :: string
  ui_rank :: string

datatype users_slot = Users_received | User_added user_item | User_removed int

record users_model =
  um_users :: "user_item list"
  um_ranks :: "string \<rightharpoonup> 32 word"
  um_headers :: "string list"
  um_signals :: "model_signal list"
  um_pending :: "(string \<times> users_slot) list"

definition UsersModel :: users_model where
  "UsersModel = \<lparr>um_users = [], um_ranks = Map.empty, um_headers = replicate 5 [], um_signals = [],
     um_pending = []\<rparr>"

definition SetRanks :: "(string \<rightharpoonup> 32 word) \<Rightarrow> users_model \<Rightarrow> users_model" where
  "SetRanks rs m = m\<lparr>um_ranks := rs\<rparr>"

definition users_emit :: "model_signal list \<Rightarrow> users_model \<Rightarrow> users_model" where
  "users_emit ss m = m\<lparr>um_signals := um_signals m @ ss\<rparr>"

section \<open>What the views read\<close>

definition users_rowCount :: "users_model \<Rightarrow> nat" where
  "users_rowCount m = length (um_users m)"

definition users_columnCount :: "users_model \<Rightarrow> nat" where
  "users_columnCount m = length (um_headers m)"

definition users_data :: "users_model \<Rightarrow> model_index \<Rightarrow> int \<Rightarrow> qvariant outcome" where
  "users_data m index role =
     (case index of None \<Rightarrow> Value QV_none
      | Some (row, column) \<Rightarrow>
          if role \<noteq> DisplayRole then Value QV_none
          else if column = 0 then shown (\<lambda>u. QV_string (ui_login u)) (item_at (um_users m) row)
          else if column = 2 then shown (\<lambda>u. QV_string (ui_name u)) (item_at (um_users m) row)
          else if column = 1 then shown (\<lambda>u. QV_string (ui_sname u)) (item_at (um_users m) row)
          else if column = 3 then shown (\<lambda>u. QV_string (ui_pname u)) (item_at (um_users m) row)
          else if column = 4 then shown (\<lambda>u. QV_string (ui_rank u)) (item_at (um_users m) row)
          else Value QV_none)"

definition users_headerData :: "users_model \<Rightarrow> int \<Rightarrow> orientation \<Rightarrow> int \<Rightarrow> qvariant" where
  "users_headerData m section_nr orient role =
     (if role = DisplayRole \<and> orient = Horizontal
      then (if 0 \<le> section_nr \<and> section_nr \<le> 4 then QV_string (um_headers m ! nat section_nr) else QV_none)
      else QV_none)"

definition users_setHeaderData ::
  "int \<Rightarrow> orientation \<Rightarrow> string \<Rightarrow> int \<Rightarrow> users_model \<Rightarrow> bool \<times> users_model" where
  "users_setHeaderData section_nr orient v role m =
     (if orient = Horizontal \<and> role = DisplayRole \<and> 0 \<le> section_nr \<and> section_nr \<le> 4
      then (True, m\<lparr>um_headers := (um_headers m)[nat section_nr := v]\<rparr>)
      else (False, m))"

section \<open>Receiving the accounts\<close>

definition read_user_item :: "lua \<Rightarrow> user_item option" where
  "read_user_item usr =
     (case (get_raw_string usr ''login'', get_raw_string usr ''sname'', get_raw_string usr ''name'',
         get_raw_string usr ''pname'', get_raw_string usr ''rank'') of
        (Some login, Some sname, Some name, Some pname, Some rank) \<Rightarrow>
          Some \<lparr>ui_login = login, ui_sname = sname, ui_name = name, ui_pname = pname, ui_rank = rank\<rparr>
      | _ \<Rightarrow> None)"

definition users_received :: "(string \<Rightarrow> lua) \<Rightarrow> string \<Rightarrow> users_model \<Rightarrow> users_model" where
  "users_received exec message m =
     (case ParseAndGetResponse exec message of
        None \<Rightarrow> users_emit [Error_signal Bad_response] m
      | Some (fenv, response) \<Rightarrow>
          if response = ''success'' then
            (case read_rows read_user_item (get_raw_ref fenv ''users'') of
               None \<Rightarrow> users_emit [Error_signal Unreadable_data] m
             | Some new_users \<Rightarrow>
                 (case update_rows (um_users m) new_users of (us, ss) \<Rightarrow>
                    users_emit ss (m\<lparr>um_users := us\<rparr>)))
          else users_emit [Error_signal Wrong_data] m)"

definition users_ReceiveRemoteData :: "q_arg \<Rightarrow> user_login \<Rightarrow> users_model \<Rightarrow> users_model" where
  "users_ReceiveRemoteData arg usr m =
     m\<lparr>um_pending := um_pending m @ [(GetUsers_request arg usr, Users_received)]\<rparr>"

section \<open>Adding and removing\<close>

text \<open>
  \<open>ranks[usr_item.rank]\<close> on a \<open>QMap\<close> that is not constant: an unknown name is entered with id 0.
  \<open>hash\<close> is \<open>User::HashPasswordAsString\<close>.
\<close>

definition rank_id :: "string \<Rightarrow> users_model \<Rightarrow> 32 word \<times> users_model" where
  "rank_id name m = (case um_ranks m name of
      Some i \<Rightarrow> (i, m)
    | None \<Rightarrow> (0, m\<lparr>um_ranks := (um_ranks m)(name \<mapsto> 0)\<rparr>))"

definition users_Insert ::
  "q_arg \<Rightarrow> (string \<Rightarrow> string) \<Rightarrow> user_login \<Rightarrow> user_item \<Rightarrow> string \<Rightarrow> users_model \<Rightarrow> users_model" where
  "users_Insert arg hash usr item password m =
     (case rank_id (ui_rank item) m of (i, m) \<Rightarrow>
        m\<lparr>um_pending := um_pending m @ [(CreateUser_request arg usr (ui_login item) (hash password)
            (ui_sname item) (ui_name item) (ui_pname item) i, User_added item)]\<rparr>)"

definition user_added :: "(string \<Rightarrow> lua) \<Rightarrow> user_item \<Rightarrow> string \<Rightarrow> users_model \<Rightarrow> users_model" where
  "user_added exec usr_item message m =
     (case ParseAndGetResponse exec message of
        None \<Rightarrow> users_emit [Error_signal Bad_response] m
      | Some (fenv, response) \<Rightarrow>
          if response \<noteq> ''success'' then users_emit [Error_signal Wrong_data] m
          else users_emit [Begin_insert (int (length (um_users m))) (int (length (um_users m))), End_insert]
            (m\<lparr>um_users := um_users m @ [usr_item]\<rparr>))"

definition users_Remove :: "q_arg \<Rightarrow> user_login \<Rightarrow> model_index \<Rightarrow> users_model \<Rightarrow> users_model" where
  "users_Remove arg usr index m =
     (case index of None \<Rightarrow> m
      | Some (row, column) \<Rightarrow>
          if row \<ge> int (length (um_users m)) \<or> row < 0 then m
          else m\<lparr>um_pending := um_pending m @
            [(DeleteUser_request arg usr (ui_login (um_users m ! nat row)), User_removed row)]\<rparr>)"

definition user_removed :: "(string \<Rightarrow> lua) \<Rightarrow> int \<Rightarrow> string \<Rightarrow> users_model \<Rightarrow> users_model outcome" where
  "user_removed exec ind message m =
     (case ParseAndGetResponse exec message of
        None \<Rightarrow> Value (users_emit [Error_signal Bad_response] m)
      | Some (fenv, response) \<Rightarrow>
          if response \<noteq> ''success'' then Value (users_emit [Error_signal Wrong_data] m)
          else (case remove_at (um_users m) ind of
              Value us \<Rightarrow> Value (users_emit [Begin_remove ind ind, End_remove] (m\<lparr>um_users := us\<rparr>))
            | _ \<Rightarrow> Abort))"

section \<open>Replies and errors\<close>

text \<open>The slot of the request that has been answered, and of one whose connection has failed.\<close>

definition users_slot_run ::
  "(string \<Rightarrow> lua) \<Rightarrow> users_slot \<Rightarrow> string \<Rightarrow> users_model \<Rightarrow> users_model outcome" where
  "users_slot_run exec slot message m = (case slot of
      Users_received \<Rightarrow> Value (users_received exec message m)
    | User_added item \<Rightarrow> Value (user_added exec item message m)
    | User_removed ind \<Rightarrow> user_removed exec ind message m)"

definition users_error :: "users_slot \<Rightarrow> nat \<Rightarrow> users_model \<Rightarrow> users_model" where
  "users_error slot e m = (case slot of
      Users_received \<Rightarrow> users_emit [Error_signal (Socket_error e)] m
    | _ \<Rightarrow> users_emit [Error_signal (Socket_error_name e)] m)"

definition drop_pending :: "nat \<Rightarrow> users_model \<Rightarrow> users_model" where
  "drop_pending k m = m\<lparr>um_pending := take k (um_pending m) @ drop (Suc k) (um_pending m)\<rparr>"

text \<open>What can happen to the model: a call of the panel, a reply, a failed connection.\<close>

definition users_answer :: "(string \<Rightarrow> lua) \<Rightarrow> string \<Rightarrow> nat \<Rightarrow> users_model \<Rightarrow> users_model outcome" where
  "users_answer exec message k m = users_slot_run exec (snd (um_pending m ! k)) message (drop_pending k m)"

inductive users_step ::
  "(string \<Rightarrow> lua) \<Rightarrow> q_arg \<Rightarrow> (string \<Rightarrow> string) \<Rightarrow> user_login \<Rightarrow> users_model \<Rightarrow> users_model \<Rightarrow> bool"
  for exec arg hash usr where
  receive: "users_step exec arg hash usr m (users_ReceiveRemoteData arg usr m)"
| insert: "users_step exec arg hash usr m (users_Insert arg hash usr item password m)"
| remove: "users_step exec arg hash usr m (users_Remove arg usr index m)"
| set_ranks: "users_step exec arg hash usr m (SetRanks rs m)"
| set_header: "users_step exec arg hash usr m (snd (users_setHeaderData section_nr orient v role m))"
| reply: "k < length (um_pending m) \<Longrightarrow> users_answer exec message k m = Value m' \<Longrightarrow>
     users_step exec arg hash usr m m'"
| failed: "k < length (um_pending m) \<Longrightarrow>
     users_step exec arg hash usr m (users_error (snd (um_pending m ! k)) e (drop_pending k m))"

section \<open>The contract with the views\<close>

lemma users_emit_simps [simp]:
  "um_users (users_emit ss m) = um_users m" "um_signals (users_emit ss m) = um_signals m @ ss"
  "um_headers (users_emit ss m) = um_headers m" "um_pending (users_emit ss m) = um_pending m"
  by (simp_all add: users_emit_def)

lemma drop_pending_simps [simp]:
  "um_users (drop_pending k m) = um_users m" "um_signals (drop_pending k m) = um_signals m"
  "um_headers (drop_pending k m) = um_headers m"
  by (simp_all add: drop_pending_def)

abbreviation users_announced :: "users_model \<Rightarrow> users_model \<Rightarrow> bool" where
  "users_announced m m' \<equiv> announces (um_users m) (um_signals m) (um_users m') (um_signals m')"

lemma users_announced_slot:
  "users_slot_run exec slot message m = Value m' \<Longrightarrow> users_announced m m'"
  by (auto simp: users_slot_run_def users_received_def user_added_def user_removed_def case_prod_beta
      announces_remove_at split: users_slot.splits option.splits if_splits outcome.splits)

lemma users_step_announced: "users_step exec arg hash usr m m' \<Longrightarrow> users_announced m m'"
proof (induction rule: users_step.induct)
  case (reply k m message m')
  from users_announced_slot[OF reply(2)[unfolded users_answer_def]] show ?case by simp
qed (auto simp: users_ReceiveRemoteData_def users_Insert_def rank_id_def users_Remove_def SetRanks_def
    users_setHeaderData_def users_error_def split: option.split users_slot.split)

interpretation users_view: row_model "users_step exec arg hash usr" um_users um_signals
  by unfold_locales (rule users_step_announced)

section \<open>Properties\<close>

lemma UsersModel_announced: "follow (um_signals UsersModel) 0 = Some (int (length (um_users UsersModel)))"
  by (simp add: UsersModel_def)

text \<open>
  C30: Whatever the administrator does and in whatever order replies and errors arrive, the changes
  announced to the views are in range and add up to the number of rows of the table.
\<close>

theorem users_view_in_step:
  assumes "(users_step exec arg hash usr)\<^sup>*\<^sup>* UsersModel m"
  shows "follow (um_signals m) 0 = Some (int (users_rowCount m))"
  unfolding users_rowCount_def by (rule users_view.steps_announced[OF assms UsersModel_announced])

definition echo :: "string \<Rightarrow> lua" where
  "echo message = LTable [(''response'', LString message)] []"

lemma parse_echo [simp]: "ParseAndGetResponse echo message = Some (echo message, message)"
  by (simp add: ParseAndGetResponse_def echo_def get_raw_string_def get_raw_ref_def)

definition sample_account :: user_item where
  "sample_account = \<lparr>ui_login = ''u'', ui_sname = ''s'', ui_name = ''n'', ui_pname = ''p'', ui_rank = ''Admin''\<rparr>"

theorem users_view_in_step_witness:
  "follow (um_signals (user_added echo sample_account ''success''
       (drop_pending 0 (users_Insert qarg (\<lambda>p. p) sample_user sample_account ''pwd'' UsersModel)))) 0 =
     Some (int (users_rowCount (user_added echo sample_account ''success''
       (drop_pending 0 (users_Insert qarg (\<lambda>p. p) sample_user sample_account ''pwd'' UsersModel)))))"
proof (rule users_view_in_step)
  let ?m = "users_Insert qarg (\<lambda>p. p) sample_user sample_account ''pwd'' UsersModel"
  let ?step = "users_step echo qarg (\<lambda>p. p) sample_user"
  have "?step UsersModel ?m" by (rule users_step.insert)
  moreover have "?step ?m (user_added echo sample_account ''success'' (drop_pending 0 ?m))"
    by (rule users_step.reply[of 0 _ _ "''success''"])
      (simp_all add: users_answer_def users_slot_run_def users_Insert_def UsersModel_def rank_id_def)
  ultimately show "?step\<^sup>*\<^sup>* UsersModel (user_added echo sample_account ''success'' (drop_pending 0 ?m))"
    by (rule converse_rtranclp_into_rtranclp[OF _ r_into_rtranclp])
qed

text \<open>
  A slot that removes a row keeps the row's number, not the account. When the same row is removed
  twice before the first reply arrives, both requests name the same account, but the second
  success removes the next row as well, and asserts when there is none.
\<close>

theorem removed_twice_wrong_row:
  assumes "um_pending m = []" and "row < length (um_users m)"
    and "\<exists>fenv. ParseAndGetResponse exec message = Some (fenv, ''success'')"
    and "m2 = users_Remove arg usr (Some (int row, c)) (users_Remove arg usr (Some (int row, c)) m)"
  shows "fst (um_pending m2 ! 0) = fst (um_pending m2 ! 1) \<and>
     (\<exists>m3. users_answer exec message 0 m2 = Value m3 \<and>
        um_users m3 = take row (um_users m) @ drop (row + 1) (um_users m) \<and>
        (case users_answer exec message 0 m3 of
           Value m4 \<Rightarrow> row + 1 < length (um_users m) \<and>
             um_users m4 = take row (um_users m) @ drop (row + 2) (um_users m)
         | r \<Rightarrow> r = Abort \<and> row + 1 = length (um_users m)))"
  using assms
  by (auto simp: users_Remove_def users_answer_def users_slot_run_def user_removed_def remove_at_def
      drop_pending_def users_emit_def min_def)

definition two_accounts :: users_model where
  "two_accounts = UsersModel\<lparr>um_users := [sample_account, sample_account\<lparr>ui_login := ''v''\<rparr>]\<rparr>"

theorem removed_twice_wrong_row_witness:
  "let m2 = users_Remove qarg sample_user (Some (0, 0)) (users_Remove qarg sample_user (Some (0, 0)) two_accounts)
   in \<exists>m3. users_answer echo ''success'' 0 m2 = Value m3 \<and>
        um_users m3 = [sample_account\<lparr>ui_login := ''v''\<rparr>]"
  using removed_twice_wrong_row[of two_accounts 0 echo "''success''" _ qarg sample_user 0]
  by (auto simp: two_accounts_def UsersModel_def)

end
