(* ===== verification/Customers_Model.thy ===== *)
theory Customers_Model
  imports Users_Model
begin

text \<open>
  The employee's table of customers (pc_course_client/Employee/Models/CustomersModel.cpp and .h), in
  the shape of the table of accounts: rows, headers, requests in flight and their slots.
\<close>

section \<open>The state\<close>

record customer_item =
  ci_tel_number :: "64 word"
  ci_sname :: string
  ci_name :: string
  ci_pname :: string

datatype customers_slot = Customers_received | Customer_added customer_item | Customer_removed int

record customers_model =
  cm_customers :: "customer_item list"
  cm_headers :: "string list"
  cm_signals :: "model_signal list"
  cm_pending :: "(string \<times> customers_slot) list"

definition CustomersModel :: customers_model where
  "CustomersModel = \<lparr>cm_customers = [], cm_headers = replicate 4 [], cm_signals = [], cm_pending = []\<rparr>"

definition customers_emit :: "model_signal list \<Rightarrow> customers_model \<Rightarrow> customers_model" where
  "customers_emit ss m = m\<lparr>cm_signals := cm_signals m @ ss\<rparr>"

section \<open>What the views read\<close>

definition customers_rowCount :: "customers_model \<Rightarrow> nat" where
  "customers_rowCount m = length (cm_customers m)"

definition customers_columnCount :: "customers_model \<Rightarrow> nat" where
  "customers_columnCount m = length (cm_headers m)"

definition customers_data :: "customers_model \<Rightarrow> model_index \<Rightarrow> int \<Rightarrow> qvariant outcome" where
  "customers_data m index role =
     (case index of None \<Rightarrow> Value QV_none
      | Some (row, column) \<Rightarrow>
          if role \<noteq> DisplayRole then Value QV_none
          else if column = 0 then shown (\<lambda>c. QV_ulonglong (ci_tel_number c)) (item_at (cm_customers m) row)
          else if column = 2 then shown (\<lambda>c. QV_string (ci_name c)) (item_at (cm_customers m) row)
          else if column = 1 then shown (\<lambda>c. QV_string (ci_sname c)) (item_at (cm_customers m) row)
          else if column = 3 then shown (\<lambda>c. QV_string (ci_pname c)) (item_at (cm_customers m) row)
          else Value QV_none)"

definition customers_headerData :: "customers_model \<Rightarrow> int \<Rightarrow> orientation \<Rightarrow> int \<Rightarrow> qvariant" where
  "customers_headerData m section_nr orient role =
     (if role = DisplayRole \<and> orient = Horizontal
      then (if 0 \<le> section_nr \<and> section_nr \<le> 3 then QV_string (cm_headers m ! nat section_nr) else QV_none)
      else QV_none)"

definition customers_setHeaderData ::
  "int \<Rightarrow> orientation \<Rightarrow> string \<Rightarrow> int \<Rightarrow> customers_model \<Rightarrow> bool \<times> customers_model" where
  "customers_setHeaderData section_nr orient v role m =
     (if orient = Horizontal \<and> role = DisplayRole \<and> 0 \<le> section_nr \<and> section_nr \<le> 3
      then (True, m\<lparr>cm_headers := (cm_headers m)[nat section_nr := v]\<rparr>)
      else (False, m))"

section \<open>Receiving the customers\<close>

text \<open>The signed integer of the VM is stored in the unsigned \<open>tel_number\<close>.\<close>

definition read_customer_item :: "lua \<Rightarrow> customer_item option" where
  "read_customer_item usr =
     (case (get_raw_int usr ''telephone'', get_raw_string usr ''sname'', get_raw_string usr ''name'',
         get_raw_string usr ''pname'') of
        (Some tel, Some sname, Some name, Some pname) \<Rightarrow>
          Some \<lparr>ci_tel_number = tel, ci_sname = sname, ci_name = name, ci_pname = pname\<rparr>
      | _ \<Rightarrow> None)"

definition customers_received :: "(string \<Rightarrow> lua) \<Rightarrow> string \<Rightarrow> customers_model \<Rightarrow> customers_model" where
  "customers_received exec message m =
     (case ParseAndGetResponse exec message of
        None \<Rightarrow> customers_emit [Error_signal Bad_response] m
      | Some (fenv, response) \<Rightarrow>
          if response = ''success'' then
            (case read_rows read_customer_item (get_raw_ref fenv ''customers'') of
               None \<Rightarrow> customers_emit [Error_signal Unreadable_data] m
             | Some new_customers \<Rightarrow>
                 (case update_rows (cm_customers m) new_customers of (cs, ss) \<Rightarrow>
                    customers_emit ss (m\<lparr>cm_customers := cs\<rparr>)))
          else customers_emit [Error_signal Wrong_data] m)"

definition customers_ReceiveRemoteData :: "q_arg \<Rightarrow> user_login \<Rightarrow> customers_model \<Rightarrow> customers_model" where
  "customers_ReceiveRemoteData arg usr m =
     m\<lparr>cm_pending := cm_pending m @ [(GetCustomers_request arg usr, Customers_received)]\<rparr>"

section \<open>Adding and removing\<close>

definition customers_Insert :: "q_arg \<Rightarrow> user_login \<Rightarrow> customer_item \<Rightarrow> customers_model \<Rightarrow> customers_model" where
  "customers_Insert arg usr item m =
     m\<lparr>cm_pending := cm_pending m @ [(CreateCustomer_request arg usr (ci_tel_number item)
         (ci_sname item) (ci_name item) (ci_pname item), Customer_added item)]\<rparr>"

definition customer_added ::
  "(string \<Rightarrow> lua) \<Rightarrow> customer_item \<Rightarrow> string \<Rightarrow> customers_model \<Rightarrow> customers_model" where
  "customer_added exec item message m =
     (case ParseAndGetResponse exec message of
        None \<Rightarrow> customers_emit [Error_signal Bad_response] m
      | Some (fenv, response) \<Rightarrow>
          if response \<noteq> ''success'' then customers_emit [Error_signal Wrong_data] m
          else customers_emit
            [Begin_insert (int (length (cm_customers m))) (int (length (cm_customers m))), End_insert]
            (m\<lparr>cm_customers := cm_customers m @ [item]\<rparr>))"

definition customers_Remove :: "q_arg \<Rightarrow> user_login \<Rightarrow> model_index \<Rightarrow> customers_model \<Rightarrow> customers_model" where
  "customers_Remove arg usr index m =
     (case index of None \<Rightarrow> m
      | Some (row, column) \<Rightarrow>
          if row \<ge> int (length (cm_customers m)) \<or> row < 0 then m
          else m\<lparr>cm_pending := cm_pending m @
            [(DeleteCustomer_request arg usr (ci_tel_number (cm_customers m ! nat row)),
              Customer_removed row)]\<rparr>)"

definition customer_removed ::
  "(string \<Rightarrow> lua) \<Rightarrow> int \<Rightarrow> string \<Rightarrow> customers_model \<Rightarrow> customers_model outcome" where
  "customer_removed exec ind message m =
     (case ParseAndGetResponse exec message of
        None \<Rightarrow> Value (customers_emit [Error_signal Bad_response] m)
      | Some (fenv, response) \<Rightarrow>
          if response \<noteq> ''success'' then Value (customers_emit [Error_signal Wrong_data] m)
          else (case remove_at (cm_customers m) ind of
              Value cs \<Rightarrow> Value (customers_emit [Begin_remove ind ind, End_remove] (m\<lparr>cm_customers := cs\<rparr>))
            | _ \<Rightarrow> Abort))"

section \<open>Replies and errors\<close>

definition customers_slot_run ::
  "(string \<Rightarrow> lua) \<Rightarrow> customers_slot \<Rightarrow> string \<Rightarrow> customers_model \<Rightarrow> customers_model outcome" where
  "customers_slot_run exec slot message m = (case slot of
      Customers_received \<Rightarrow> Value (customers_received exec message m)
    | Customer_added item \<Rightarrow> Value (customer_added exec item message m)
    | Customer_removed ind \<Rightarrow> customer_removed exec ind message m)"

definition customers_error :: "customers_slot \<Rightarrow> nat \<Rightarrow> customers_model \<Rightarrow> customers_model" where
  "customers_error slot e m = (case slot of
      Customers_received \<Rightarrow> customers_emit [Error_signal (Socket_error e)] m
    | _ \<Rightarrow> customers_emit [Error_signal (Socket_error_name e)] m)"

definition customers_drop_pending :: "nat \<Rightarrow> customers_model \<Rightarrow> customers_model" where
  "customers_drop_pending k m = m\<lparr>cm_pending := take k (cm_pending m) @ drop (Suc k) (cm_pending m)\<rparr>"

definition customers_answer ::
  "(string \<Rightarrow> lua) \<Rightarrow> string \<Rightarrow> nat \<Rightarrow> customers_model \<Rightarrow> customers_model outcome" where
  "customers_answer exec message k m =
     customers_slot_run exec (snd (cm_pending m ! k)) message (customers_drop_pending k m)"

inductive customers_step ::
  "(string \<Rightarrow> lua) \<Rightarrow> q_arg \<Rightarrow> user_login \<Rightarrow> customers_model \<Rightarrow> customers_model \<Rightarrow> bool"
  for exec arg usr where
  receive: "customers_step exec arg usr m (customers_ReceiveRemoteData arg usr m)"
| insert: "customers_step exec arg usr m (customers_Insert arg usr item m)"
| remove: "customers_step exec arg usr m (customers_Remove arg usr index m)"
| set_header: "customers_step exec arg usr m (snd (customers_setHeaderData section_nr orient v role m))"
| reply: "k < length (cm_pending m) \<Longrightarrow> customers_answer exec message k m = Value m' \<Longrightarrow>
     customers_step exec arg usr m m'"
| failed: "k < length (cm_pending m) \<Longrightarrow>
     customers_step exec arg usr m
       (customers_error (snd (cm_pending m ! k)) e (customers_drop_pending k m))"

section \<open>The contract with the views\<close>

lemma customers_emit_simps [simp]:
  "cm_customers (customers_emit ss m) = cm_customers m"
  "cm_signals (customers_emit ss m) = cm_signals m @ ss"
  by (simp_all add: customers_emit_def)

lemma customers_drop_pending_simps [simp]:
  "cm_customers (customers_drop_pending k m) = cm_customers m"
  "cm_signals (customers_drop_pending k m) = cm_signals m"
  by (simp_all add: customers_drop_pending_def)

abbreviation customers_announced :: "customers_model \<Rightarrow> customers_model \<Rightarrow> bool" where
  "customers_announced m m' \<equiv>
     announces (cm_customers m) (cm_signals m) (cm_customers m') (cm_signals m')"

lemma customers_announced_slot:
  "customers_slot_run exec slot message m = Value m' \<Longrightarrow> customers_announced m m'"
  by (auto simp: customers_slot_run_def customers_received_def customer_added_def customer_removed_def
      case_prod_beta announces_remove_at
      split: customers_slot.splits option.splits if_splits outcome.splits)

lemma customers_step_announced: "customers_step exec arg usr m m' \<Longrightarrow> customers_announced m m'"
proof (induction rule: customers_step.induct)
  case (reply k m message m')
  from customers_announced_slot[OF reply(2)[unfolded customers_answer_def]] show ?case by simp
qed (auto simp: customers_ReceiveRemoteData_def customers_Insert_def customers_Remove_def
    customers_setHeaderData_def customers_error_def split: option.split customers_slot.split)

interpretation customers_view: row_model "customers_step exec arg usr" cm_customers cm_signals
  by unfold_locales (rule customers_step_announced)

section \<open>Properties\<close>

lemma CustomersModel_announced:
  "follow (cm_signals CustomersModel) 0 = Some (int (length (cm_customers CustomersModel)))"
  by (simp add: CustomersModel_def)

text \<open>
  The table of customers keeps its views in step as well: every announced change is in range,
  and together they give the number of rows.
\<close>

theorem customers_view_in_step:
  assumes "(customers_step exec arg usr)\<^sup>*\<^sup>* CustomersModel m"
  shows "follow (cm_signals m) 0 = Some (int (customers_rowCount m))"
  unfolding customers_rowCount_def
  by (rule customers_view.steps_announced[OF assms CustomersModel_announced])

definition sample_customer :: customer_item where
  "sample_customer = \<lparr>ci_tel_number = 123, ci_sname = ''s'', ci_name = ''n'', ci_pname = ''p''\<rparr>"

theorem customers_view_in_step_witness:
  "let m = customers_Insert qarg sample_user sample_customer CustomersModel;
       m' = customer_added echo sample_customer ''success'' (customers_drop_pending 0 m)
   in cm_customers m' = [sample_customer] \<and> follow (cm_signals m') 0 = Some (int (customers_rowCount m'))"
proof -
  let ?m = "customers_Insert qarg sample_user sample_customer CustomersModel"
  let ?m' = "customer_added echo sample_customer ''success'' (customers_drop_pending 0 ?m)"
  let ?step = "customers_step echo qarg sample_user"
  have "?step CustomersModel ?m" by (rule customers_step.insert)
  moreover have "?step ?m ?m'"
    by (rule customers_step.reply[of 0 _ _ "''success''"])
      (simp_all add: customers_answer_def customers_slot_run_def customers_Insert_def CustomersModel_def)
  ultimately have "?step\<^sup>*\<^sup>* CustomersModel ?m'"
    by (rule converse_rtranclp_into_rtranclp[OF _ r_into_rtranclp])
  from customers_view_in_step[OF this] show ?thesis
    by (simp add: Let_def customer_added_def customers_Insert_def CustomersModel_def)
qed

text \<open>
  A refresh with as many rows as the table has replaces them without telling the views: no signal
  is emitted, whatever the rows are; with another number of rows they are replaced as well.
\<close>

theorem customers_refresh:
  assumes "ParseAndGetResponse exec message = Some (fenv, ''success'')"
    and "read_rows read_customer_item (get_raw_ref fenv ''customers'') = Some new"
  shows "cm_customers (customers_received exec message m) = new \<and>
     (length new = length (cm_customers m) \<longrightarrow>
        cm_signals (customers_received exec message m) = cm_signals m)"
  using assms update_rows_new[of "cm_customers m" new]
  by (auto simp: customers_received_def case_prod_beta update_rows_def)

definition customer_table :: "customer_item \<Rightarrow> lua" where
  "customer_table c = LTable [(''telephone'', LInt (ci_tel_number c)), (''sname'', LString (ci_sname c)),
     (''name'', LString (ci_name c)), (''pname'', LString (ci_pname c))] []"

theorem customers_refresh_witness:
  "let exec = (\<lambda>message. LTable [(''response'', LString ''success''),
       (''customers'', LTable [] [customer_table sample_customer])] []);
       m = CustomersModel\<lparr>cm_customers := [sample_customer\<lparr>ci_name := ''old''\<rparr>]\<rparr>
   in cm_customers (customers_received exec [] m) = [sample_customer] \<and>
      cm_signals (customers_received exec [] m) = []"
proof -
  let ?exec = "\<lambda>message. LTable [(''response'', LString ''success''),
       (''customers'', LTable [] [customer_table sample_customer])] []"
  let ?m = "CustomersModel\<lparr>cm_customers := [sample_customer\<lparr>ci_name := ''old''\<rparr>]\<rparr>"
  have "ParseAndGetResponse ?exec [] = Some (?exec [], ''success'')"
    by (simp add: ParseAndGetResponse_def get_raw_string_def get_raw_ref_def)
  moreover have "read_rows read_customer_item (get_raw_ref (?exec []) ''customers'') = Some [sample_customer]"
    by (simp add: get_raw_ref_def read_rows_LTable read_customer_item_def customer_table_def
        get_raw_int_def get_raw_string_def sample_customer_def)
  ultimately show ?thesis
    using customers_refresh[of ?exec "[]" "?exec []" "[sample_customer]" ?m]
    by (simp add: Let_def CustomersModel_def)
qed

end
