(* ===== verification/Items_Model.thy ===== *)
theory Items_Model
  imports Customers_Model
begin

text \<open>
  The employee's list of items (pc_course_client/Employee/Models/ItemsModel.cpp and .h): a list model
  that shows its items through roles, with a refresh that makes one row per received item but does
  not read the items. What a default-initialised \<open>ItemItem\<close> holds in its numbers is not
  determined: it is the parameter \<open>junk\<close> (id, cost, count of the n-th row).
\<close>

section \<open>The state\<close>

record item_item =
  ii_id :: "32 word"
  ii_name :: string
  ii_cost :: dbl
  ii_count_on_warehouse :: "32 word"
  ii_distributor :: string
  ii_type :: string
  ii_description :: string

datatype item_value = Plain qvariant | Whole item_item

record items_model =
  im_items :: "item_item list"
  im_header :: string
  im_item_types :: "string \<rightharpoonup> 32 word"
  im_distributors :: "string \<rightharpoonup> 32 word"
  im_signals :: "model_signal list"
  im_pending :: "string list"

definition ItemsModel :: items_model where
  "ItemsModel = \<lparr>im_items = [], im_header = [], im_item_types = Map.empty, im_distributors = Map.empty,
     im_signals = [], im_pending = []\<rparr>"

definition SetItemTypes :: "(string \<rightharpoonup> 32 word) \<Rightarrow> items_model \<Rightarrow> items_model" where
  "SetItemTypes ts m = m\<lparr>im_item_types := ts\<rparr>"

definition SetDistributors :: "(string \<rightharpoonup> 32 word) \<Rightarrow> items_model \<Rightarrow> items_model" where
  "SetDistributors ds m = m\<lparr>im_distributors := ds\<rparr>"

definition items_emit :: "model_signal list \<Rightarrow> items_model \<Rightarrow> items_model" where
  "items_emit ss m = m\<lparr>im_signals := im_signals m @ ss\<rparr>"

section \<open>What the views read\<close>

definition items_rowCount :: "items_model \<Rightarrow> nat" where
  "items_rowCount m = length (im_items m)"

definition items_columnCount :: "items_model \<Rightarrow> nat" where
  "items_columnCount m = 1"

definition shown_item :: "(item_item \<Rightarrow> item_value) \<Rightarrow> item_item outcome \<Rightarrow> item_value outcome" where
  "shown_item f x = (case x of Value i \<Rightarrow> Value (f i) | Throw e \<Rightarrow> Throw e | Abort \<Rightarrow> Abort | Diverge \<Rightarrow> Diverge)"

definition items_data :: "items_model \<Rightarrow> model_index \<Rightarrow> int \<Rightarrow> item_value outcome" where
  "items_data m index role =
     (case index of None \<Rightarrow> Value (Plain QV_none)
      | Some (row, column) \<Rightarrow>
          let it = item_at (im_items m) row in
          if role = DisplayRole then Value (Plain QV_none)
          else if role = UserRole + 1 then shown_item (\<lambda>i. Plain (QV_int (ii_id i))) it
          else if role = UserRole + 2 then shown_item (\<lambda>i. Plain (QV_string (ii_name i))) it
          else if role = UserRole + 3 then shown_item (\<lambda>i. Plain (QV_double (ii_cost i))) it
          else if role = UserRole + 4 then shown_item (\<lambda>i. Plain (QV_uint (ii_count_on_warehouse i))) it
          else if role = UserRole + 5 then shown_item (\<lambda>i. Plain (QV_string (ii_distributor i))) it
          else if role = UserRole + 6 then shown_item (\<lambda>i. Plain (QV_string (ii_type i))) it
          else if role = UserRole + 7 then shown_item (\<lambda>i. Plain (QV_string (ii_description i))) it
          else if role = UserRole + 8 then shown_item Whole it
          else Value (Plain QV_none))"

definition items_headerData :: "items_model \<Rightarrow> int \<Rightarrow> orientation \<Rightarrow> int \<Rightarrow> qvariant" where
  "items_headerData m section_nr orient role =
     (if role = DisplayRole \<and> orient = Horizontal then QV_string (im_header m) else QV_none)"

definition items_setHeaderData ::
  "int \<Rightarrow> orientation \<Rightarrow> string \<Rightarrow> int \<Rightarrow> items_model \<Rightarrow> bool \<times> items_model" where
  "items_setHeaderData section_nr orient v role m =
     (if role = DisplayRole \<and> orient = Horizontal then (True, m\<lparr>im_header := v\<rparr>) else (False, m))"

section \<open>Receiving the items\<close>

definition fresh_item :: "32 word \<times> dbl \<times> 32 word \<Rightarrow> item_item" where
  "fresh_item numbers = (case numbers of (i, cost, cnt) \<Rightarrow>
     \<lparr>ii_id = i, ii_name = [], ii_cost = cost, ii_count_on_warehouse = cnt, ii_distributor = [],
      ii_type = [], ii_description = []\<rparr>)"

definition items_received ::
  "(string \<Rightarrow> lua) \<Rightarrow> (nat \<Rightarrow> 32 word \<times> dbl \<times> 32 word) \<Rightarrow> string \<Rightarrow> items_model \<Rightarrow> items_model" where
  "items_received exec junk message m =
     (case ParseAndGetResponse exec message of
        None \<Rightarrow> items_emit [Error_signal Bad_response] m
      | Some (fenv, response) \<Rightarrow>
          if response = ''success'' then
            (let items_ref = get_raw_ref fenv ''items'';
                 new_items = map (\<lambda>i. fresh_item (junk i)) [1..<Suc (get_length items_ref)]
             in case update_rows (im_items m) new_items of (is, ss) \<Rightarrow>
                  items_emit ss (m\<lparr>im_items := is\<rparr>))
          else items_emit [Error_signal Wrong_data] m)"

definition items_ReceiveRemoteData :: "q_arg \<Rightarrow> user_login \<Rightarrow> items_model \<Rightarrow> items_model" where
  "items_ReceiveRemoteData arg usr m = m\<lparr>im_pending := im_pending m @ [GetItems_request arg usr]\<rparr>"

definition items_Insert :: "item_item \<Rightarrow> items_model \<Rightarrow> items_model" where
  "items_Insert item m = m"

definition items_error :: "nat \<Rightarrow> items_model \<Rightarrow> items_model" where
  "items_error e m = items_emit [Error_signal (Socket_error e)] m"

definition items_drop_pending :: "nat \<Rightarrow> items_model \<Rightarrow> items_model" where
  "items_drop_pending k m = m\<lparr>im_pending := take k (im_pending m) @ drop (Suc k) (im_pending m)\<rparr>"

inductive items_step ::
  "(string \<Rightarrow> lua) \<Rightarrow> q_arg \<Rightarrow> user_login \<Rightarrow> items_model \<Rightarrow> items_model \<Rightarrow> bool" for exec arg usr where
  receive: "items_step exec arg usr m (items_ReceiveRemoteData arg usr m)"
| insert: "items_step exec arg usr m (items_Insert item m)"
| set_types: "items_step exec arg usr m (SetItemTypes ts m)"
| set_distributors: "items_step exec arg usr m (SetDistributors ds m)"
| set_header: "items_step exec arg usr m (snd (items_setHeaderData section_nr orient v role m))"
| reply: "k < length (im_pending m) \<Longrightarrow>
     items_step exec arg usr m (items_received exec junk message (items_drop_pending k m))"
| failed: "k < length (im_pending m) \<Longrightarrow> items_step exec arg usr m (items_error e (items_drop_pending k m))"

section \<open>The contract with the views\<close>

lemma items_emit_simps [simp]:
  "im_items (items_emit ss m) = im_items m" "im_signals (items_emit ss m) = im_signals m @ ss"
  by (simp_all add: items_emit_def)

lemma items_drop_pending_simps [simp]:
  "im_items (items_drop_pending k m) = im_items m"
  "im_signals (items_drop_pending k m) = im_signals m"
  by (simp_all add: items_drop_pending_def)

lemma items_announced_received:
  "announces (im_items m) (im_signals m)
     (im_items (items_received exec junk message m)) (im_signals (items_received exec junk message m))"
  by (auto simp: items_received_def case_prod_beta Let_def split: option.split)

lemma items_step_announced:
  "items_step exec arg usr m m' \<Longrightarrow> announces (im_items m) (im_signals m) (im_items m') (im_signals m')"
proof (induction rule: items_step.induct)
  case (reply k m junk message)
  from items_announced_received[of "items_drop_pending k m" exec junk message] show ?case by simp
qed (auto simp: items_ReceiveRemoteData_def items_Insert_def SetItemTypes_def SetDistributors_def
    items_setHeaderData_def items_error_def)

interpretation items_view: row_model "items_step exec arg usr" im_items im_signals
  by unfold_locales (rule items_step_announced)

section \<open>Properties\<close>

lemma blank_fresh_item: "ii_name (fresh_item j) = [] \<and> ii_distributor (fresh_item j) = [] \<and>
    ii_type (fresh_item j) = [] \<and> ii_description (fresh_item j) = []"
  by (simp add: fresh_item_def case_prod_beta)

text \<open>
  The list of items shows nothing of what the server sends: in every reachable state the views are
  in step with the number of rows, but every row has an empty name, distributor, type and
  description.
\<close>

theorem items_never_shown:
  assumes "(items_step exec arg usr)\<^sup>*\<^sup>* ItemsModel m"
  shows "follow (im_signals m) 0 = Some (int (items_rowCount m)) \<and>
     list_all (\<lambda>i. ii_name i = [] \<and> ii_distributor i = [] \<and> ii_type i = [] \<and> ii_description i = []) (im_items m)"
proof
  show "follow (im_signals m) 0 = Some (int (items_rowCount m))"
    unfolding items_rowCount_def
    by (rule items_view.steps_announced[OF assms]) (simp add: ItemsModel_def)
  show "list_all (\<lambda>i. ii_name i = [] \<and> ii_distributor i = [] \<and> ii_type i = [] \<and> ii_description i = [])
      (im_items m)"
    using assms
  proof (induction rule: rtranclp_induct)
    case (step y z)
    from step.hyps(2) step.IH show ?case
    proof (induction rule: items_step.induct)
      case (reply k m junk message)
      then show ?case
        by (auto simp: items_received_def case_prod_beta Let_def update_rows_new list_all_iff
            blank_fresh_item split: option.split)
    qed (auto simp: items_ReceiveRemoteData_def items_Insert_def SetItemTypes_def SetDistributors_def
        items_setHeaderData_def items_error_def)
  qed (simp add: ItemsModel_def)
qed

definition item_reply :: "string \<Rightarrow> lua" where
  "item_reply message = LTable [(''response'', LString ''success''),
     (''items'', LTable [] [LTable [(''name'', LString ''Ryzen'')] []])] []"

theorem items_never_shown_witness:
  "let m = items_received item_reply (\<lambda>i. (0, 0, 0)) []
       (items_drop_pending 0 (items_ReceiveRemoteData qarg sample_user ItemsModel))
   in items_rowCount m = 1 \<and> follow (im_signals m) 0 = Some 1 \<and> map ii_name (im_items m) = [[]]"
proof -
  let ?m1 = "items_ReceiveRemoteData qarg sample_user ItemsModel"
  let ?m = "items_received item_reply (\<lambda>i. (0, 0, 0)) [] (items_drop_pending 0 ?m1)"
  let ?step = "items_step item_reply qarg sample_user"
  have "?step ItemsModel ?m1" by (rule items_step.receive)
  moreover have "?step ?m1 ?m"
    by (rule items_step.reply) (simp add: items_ReceiveRemoteData_def)
  ultimately have "?step\<^sup>*\<^sup>* ItemsModel ?m"
    by (rule converse_rtranclp_into_rtranclp[OF _ r_into_rtranclp])
  from items_never_shown[OF this] show ?thesis
    by (simp add: Let_def items_rowCount_def items_received_def items_ReceiveRemoteData_def ItemsModel_def
        ParseAndGetResponse_def item_reply_def get_raw_string_def get_raw_ref_def get_length_def
        items_drop_pending_def update_rows_def fresh_item_def)
qed

end
