(* ===== verification/Client_Windows.thy ===== *)
theory Client_Windows
  imports Items_Model
begin

text \<open>
  The decisions of the client's windows (pc_course_client/Login/Ui/LoginWindow.cpp,
  Admin/Ui/AdminPanel.cpp, Employee/Ui/EmployeePanel.cpp, Utils/User.hpp): who is logged in, which panel is
  opened, and what the buttons of the panels do with the models. The texts of the input fields
  and the selected row are part of the state or arguments; a message box runs an event loop of
  its own, so its question and its answer are two operations. Layout and styling are left out.
\<close>

section \<open>Logging in\<close>

datatype panel = Admin_panel | Employee_panel | Accountant_panel

datatype login_box = Socket_box nat | Lua_config_box string | Bad_info_box

text \<open>\<open>lw_user\<close> is the singleton \<open>User\<close>; its accessors are those of the record.\<close>

record login_window =
  lw_login :: string
  lw_password :: string
  lw_rank :: string
  lw_user :: user_login
  lw_pending :: "string list"
  lw_panels :: "panel list"
  lw_closed :: bool
  lw_boxes :: "login_box list"

definition LoginWindow :: login_window where
  "LoginWindow = \<lparr>lw_login = [], lw_password = [], lw_rank = ''Admin'',
     lw_user = \<lparr>ul_login = [], ul_password = [], ul_rank = []\<rparr>,
     lw_pending = [], lw_panels = [], lw_closed = False, lw_boxes = []\<rparr>"

definition rank_choices :: "string list" where
  "rank_choices = [''Admin'', ''Employee'', ''Accountant'']"

definition field_login :: "(string \<Rightarrow> string) \<Rightarrow> login_window \<Rightarrow> user_login" where
  "field_login hash w = \<lparr>ul_login = lw_login w, ul_password = hash (lw_password w), ul_rank = lw_rank w\<rparr>"

definition login_CheckUserExists :: "q_arg \<Rightarrow> (string \<Rightarrow> string) \<Rightarrow> login_window \<Rightarrow> login_window" where
  "login_CheckUserExists arg hash w =
     (if lw_login w = [] \<or> lw_password w = [] then w
      else w\<lparr>lw_pending := lw_pending w @ [Auth arg (field_login hash w)]\<rparr>)"

definition panel_of :: "string \<Rightarrow> panel option" where
  "panel_of rank =
     (if rank = ''Admin'' then Some Admin_panel
      else if rank = ''Employee'' then Some Employee_panel
      else if rank = ''Accountant'' then Some Accountant_panel
      else None)"

definition receive_user_existance ::
  "(string \<Rightarrow> lua) \<Rightarrow> (string \<Rightarrow> string) \<Rightarrow> string \<Rightarrow> login_window \<Rightarrow> login_window outcome" where
  "receive_user_existance exec hash message w =
     (case ParseAndGetResponse exec message of
        None \<Rightarrow> Value (w\<lparr>lw_boxes := lw_boxes w @ [Lua_config_box []]\<rparr>)
      | Some (fenv, response) \<Rightarrow>
          let w = w\<lparr>lw_user := field_login hash w\<rparr> in
          if response = ''success'' then
            (case panel_of (ul_rank (lw_user w)) of
               None \<Rightarrow> Abort
             | Some p \<Rightarrow> Value (w\<lparr>lw_panels := lw_panels w @ [p], lw_closed := True\<rparr>))
          else Value (w\<lparr>lw_boxes := lw_boxes w @ [Bad_info_box]\<rparr>))"

definition login_error :: "nat \<Rightarrow> login_window \<Rightarrow> login_window" where
  "login_error e w = w\<lparr>lw_boxes := lw_boxes w @ [Socket_box e]\<rparr>"

section \<open>The administrator's panel\<close>

text \<open>The constructor sets the ranks and asks for the accounts.\<close>

definition AdminPanel :: "q_arg \<Rightarrow> user_login \<Rightarrow> users_model" where
  "AdminPanel arg usr = users_ReceiveRemoteData arg usr
     (SetRanks [''Admin'' \<mapsto> 1, ''Employee'' \<mapsto> 2, ''Accountant'' \<mapsto> 3] UsersModel)"

definition admin_CreateUser ::
  "q_arg \<Rightarrow> (string \<Rightarrow> string) \<Rightarrow> user_login \<Rightarrow> user_item \<Rightarrow> string \<Rightarrow> users_model \<Rightarrow> users_model" where
  "admin_CreateUser arg hash usr form password m =
     (if ui_login form = [] \<or> password = [] \<or> ui_sname form = [] \<or> ui_name form = [] \<or>
         ui_pname form = [] \<or> ui_rank form = [] then m
      else users_Insert arg hash usr form password m)"

text \<open>\<open>QAbstractItemModel::index\<close>: invalid outside of the table.\<close>

definition users_index :: "users_model \<Rightarrow> int \<Rightarrow> int \<Rightarrow> model_index" where
  "users_index m row column =
     (if 0 \<le> row \<and> row < int (users_rowCount m) \<and> 0 \<le> column \<and> column < int (users_columnCount m)
      then Some (row, column) else None)"

fun to_string :: "qvariant \<Rightarrow> string" where
  "to_string (QV_string s) = s"
| "to_string (QV_int i) = show_int (sint i)"
| "to_string (QV_uint i) = show_nat (unat i)"
| "to_string (QV_ulonglong i) = show_nat (unat i)"
| "to_string _ = []"

datatype question = No_selection | Own_account | Confirm model_index

definition admin_DeleteUser_ask :: "user_login \<Rightarrow> int option \<Rightarrow> users_model \<Rightarrow> question outcome" where
  "admin_DeleteUser_ask usr selected m =
     (case selected of None \<Rightarrow> Value No_selection
      | Some row \<Rightarrow>
          let index = users_index m row 0 in
          (case users_data m index DisplayRole of
             Value v \<Rightarrow> Value (if ul_login usr = to_string v then Own_account else Confirm index)
           | _ \<Rightarrow> Abort))"

definition admin_DeleteUser_answer ::
  "q_arg \<Rightarrow> user_login \<Rightarrow> bool \<Rightarrow> model_index \<Rightarrow> users_model \<Rightarrow> users_model" where
  "admin_DeleteUser_answer arg usr choose_ok index m =
     (if choose_ok then users_Remove arg usr index m else m)"

section \<open>The employee's panel\<close>

definition EmployeePanel :: "q_arg \<Rightarrow> user_login \<Rightarrow> customers_model" where
  "EmployeePanel arg usr = customers_ReceiveRemoteData arg usr CustomersModel"

text \<open>\<open>to_ulonglong\<close> is \<open>QString::toULongLong\<close>.\<close>

definition employee_CreateCustomer ::
  "q_arg \<Rightarrow> (string \<Rightarrow> 64 word) \<Rightarrow> user_login \<Rightarrow> string \<Rightarrow> string \<Rightarrow> string \<Rightarrow> string \<Rightarrow>
    customers_model \<Rightarrow> customers_model" where
  "employee_CreateCustomer arg to_ulonglong usr telephone sname name pname m =
     (if telephone = [] \<or> sname = [] \<or> name = [] \<or> pname = [] then m
      else customers_Insert arg usr \<lparr>ci_tel_number = to_ulonglong telephone, ci_sname = sname,
        ci_name = name, ci_pname = pname\<rparr> m)"

definition customers_index :: "customers_model \<Rightarrow> int \<Rightarrow> int \<Rightarrow> model_index" where
  "customers_index m row column =
     (if 0 \<le> row \<and> row < int (customers_rowCount m) \<and> 0 \<le> column \<and>
         column < int (customers_columnCount m)
      then Some (row, column) else None)"

definition employee_DeleteCustomer_ask :: "int option \<Rightarrow> customers_model \<Rightarrow> question" where
  "employee_DeleteCustomer_ask selected m =
     (case selected of None \<Rightarrow> No_selection | Some row \<Rightarrow> Confirm (customers_index m row 0))"

definition employee_DeleteCustomer_answer ::
  "q_arg \<Rightarrow> user_login \<Rightarrow> bool \<Rightarrow> model_index \<Rightarrow> customers_model \<Rightarrow> customers_model" where
  "employee_DeleteCustomer_answer arg usr choose_ok index m =
     (if choose_ok then customers_Remove arg usr index m else m)"

section \<open>Properties\<close>

text \<open>
  The panel that a successful login opens, and the account the client uses from then on, are those
  of the input fields when the reply arrives, not those of the request: an accountant's login
  opens the administrator's panel when the rank has been changed in between.
\<close>

theorem login_uses_current_fields:
  assumes "lw_login w \<noteq> []" and "lw_password w \<noteq> []" and "lw_pending w = []"
    and "ParseAndGetResponse exec message = Some (fenv, ''success'')"
    and "rank \<in> set rank_choices"
    and "w1 = (login_CheckUserExists arg hash w)\<lparr>lw_rank := rank\<rparr>"
  shows "lw_pending w1 = [Auth arg (field_login hash w)] \<and>
     (\<exists>p w2. receive_user_existance exec hash message w1 = Value w2 \<and>
        panel_of rank = Some p \<and> lw_panels w2 = lw_panels w @ [p] \<and>
        lw_user w2 = (field_login hash w)\<lparr>ul_rank := rank\<rparr>)"
  using assms
  by (auto simp: login_CheckUserExists_def receive_user_existance_def Let_def field_login_def
      rank_choices_def panel_of_def)

theorem login_uses_current_fields_witness:
  "let w = LoginWindow\<lparr>lw_login := ''amongaust'', lw_password := ''pwd'', lw_rank := ''Accountant''\<rparr>;
       w1 = (login_CheckUserExists qarg (\<lambda>p. p) w)\<lparr>lw_rank := ''Admin''\<rparr>
   in \<exists>w2. receive_user_existance echo (\<lambda>p. p) ''success'' w1 = Value w2 \<and>
        lw_panels w2 = [Admin_panel] \<and> ul_rank (lw_user w2) = ''Admin''"
  using login_uses_current_fields[of "LoginWindow\<lparr>lw_login := ''amongaust'', lw_password := ''pwd'',
      lw_rank := ''Accountant''\<rparr>" echo "''success''" "echo ''success''" "''Admin''" _ qarg "\<lambda>p. p"]
  by (auto simp: LoginWindow_def rank_choices_def panel_of_def)

text \<open>
  While the question whether to delete an account is open, the model may change; if it does not,
  the confirmed request never names the administrator's own account, and it names the account of
  the selected row.
\<close>

theorem own_account_protected:
  assumes "um_headers m = replicate 5 []" and "admin_DeleteUser_ask usr (Some row) m = Value (Confirm index)"
    and "um_users m' = um_users m"
  shows "um_pending (admin_DeleteUser_answer arg usr True index m') = um_pending m' \<or>
     (\<exists>u \<in> set (um_users m). ui_login u \<noteq> ul_login usr \<and>
        um_pending (admin_DeleteUser_answer arg usr True index m') =
          um_pending m' @ [(DeleteUser_request arg usr (ui_login u), User_removed row)])"
proof (cases "0 \<le> row \<and> row < int (length (um_users m))")
  case True
  let ?u = "um_users m ! nat row"
  have index: "index = Some (row, 0)" and "ui_login ?u \<noteq> ul_login usr"
    using assms(1,2) True
    by (auto simp: admin_DeleteUser_ask_def users_index_def users_rowCount_def users_columnCount_def
        users_data_def shown_def item_at_def Let_def split: if_splits)
  moreover have "?u \<in> set (um_users m)" using True by auto
  ultimately show ?thesis
    using True assms(3) by (auto simp: admin_DeleteUser_answer_def users_Remove_def index)
next
  case False
  then show ?thesis
    using assms(2) by (auto simp: admin_DeleteUser_ask_def users_index_def users_rowCount_def users_data_def
        Let_def admin_DeleteUser_answer_def users_Remove_def split: if_splits)
qed

theorem own_account_protected_witness:
  "um_pending (admin_DeleteUser_answer qarg sample_user True (Some (1, 0)) two_accounts) = um_pending two_accounts \<or>
     (\<exists>u \<in> set (um_users two_accounts). ui_login u \<noteq> ul_login sample_user \<and>
        um_pending (admin_DeleteUser_answer qarg sample_user True (Some (1, 0)) two_accounts) =
          um_pending two_accounts @ [(DeleteUser_request qarg sample_user (ui_login u), User_removed 1)])"
  by (rule own_account_protected)
    (simp_all add: two_accounts_def UsersModel_def admin_DeleteUser_ask_def users_index_def users_rowCount_def
      users_columnCount_def users_data_def DisplayRole_def shown_def item_at_def Let_def sample_account_def
      sample_user_def)

text \<open>
  When a refresh arrives while the question is open, the confirmed request is for the account that
  stands in the selected row then, which can be the administrator's own.
\<close>

theorem own_account_race:
  assumes "um_headers m = replicate 5 []" and "row < length (um_users m)"
    and "ui_login (um_users m ! row) \<noteq> ul_login usr"
    and "ParseAndGetResponse exec message = Some (fenv, ''success'')"
    and "read_rows read_user_item (get_raw_ref fenv ''users'') = Some new"
    and "row < length new" and "ui_login (new ! row) = ul_login usr"
  shows "\<exists>index. admin_DeleteUser_ask usr (Some (int row)) m = Value (Confirm index) \<and>
     um_pending (admin_DeleteUser_answer arg usr True index (users_received exec message m)) =
       um_pending m @ [(DeleteUser_request arg usr (ul_login usr), User_removed (int row))]"
proof -
  have "admin_DeleteUser_ask usr (Some (int row)) m = Value (Confirm (Some (int row, 0)))"
    using assms(1-3) by (simp add: admin_DeleteUser_ask_def users_index_def users_rowCount_def
        users_columnCount_def users_data_def DisplayRole_def shown_def item_at_def Let_def)
  moreover have "um_users (users_received exec message m) = new"
    "um_pending (users_received exec message m) = um_pending m"
    using assms(4,5) by (simp_all add: users_received_def case_prod_beta update_rows_new)
  ultimately show ?thesis
    using assms(6,7) by (simp add: admin_DeleteUser_answer_def users_Remove_def)
qed

definition account_table :: "user_item \<Rightarrow> lua" where
  "account_table u = LTable [(''login'', LString (ui_login u)), (''sname'', LString (ui_sname u)),
     (''name'', LString (ui_name u)), (''pname'', LString (ui_pname u)), (''rank'', LString (ui_rank u))] []"

definition accounts_reply :: "user_item list \<Rightarrow> string \<Rightarrow> lua" where
  "accounts_reply us message = LTable [(''response'', LString ''success''),
     (''users'', LTable [] (map account_table us))] []"

lemma read_account_table: "read_user_item (account_table u) = Some u"
  by (simp add: read_user_item_def account_table_def get_raw_string_def get_raw_ref_def)

lemma those_Some: "those (map (\<lambda>x. Some (f x)) xs) = Some (map f xs)"
  by (induction xs) auto

theorem own_account_race_witness:
  "let own = sample_account\<lparr>ui_login := ul_login sample_user\<rparr>;
       exec = accounts_reply [own, sample_account]
   in \<exists>index. admin_DeleteUser_ask sample_user (Some (int 0)) two_accounts = Value (Confirm index) \<and>
     um_pending (admin_DeleteUser_answer qarg sample_user True index (users_received exec [] two_accounts)) =
       um_pending two_accounts @ [(DeleteUser_request qarg sample_user (ul_login sample_user), User_removed (int 0))]"
proof -
  let ?own = "sample_account\<lparr>ui_login := ul_login sample_user\<rparr>"
  let ?exec = "accounts_reply [?own, sample_account]"
  have "ParseAndGetResponse ?exec [] = Some (?exec [], ''success'')"
    by (simp add: ParseAndGetResponse_def accounts_reply_def get_raw_string_def get_raw_ref_def)
  moreover have "read_rows read_user_item (get_raw_ref (?exec []) ''users'') = Some [?own, sample_account]"
    using those_Some[of "\<lambda>x. x" "[?own, sample_account]"]
    by (simp add: accounts_reply_def get_raw_ref_def read_rows_LTable read_account_table)
  ultimately show ?thesis
    unfolding Let_def
    by (intro own_account_race[where new = "[?own, sample_account]" and fenv = "?exec []"])
      (simp_all add: two_accounts_def UsersModel_def sample_account_def sample_user_def)
qed

end
