(* ===== verification/Client_Server.thy ===== *)
theory Client_Server
  imports Lua_Exchange Query_Properties Client_Windows
begin

text \<open>
  Client and server together: the texts the client builds, as the server reads them, and the
  replies of the server, as the client's models and windows read them. The two Lua VMs are
  parameters that run the chunks of the fragment as the language defines.
\<close>

section \<open>Printable rows\<close>

lemma printable_set_raw:
  assumes "order_ok E" and "printable (LTable fs arr)" and "ident k" and "printable v"
  obtains fs' where "set_raw E (LTable fs arr) k v = LTable fs' arr" and "printable (LTable fs' arr)"
proof -
  let ?fs = "vm_order E (upd_field k v fs)"
  have "distinct (map fst (upd_field k v fs))"
    using assms(2) by (simp add: distinct_upd_field)
  then have "distinct (map fst ?fs)" "set ?fs = {p \<in> set fs. fst p \<noteq> k} \<union> {(k, v)}"
    using assms(1) by (simp_all add: order_ok_def set_upd_field)
  with assms(2-4) have "printable (LTable ?fs arr)"
    by (auto simp: list_all_iff)
  then show thesis using that by (simp add: set_raw_def)
qed

lemma printable_build_item:
  assumes "order_ok E" and "printable (LTable fs arr)"
    and "\<And>f i s. (f, i) \<in> set fis \<Longrightarrow> row ! nat i = Some s \<Longrightarrow>
      ident (field_name f) \<and> printable (the (cell_result E (field_type f) s))"
  shows "printable (build_item E row fis (LTable fs arr))"
  using assms(2,3)
proof (induction fis arbitrary: fs)
  case (Cons p fis)
  obtain f i where p: "p = (f, i)" by force
  show ?case
  proof (cases "row ! nat i")
    case None
    then show ?thesis using Cons by (auto simp: p)
  next
    case (Some s)
    with Cons.prems(2)[of f i s] p obtain fs' where
      "set_raw E (LTable fs arr) (field_name f) (the (cell_result E (field_type f) s)) = LTable fs' arr"
      "printable (LTable fs' arr)"
      using printable_set_raw[OF assms(1) Cons.prems(1)] by (metis list.set_intros(1))
    moreover have "printable (build_item E row fis (LTable fs' arr))"
      by (rule Cons.IH[OF calculation(2)]) (use Cons.prems(2) in auto)
    ultimately show ?thesis by (simp add: p Some)
  qed
qed simp

lemma field_idents:
  "ident ''telephone''" "ident ''sname''" "ident ''name''" "ident ''pname''" "ident ''login''" "ident ''rank''"
  "ident ''password''" "ident ''user''" "ident ''request''" "ident ''customers''" "ident ''users''"
  "ident ''delete_customer_telephone''"
  by (simp_all add: ident_def name_char_def name_start_def reserved_words_def)

definition one_line_customer :: "customer_row \<Rightarrow> bool" where
  "one_line_customer c \<longleftrightarrow> (\<forall>s \<in> {c_sname c, c_name c, c_pname c}. case s of None \<Rightarrow> True | Some t \<Rightarrow> one_line t)"

definition one_line_user :: "user_row \<Rightarrow> bool" where
  "one_line_user u \<longleftrightarrow> (\<forall>s \<in> {Some (u_login u), u_sname u, u_name u, u_pname u}.
     case s of None \<Rightarrow> True | Some t \<Rightarrow> one_line t)"

lemma printable_customer:
  assumes "order_ok E" and "customer_ok c" and "one_line_customer c"
  shows "printable (item_of E customers_fields [0, 1, 2, 3] (customer_cells c))"
proof -
  have "sint (word_of_nat (c_telephone c) :: i64) = int (c_telephone c)"
    using assms(2) sint_of_small[of "c_telephone c"] by (simp add: customer_ok_def)
  then show ?thesis
    unfolding item_of_def create_table_def
    by (intro printable_build_item[OF assms(1)])
      (use assms(2,3) in \<open>auto simp: customers_fields_def FieldAndType_def customer_cells_def field_idents
        customer_ok_def one_line_customer_def cell_result_show_nat\<close>)
qed

lemma printable_user:
  assumes "order_ok E" and "one_line_user (fst ur)" and "one_line (r_name (snd ur))"
  shows "printable (item_of E users_fields [0, 1, 2, 3, 4] (user_cells ur))"
  unfolding item_of_def create_table_def
  by (intro printable_build_item[OF assms(1)])
    (use assms(2,3) in \<open>auto simp: users_fields_def FieldAndType_def user_cells_def field_idents
      one_line_user_def case_prod_beta\<close>)

section \<open>What the client reads from a listing\<close>

lemma read_reply_listing:
  assumes "client_vm_ok exec" and "ident name" and "name \<noteq> ''response''" and "list_all printable its"
  obtains fenv gs brr where "ParseAndGetResponse exec (listing E name its) = Some (fenv, ''success'')"
    and "get_raw_ref fenv name = LTable gs brr" and "list_all2 agrees brr its"
proof -
  let ?reply = "listing E name its"
  have reply: "?reply = make_response_str ''success'' @ LuaConfSerialize E (LTable [] its) name 0"
    by (simp add: listing_def success_def)
  have "read_chunk ?reply = Some [(''response'', LString ''success''), (name, LTable [] its)]"
    unfolding reply by (rule read_listing) (use assms(2-4) in \<open>simp_all add: plain_text_def one_line_def\<close>)
  then have t: "agrees (exec ?reply) (LTable [(''response'', LString ''success''), (name, LTable [] its)] [])"
    using assms(1) by (simp add: client_vm_ok_def)
  have "get_raw_string (exec ?reply) ''response'' = Some ''success''"
    using agrees_string[OF t, of "''response''"] by (simp add: get_raw_string_def get_raw_ref_def)
  moreover have "agrees (get_raw_ref (exec ?reply) name) (LTable [] its)"
    using agrees_ref[OF t, of name] assms(3) by (simp add: get_raw_ref_def)
  then obtain gs brr where "get_raw_ref (exec ?reply) name = LTable gs brr" "list_all2 agrees brr its"
    by (rule agrees_LTable)
  ultimately show thesis
    using that by (simp add: ParseAndGetResponse_def)
qed

lemma read_rows_agree:
  assumes "list_all2 agrees brr (map g xs)" and "\<And>t x. x \<in> set xs \<Longrightarrow> agrees t (g x) \<Longrightarrow> f t = Some (h x)"
  shows "read_rows f (LTable gs brr) = Some (map h xs)"
proof -
  have "map f brr = map (\<lambda>x. Some (h x)) xs"
    using assms by (induction xs arbitrary: brr) (auto simp: list_all2_Cons2)
  then show ?thesis by (simp add: read_rows_LTable those_Some)
qed

definition customer_view :: "customer_row \<Rightarrow> customer_item" where
  "customer_view c = \<lparr>ci_tel_number = word_of_nat (c_telephone c), ci_sname = the (c_sname c),
     ci_name = the (c_name c), ci_pname = the (c_pname c)\<rparr>"

definition user_view :: "user_row \<times> rank_row \<Rightarrow> user_item" where
  "user_view ur = \<lparr>ui_login = u_login (fst ur), ui_sname = the (u_sname (fst ur)),
     ui_name = the (u_name (fst ur)), ui_pname = the (u_pname (fst ur)), ui_rank = r_name (snd ur)\<rparr>"

lemma read_customer_view:
  "customer_ok c \<Longrightarrow> shows_customer it c \<Longrightarrow> agrees t it \<Longrightarrow> read_customer_item t = Some (customer_view c)"
  by (auto simp: read_customer_item_def shows_customer_def customer_view_def customer_ok_def
      agrees_int agrees_string)

lemma read_user_view:
  "user_ok (fst ur) \<Longrightarrow> shows_user it ur \<Longrightarrow> agrees t it \<Longrightarrow> read_user_item t = Some (user_view ur)"
  by (cases ur) (auto simp: read_user_item_def shows_user_def user_view_def user_ok_def agrees_string)

lemma rank_of_in:
  assumes "db_inv cfg db" and "u \<in> set (users db)"
  shows "rank_of db u \<in> set (ranks db)"
proof -
  have "filter (\<lambda>r. u_rank u = r_id r) (ranks db) \<noteq> []"
    using assms by (auto simp: db_inv_def refs_ok_def exists_iff filter_empty_conv)
  from hd_in_set[OF this] show ?thesis by (simp add: rank_of_def)
qed

section \<open>The tables of the client show the database\<close>

lemma printable_customers:
  assumes "order_ok E" and "names_ok db" and "list_all one_line_customer (customers db)"
  shows "list_all printable (map (item_of E customers_fields [0, 1, 2, 3] \<circ> customer_cells) (customers db))"
  using assms(3) names_ok_customer[OF assms(2)] printable_customer[OF assms(1)] by (auto simp: list_all_iff)

lemma printable_users:
  assumes "order_ok E" and "db_inv cfg db" and "list_all one_line_user (users db)"
    and "list_all (\<lambda>r. one_line (r_name r)) (ranks db)"
  shows "list_all printable
     (map (\<lambda>u. item_of E users_fields [0, 1, 2, 3, 4] (user_cells (u, rank_of db u))) (users db))"
  using assms(3,4) printable_user[OF assms(1)] rank_of_in[OF assms(2)] by (auto simp: list_all_iff)

lemma customers_shown:
  assumes "order_ok E" and "names_ok db" and "list_all one_line_customer (customers db)" and "client_vm_ok exec"
  shows "cm_customers (customers_received exec
     (listing E ''customers'' (map (item_of E customers_fields [0, 1, 2, 3] \<circ> customer_cells) (customers db))) m) =
     map customer_view (customers db)"
proof -
  let ?item = "item_of E customers_fields [0, 1, 2, 3] \<circ> customer_cells"
  let ?cs = "customers db"
  have ok: "customer_ok c" if "c \<in> set ?cs" for c using names_ok_customer[OF assms(2) that] .
  from read_reply_listing[OF assms(4) field_idents(10) _ printable_customers[OF assms(1-3)], of E]
  obtain fenv gs brr where
    r: "ParseAndGetResponse exec (listing E ''customers'' (map ?item ?cs)) = Some (fenv, ''success'')"
      "get_raw_ref fenv ''customers'' = LTable gs brr" "list_all2 agrees brr (map ?item ?cs)"
    by auto
  have "read_rows read_customer_item (LTable gs brr) = Some (map customer_view ?cs)"
  proof (rule read_rows_agree[OF r(3)])
    fix t c assume "c \<in> set ?cs" "agrees t (?item c)"
    then show "read_customer_item t = Some (customer_view c)"
      using read_customer_view[OF ok shows_customer_cells[OF assms(1) ok]] by (simp only: o_apply)
  qed
  with r(1,2) show ?thesis
    by (auto simp: customers_received_def case_prod_beta update_rows_new)
qed

lemma users_shown:
  assumes "order_ok E" and "names_ok db" and "db_inv cfg db" and "list_all one_line_user (users db)"
    and "list_all (\<lambda>r. one_line (r_name r)) (ranks db)" and "client_vm_ok exec"
  shows "um_users (users_received exec (listing E ''users''
       (map (\<lambda>u. item_of E users_fields [0, 1, 2, 3, 4] (user_cells (u, rank_of db u))) (users db))) m) =
     map (\<lambda>u. user_view (u, rank_of db u)) (users db)"
proof -
  let ?ur = "\<lambda>u. (u, rank_of db u)"
  let ?item = "\<lambda>u. item_of E users_fields [0, 1, 2, 3, 4] (user_cells (?ur u))"
  let ?us = "users db"
  have ok: "user_ok u" if "u \<in> set ?us" for u using names_ok_user[OF assms(2) that] .
  from read_reply_listing[OF assms(6) field_idents(11) _ printable_users[OF assms(1,3-5)], of E]
  obtain fenv gs brr where
    r: "ParseAndGetResponse exec (listing E ''users'' (map ?item ?us)) = Some (fenv, ''success'')"
      "get_raw_ref fenv ''users'' = LTable gs brr" "list_all2 agrees brr (map ?item ?us)"
    by auto
  have "read_rows read_user_item (LTable gs brr) = Some (map (\<lambda>u. user_view (?ur u)) ?us)"
  proof (rule read_rows_agree[OF r(3)])
    fix t u assume "u \<in> set ?us" "agrees t (?item u)"
    then show "read_user_item t = Some (user_view (?ur u))"
      using ok[of u] shows_user_cells[OF assms(1), of "?ur u"] by (intro read_user_view) simp_all
  qed
  with r(1,2) show ?thesis
    by (auto simp: users_received_def case_prod_beta update_rows_new)
qed

text \<open>
  After a refresh the employee's table shows exactly the customers of the database: the handler
  reads them, the printer prints them, the client's VM runs the printed text, and every row of the
  model is a customer with its number and names, in the order of the table.
\<close>

theorem customers_table_shows_database:
  assumes "order_ok E" and "names_ok (s_db s)" and "list_all one_line_customer (customers (s_db s))"
    and "client_vm_ok exec"
  shows "\<exists>reply s'. get_customers E (session_driver cfg other ins) config s = (Value reply, s') \<and>
     s_db s' = s_db s \<and>
     cm_customers (customers_received exec reply m) = map customer_view (customers (s_db s))"
  using session.get_customers_items[OF assms(2), of E cfg other ins config] customers_shown[OF assms]
  by fastforce

lemma sample_one_line:
  "list_all one_line_customer (customers sample_db)" "list_all one_line_user (users sample_db)"
  "list_all (\<lambda>r. one_line (r_name r)) (ranks sample_db)"
  by (simp_all add: sample_db_eval one_line_customer_def one_line_user_def one_line_def)

theorem customers_table_shows_database_witness:
  "\<exists>reply s'. get_customers sample_env (session_driver sample_cfg sample_other no_id) (LTable [] [])
       sample_session = (Value reply, s') \<and> s_db s' = sample_db \<and>
     map ci_sname (cm_customers (customers_received sample_client_vm reply CustomersModel)) =
       [''c1_name'', ''c2_name'', ''c3_name'']"
  using customers_table_shows_database[OF sample_order_ok session_sample_inv(1) _ sample_vms_ok(2),
      of sample_cfg sample_other no_id "LTable [] []" CustomersModel] sample_one_line(1)
  by (auto simp: sample_db_eval customer_view_def)

text \<open>
  C15: The administrator's table shows exactly the accounts of the database, each with the name of its
  rank, after a refresh by an administrator.
\<close>

theorem users_table_shows_database:
  assumes "order_ok E" and "names_ok (s_db s)" and "db_inv cfg (s_db s)"
    and "safe_credentials config" and "authorised cfg config [''Admin''] (s_db s)"
    and "list_all one_line_user (users (s_db s))" and "list_all (\<lambda>r. one_line (r_name r)) (ranks (s_db s))"
    and "client_vm_ok exec"
  shows "\<exists>reply s'. get_users E (session_driver cfg other ins) config s = (Value reply, s') \<and>
     s_db s' = s_db s \<and>
     um_users (users_received exec reply m) =
       map (\<lambda>u. user_view (u, rank_of (s_db s) u)) (users (s_db s))"
  using session.get_users_items[OF assms(2-5), of E other ins] users_shown[OF assms(1-3,6-8)]
  by fastforce

lemma sample_logins:
  "map ui_login (map (\<lambda>u. user_view (u, rank_of sample_db u)) (users sample_db)) =
     [''amogus'', ''abobus'', ''amongaust'']"
  by (simp add: sample_db_eval user_view_def)

theorem users_table_shows_database_witness:
  "\<exists>reply s'. get_users sample_env (session_driver sample_cfg sample_other no_id) (admin_request [])
       sample_session = (Value reply, s') \<and> s_db s' = sample_db \<and>
     map ui_login (um_users (users_received sample_client_vm reply UsersModel)) =
       [''amogus'', ''abobus'', ''amongaust'']"
proof -
  have pre: "authorised sample_cfg (admin_request []) [''Admin''] (s_db sample_session)"
    "list_all one_line_user (users (s_db sample_session))"
    "list_all (\<lambda>r. one_line (r_name r)) (ranks (s_db sample_session))"
    by (simp_all add: sample_one_line)
  from users_table_shows_database[OF sample_order_ok session_sample_inv admin_safe pre sample_vms_ok(2),
      of sample_other no_id UsersModel]
  obtain reply s' where "get_users sample_env (session_driver sample_cfg sample_other no_id) (admin_request [])
       sample_session = (Value reply, s')" "s_db s' = s_db sample_session"
    "um_users (users_received sample_client_vm reply UsersModel) =
       map (\<lambda>u. user_view (u, rank_of (s_db sample_session) u)) (users (s_db sample_session))"
    by blast
  with sample_logins show ?thesis by (metis sample_session_simps(1))
qed

end
