(* ===== verification/Account_Exchange.thy ===== *)
theory Account_Exchange
  imports Client_Server
begin

text \<open>
  The texts of the client as the server reads them: the chunk that \<open>Auth\<close> and \<open>DeleteCustomer\<close>
  build, cut by the connection, run by the server's VM, answered by the handler, and the answer read
  by the client's VM.
\<close>

section \<open>The tokens of a request\<close>

definition plain_login :: "user_login \<Rightarrow> bool" where
  "plain_login usr \<longleftrightarrow> plain_text (ul_login usr) \<and> plain_text (ul_password usr) \<and> plain_text (ul_rank usr)"

definition login_table :: "user_login \<Rightarrow> lua" where
  "login_table usr = LTable [(''login'', LString (ul_login usr)), (''password'', LString (ul_password usr)),
     (''rank'', LString (ul_rank usr))] []"

lemma plain_login_user: "plain_login usr \<Longrightarrow> plain_user usr"
  by (simp add: plain_login_def plain_user_def plain_text_def one_line_def CR_def)

lemma closed_assign:
  assumes "ident k" and "closed_text t ts"
  shows "closed_text (k @ '' = '' @ t) (T_name k # T_assign # ts)"
proof -
  have "closed_text ('' = '' @ t) (T_assign # ts)"
    using closed_white[OF _ closed_symbols(4)[OF closed_white[OF _ assms(2)]], of "CHR 0x20" "CHR 0x20"] by simp
  then show ?thesis
    using lexed_closed_append[OF lexed_name[OF assms(1)], of "CHR 0x20"] by simp
qed

lemma closed_plain_text: "plain_text s \<Longrightarrow> closed_text t ts \<Longrightarrow> closed_text (quote_char # s @ quote_char # t) (T_str s # ts)"
  using closed_append[OF closed_plain, of s t ts] by simp

lemma closed_user_fields:
  assumes "plain_login usr"
  shows "closed_text (user_fields_text usr) (statement_tokens (''user'', login_table usr))"
proof -
  let ?q = "\<lambda>s t. quote_char # s @ quote_char # t"
  have "closed_text (''user'' @ '' = '' @ CHR ''{'' # CHR 0x09 # ''login'' @ '' = '' @ ?q (ul_login usr) (CHR '','' #
      CHR 0x09 # ''password'' @ '' = '' @ ?q (ul_password usr) (CHR '','' #
      CHR 0x09 # ''rank'' @ '' = '' @ ?q (ul_rank usr) (CHR ''}'' # []))))
    (T_name ''user'' # T_assign # T_open # T_name ''login'' # T_assign # T_str (ul_login usr) # T_comma #
      T_name ''password'' # T_assign # T_str (ul_password usr) # T_comma #
      T_name ''rank'' # T_assign # T_str (ul_rank usr) # T_close # [])"
    using assms unfolding plain_login_def
    by (intro closed_assign closed_plain_text closed_symbols closed_white closed_Nil field_idents) simp_all
  then show ?thesis
    by (simp add: user_fields_text_def TAB_def statement_tokens_def login_table_def entry_tokens_def)
qed

lemma closed_request:
  assumes "plain_text name" and "plain_login usr"
  shows "closed_text (''request = '' @ quote_char # name @ quote_char # CHR 0x20 # user_fields_text usr)
     (concat (map statement_tokens [(''request'', LString name), (''user'', login_table usr)]))"
proof -
  have "closed_text (''request'' @ '' = '' @ quote_char # name @ quote_char # CHR 0x20 # user_fields_text usr)
      (T_name ''request'' # T_assign # T_str name # statement_tokens (''user'', login_table usr))"
    using assms by (intro closed_assign closed_plain_text closed_white closed_user_fields field_idents) simp_all
  then show ?thesis by (simp add: statement_tokens_def)
qed

lemma printable_login_table: "plain_login usr \<Longrightarrow> printable (login_table usr)"
  by (simp add: plain_login_def login_table_def plain_text_def field_idents)

lemma read_request:
  assumes "plain_text name" and "plain_login usr"
  shows "read_chunk (''request = '' @ quote_char # name @ quote_char # CHR 0x20 # user_fields_text usr) =
     Some [(''request'', LString name), (''user'', login_table usr)]"
  by (rule read_statements[OF closed_lexed[OF closed_request[OF assms]]])
    (use assms printable_login_table[OF assms(2)] in \<open>auto simp: field_idents plain_text_def\<close>)

section \<open>What the handlers see of it\<close>

lemma credentials_agrees:
  assumes "agrees t u"
  shows "credentials t = credentials u"
  using agrees_ref[OF assms, of "''user''"]
  by (simp add: credentials_def Let_def agrees_holds agrees_string)

lemma request_agrees: "agrees t u \<Longrightarrow> get_config_request t = get_config_request u"
  by (simp add: get_config_request_def agrees_string)

lemma request_credentials:
  "credentials (LTable (r # (''user'', login_table usr) # fs) []) =
     (if fst r = ''user'' then credentials (LTable [r] [])
      else Some (ul_login usr, ul_password usr, ul_rank usr))"
  by (cases r) (simp add: credentials_def login_table_def holds_def get_raw_of_ref Let_def)

lemma request_name: "get_config_request (LTable ((''request'', LString name) # fs) []) = name"
  by (simp add: get_config_request_def get_raw_of_ref)

lemma plain_text_safe: "plain_text s \<Longrightarrow> safe_string s"
  by (simp add: plain_text_def safe_string_def)

lemma process_text:
  fixes walk :: "(string \<times> 'c handler) list"
  assumes "walk_of walk requests" and "server_vm_ok exec" and "read_chunk chunk = Some fs"
    and "map_of requests (get_config_request (LTable fs [])) = Some (h :: 'c handler)"
  obtains config where "agrees config (LTable fs [])"
    and "process_request E d exec walk chunk c = h E d config c"
proof -
  obtain t where t: "exec chunk = Some t" "agrees t (LTable fs [])"
    using assms(2,3) unfolding server_vm_ok_def by blast
  with assms(4) have "process_request E d exec walk chunk c = h E d t c"
    by (simp add: process_request_cases[OF assms(1)] request_agrees[OF t(2)])
  with t(2) that show thesis by blast
qed

lemma read_message:
  assumes "client_vm_ok exec" and "plain_text msg"
  obtains fenv where "ParseAndGetResponse exec (make_response_str msg) = Some (fenv, msg)"
proof -
  have t: "agrees (exec (make_response_str msg)) (LTable [(''response'', LString msg)] [])"
    using assms(1) read_response[OF assms(2)] by (simp add: client_vm_ok_def)
  show thesis
    using that agrees_string[OF t, of "''response''"] by (simp add: ParseAndGetResponse_def get_raw_of_ref)
qed

lemma read_refused:
  assumes "client_vm_ok exec" and "r \<in> {bad_config, access_denied}"
  obtains fenv msg where "ParseAndGetResponse exec r = Some (fenv, msg)" and "msg \<noteq> ''success''"
proof -
  obtain msg where msg: "r = make_response_str msg" "msg \<noteq> ''success''" "plain_text msg"
  proof (cases "r = bad_config")
    case True
    then show thesis using that[of "''bad_config''"] by (simp add: bad_config_def plain_text_def one_line_def)
  next
    case False
    with assms(2) show thesis
      using that[of "''access_denied''"] by (simp add: access_denied_def plain_text_def one_line_def)
  qed
  then show thesis using that read_message[OF assms(1) msg(3)] by metis
qed

section \<open>Logging in\<close>

lemma auth_reply:
  assumes "safe_credentials config" and "credentials config = Some (l, p, r)"
    and "length l \<le> 64" and "length p \<le> 64" and "r \<in> {''Admin'', ''Employee'', ''Accountant''}"
  shows "\<exists>reply s'. auth E (session_driver cfg other ins) config s = (Value reply, s') \<and> s_db s' = s_db s \<and>
     (if CheckUserExists cfg l p r (s_db s) then reply = success else reply \<in> {bad_config, access_denied})"
proof (cases "CheckUserExists cfg l p r (s_db s)")
  case True
  with assms(2-5) have "authorised cfg config [''Admin'', ''Employee'', ''Accountant''] (s_db s)"
    by (simp add: authorised_def)
  from session.guarded_allowed[OF assms(1) plain_ranks_used(1) this, of E other ins "retM success"]
  show ?thesis using True unfolding auth_def by (auto simp: retM_def)
next
  case False
  with assms(2) have "\<not> authorised cfg config [''Admin'', ''Employee'', ''Accountant''] (s_db s)"
    by (simp add: authorised_def)
  from session.guarded_refused_exact[OF assms(1) plain_ranks_used(1) this, of E other ins "retM success"] False
  show ?thesis using assms(2-4) unfolding auth_def by (auto simp: refusals_def)
qed

text \<open>
  C14: Logging in, from the input fields to the panel: the client's text is cut and read by the server,
  the handler asks the database, the client reads the answer, and the panel of the chosen rank opens
  exactly when the database has an account with that login, password hash and rank; otherwise the
  only effect is a message box. The database is not changed.
\<close>

theorem login_opens_panel_iff_account:
  assumes "arg_ok arg" and "walk_of walk requests" and "server_vm_ok sexec" and "client_vm_ok cexec"
    and "plain_login (field_login hash w)" and "length (lw_login w) \<le> 64"
    and "length (hash (lw_password w)) \<le> 64" and "lw_rank w \<in> set rank_choices"
  shows "\<exists>reply s' w'.
     process_request E (session_driver cfg other ins) sexec walk (fst (getline CR (Auth arg (field_login hash w)))) s =
       (Value reply, s') \<and> s_db s' = s_db s \<and> receive_user_existance cexec hash reply w = Value w' \<and>
     (if CheckUserExists cfg (lw_login w) (hash (lw_password w)) (lw_rank w) (s_db s)
      then lw_panels w' = lw_panels w @ [the (panel_of (lw_rank w))] \<and> lw_closed w' \<and> lw_boxes w' = lw_boxes w
      else lw_panels w' = lw_panels w \<and> lw_closed w' = lw_closed w \<and> lw_boxes w' = lw_boxes w @ [Bad_info_box])"
proof -
  let ?usr = "field_login hash w"
  let ?fs = "[(''request'', LString ''auth''), (''user'', login_table ?usr)]"
  have plain: "plain_text ''auth''" "plain_text ''success''" by (simp_all add: plain_text_def one_line_def)
  have "fst (getline CR (Auth arg ?usr)) = ''request = 'auth' '' @ user_fields_text ?usr"
    using Auth_text[OF assms(1)] user_fields_no_CR[OF plain_login_user[OF assms(5)]]
      getline_CRLF[of "''request = 'auth' '' @ user_fields_text ?usr"] by (simp add: CR_def)
  then have chunk: "read_chunk (fst (getline CR (Auth arg ?usr))) = Some ?fs"
    using read_request[OF plain(1) assms(5)] by simp
  have "map_of requests (get_config_request (LTable ?fs [])) = Some (auth :: session handler)"
    by (simp add: request_name requests_def)
  from process_text[OF assms(2,3) chunk this, of E "session_driver cfg other ins" s] obtain config where
    config: "agrees config (LTable ?fs [])"
    "process_request E (session_driver cfg other ins) sexec walk (fst (getline CR (Auth arg ?usr))) s =
       auth E (session_driver cfg other ins) config s" by blast
  have cr: "credentials config = Some (lw_login w, hash (lw_password w), lw_rank w)"
    unfolding credentials_agrees[OF config(1)] request_credentials by (simp add: field_login_def)
  have "safe_credentials config"
    using assms(5) by (simp add: safe_credentials_def cr plain_login_def field_login_def plain_text_safe)
  moreover have rank: "lw_rank w \<in> {''Admin'', ''Employee'', ''Accountant''}"
    using assms(8) by (simp add: rank_choices_def)
  ultimately obtain reply s' where reply: "auth E (session_driver cfg other ins) config s = (Value reply, s')"
      "s_db s' = s_db s" "if CheckUserExists cfg (lw_login w) (hash (lw_password w)) (lw_rank w) (s_db s)
        then reply = success else reply \<in> {bad_config, access_denied}"
    using auth_reply[OF _ cr assms(6,7)] by blast
  show ?thesis
  proof (cases "CheckUserExists cfg (lw_login w) (hash (lw_password w)) (lw_rank w) (s_db s)")
    case True
    obtain fenv where "ParseAndGetResponse cexec success = Some (fenv, ''success'')"
      unfolding success_def by (rule read_message[OF assms(4) plain(2)])
    with True reply rank config(2) show ?thesis
      by (auto simp: receive_user_existance_def Let_def field_login_def panel_of_def)
  next
    case False
    with reply(3) obtain fenv msg where "ParseAndGetResponse cexec reply = Some (fenv, msg)" "msg \<noteq> ''success''"
      using read_refused[OF assms(4)] by metis
    with False reply config(2) show ?thesis by (simp add: receive_user_existance_def Let_def)
  qed
qed

section \<open>Deleting a customer\<close>

lemma lexed_assign:
  assumes "ident k" and "lexed t ts"
  shows "lexed (k @ '' = '' @ t) (T_name k # T_assign # ts)"
  using closed_lexed_append[OF closed_assign[OF assms(1) closed_Nil] assms(2)] by simp

lemma lexed_telephone:
  assumes "unat (tel :: 64 word) < 2 ^ 63"
  shows "lexed (show_nat (unat tel)) [T_int (sint tel)]" and "sint tel \<noteq> - (2 ^ 63)"
proof -
  have tel: "sint tel = int (unat tel)"
    using sint_of_small[OF assms] by simp
  have "int (unat tel) < int (2 ^ 63)" using assms by (simp only: of_nat_less_iff)
  then have "\<bar>int (unat tel)\<bar> < 2 ^ 63" by simp
  from lexed_int[OF this] show "lexed (show_nat (unat tel)) [T_int (sint tel)]"
    unfolding tel by (simp only: show_int_def nat_int) simp
  have "0 \<le> sint tel" unfolding tel by (rule of_nat_0_le_iff)
  then show "sint tel \<noteq> - (2 ^ 63)" by (intro notI) (simp only:, simp)
qed

lemma read_delete_request:
  assumes "plain_login usr" and "unat tel < 2 ^ 63"
  shows "read_chunk (''request = 'delete_user' '' @ user_fields_text usr @
      ''delete_customer_telephone = '' @ show_nat (unat tel)) =
     Some [(''request'', LString ''delete_user''), (''user'', login_table usr),
       (''delete_customer_telephone'', LInt tel)]"
proof -
  have "plain_text ''delete_user''" by (simp add: plain_text_def one_line_def)
  from closed_lexed_append[OF closed_request[OF this assms(1)]
      lexed_assign[OF field_idents(12) lexed_telephone(1)[OF assms(2)]]]
  have "lexed (''request = 'delete_user' '' @ user_fields_text usr @
      ''delete_customer_telephone = '' @ show_nat (unat tel))
    (concat (map statement_tokens [(''request'', LString ''delete_user''), (''user'', login_table usr),
       (''delete_customer_telephone'', LInt tel)]))"
    by (simp add: statement_tokens_def)
  then show ?thesis
    by (rule read_statements)
      (use assms printable_login_table lexed_telephone(2)[OF assms(2)] in \<open>auto simp: field_idents one_line_def\<close>)
qed

lemma delete_user_without_login:
  assumes "safe_credentials config" and "credentials config = Some (l, p, r)"
    and "length l \<le> 64" and "length p \<le> 64" and "get_raw_string config ''delete_user_login'' = None"
  shows "\<exists>reply s'. delete_user E (session_driver cfg other ins) config s = (Value reply, s') \<and>
     s_db s' = s_db s \<and> reply \<in> {bad_config, access_denied}"
proof -
  let ?d = "session_driver cfg other ins"
  let ?body = "try_bad_config (bindM (string_value E config ''delete_user_login'') (\<lambda>user_login.
      exec_always ?d (fmt ''CALL DeleteUser('{}');'' [user_login])))"
  have body: "?body c = (Value bad_config, c)" for c
    using assms(5) by (simp add: try_bad_config_def string_value_def catch_all_def outcome_simps)
  show ?thesis
  proof (cases "authorised cfg config [''Admin''] (s_db s)")
    case True
    obtain c1 where c1: "s_db c1 = s_db s" "guarded E ?d config [''Admin''] ?body s = ?body c1"
      by (rule session.guarded_allowed[OF assms(1) plain_ranks_used(2) True, of E other ins ?body])
    show ?thesis unfolding delete_user_def c1(2) body by (simp add: c1(1))
  next
    case False
    from session.guarded_refused_exact[OF assms(1) plain_ranks_used(2) this, of E other ins ?body]
    show ?thesis using assms(2-4) unfolding delete_user_def by (auto simp: refusals_def)
  qed
qed

text \<open>
  C17: The employee cannot delete a customer: the client's text asks for the request \<open>delete_user\<close> and
  does not name a login, so the server refuses it whoever asks, the database stays as it is, and
  the table of the client keeps the row and shows an error.
\<close>

theorem customer_never_deleted:
  assumes "arg_ok arg" and "walk_of walk requests" and "server_vm_ok sexec" and "client_vm_ok cexec"
    and "plain_login usr" and "length (ul_login usr) \<le> 64" and "length (ul_password usr) \<le> 64"
    and "unat tel < 2 ^ 63"
  shows "\<exists>reply s'.
     process_request E (session_driver cfg other ins) sexec walk (fst (getline CR (DeleteCustomer_request arg usr tel))) s =
       (Value reply, s') \<and> s_db s' = s_db s \<and>
     customer_removed cexec row reply m = Value (customers_emit [Error_signal Wrong_data] m)"
proof -
  let ?fs = "[(''request'', LString ''delete_user''), (''user'', login_table usr),
       (''delete_customer_telephone'', LInt tel)]"
  let ?m = "''request = 'delete_user' '' @ user_fields_text usr @ ''delete_customer_telephone = '' @ show_nat (unat tel)"
  have "CR \<notin> set ?m"
    using user_fields_no_CR[OF plain_login_user[OF assms(5)]] show_nat_digits[of CR "unat tel"]
    by (auto simp: CR_def is_digit_def)
  from getline_CRLF[OF this] have "fst (getline CR (DeleteCustomer_request arg usr tel)) = ?m"
    by (simp add: DeleteCustomer_text[OF assms(1)])
  then have chunk: "read_chunk (fst (getline CR (DeleteCustomer_request arg usr tel))) = Some ?fs"
    using read_delete_request[OF assms(5,8)] by simp
  have "map_of requests (get_config_request (LTable ?fs [])) = Some (delete_user :: session handler)"
    by (simp add: request_name requests_def)
  from process_text[OF assms(2,3) chunk this, of E "session_driver cfg other ins" s] obtain config where
    config: "agrees config (LTable ?fs [])"
    "process_request E (session_driver cfg other ins) sexec walk (fst (getline CR (DeleteCustomer_request arg usr tel))) s =
       delete_user E (session_driver cfg other ins) config s" by blast
  have cr: "credentials config = Some (ul_login usr, ul_password usr, ul_rank usr)"
    unfolding credentials_agrees[OF config(1)] request_credentials by simp
  have "safe_credentials config"
    using assms(5) by (simp add: safe_credentials_def cr plain_login_def plain_text_safe)
  moreover have "get_raw_string config ''delete_user_login'' = None"
    unfolding agrees_string[OF config(1)] by (simp add: get_raw_of_ref)
  ultimately obtain reply s' where reply: "delete_user E (session_driver cfg other ins) config s = (Value reply, s')"
      "s_db s' = s_db s" "reply \<in> {bad_config, access_denied}"
    using delete_user_without_login[OF _ cr assms(6,7)] by blast
  obtain fenv msg where "ParseAndGetResponse cexec reply = Some (fenv, msg)" "msg \<noteq> ''success''"
    by (rule read_refused[OF assms(4) reply(3)])
  with reply config(2) show ?thesis by (simp add: customer_removed_def)
qed

section \<open>Witnesses\<close>

definition amogus_window :: login_window where
  "amogus_window = LoginWindow\<lparr>lw_login := ''amogus'', lw_password := ''secret''\<rparr>"

definition amogus_login :: user_login where
  "amogus_login = field_login (\<lambda>p. pwd_amogus) amogus_window"

lemma requests_walk: "walk_of requests (requests :: (string \<times> session handler) list)"
  by (simp add: walk_of_def request_set_requests)

lemma amogus_plain: "plain_login (field_login (\<lambda>p. pwd_amogus) amogus_window)"
  by (simp add: plain_login_def field_login_def amogus_window_def LoginWindow_def plain_text_def
      one_line_def pwd_amogus_def)

lemma amogus_fields:
  "lw_login amogus_window = ''amogus''" "lw_rank amogus_window = ''Admin''" "length pwd_amogus = 64"
  "lw_panels amogus_window = []"
  by (simp_all add: amogus_window_def LoginWindow_def pwd_amogus_def)

theorem login_opens_panel_iff_account_witness:
  "\<exists>reply s' w'.
     process_request sample_env (session_driver sample_cfg sample_other no_id) sample_server_vm requests
       (fst (getline CR (Auth qarg amogus_login))) sample_session = (Value reply, s') \<and>
     receive_user_existance sample_client_vm (\<lambda>p. pwd_amogus) reply amogus_window = Value w' \<and>
     lw_panels w' = [Admin_panel]"
  using login_opens_panel_iff_account[OF arg_ok_qarg requests_walk sample_vms_ok amogus_plain, of
      sample_env sample_cfg sample_other no_id sample_session]
  by (auto simp: amogus_login_def amogus_fields rank_choices_def panel_of_def sample_admin_exists)

theorem customer_never_deleted_witness:
  "\<exists>reply s'.
     process_request sample_env (session_driver sample_cfg sample_other no_id) sample_server_vm requests
       (fst (getline CR (DeleteCustomer_request qarg amogus_login 123))) sample_session = (Value reply, s') \<and>
     s_db s' = sample_db \<and>
     customer_removed sample_client_vm 0 reply CustomersModel =
       Value (customers_emit [Error_signal Wrong_data] CustomersModel)"
  using customer_never_deleted[OF arg_ok_qarg requests_walk sample_vms_ok amogus_plain, of 123
      sample_env sample_cfg sample_other no_id sample_session 0 CustomersModel]
  by (simp add: amogus_login_def[symmetric]) (simp add: amogus_login_def field_login_def amogus_fields)

end
