(* ===== verification/Wire_Exchange.thy ===== *)
theory Wire_Exchange
  imports Account_Exchange Client_Connection
begin

text \<open>
  A whole exchange over the socket: \<open>ServerConnectionComplex\<close> with the slots of the connection
  (pc_course_client/Utils/ServerConnection.h and .cpp), and the replies of the server with the marker that
  \<open>WriteRespone\<close> appends, as they reach the models of the client in blocks of any sizes.
\<close>

section \<open>One exchange\<close>

text \<open>
  The state of a connection and what its signals have delivered to the two slots of the caller.
\<close>

record exchange =
  wait_result :: bool
  carried :: bool
  connection_state :: client_connection
  errors :: "nat list"

text \<open>
  The constructor, which only starts to connect, the wait, the write and the read. The write is made whether or
  not the wait was successful; \<open>None\<close>: the loop of the write does not end.
\<close>

definition ServerConnectionComplex ::
  "(string \<Rightarrow> 's \<Rightarrow> int \<times> 's) \<Rightarrow> bool \<Rightarrow> string \<Rightarrow> 's \<Rightarrow> (exchange \<times> 's) option" where
  "ServerConnectionComplex socket_write wait_res request s =
     (case Write_request socket_write request s of
        None \<Rightarrow> None
      | Some (ok, s') \<Rightarrow> Some (\<lparr>wait_result = wait_res, carried = ok, connection_state = Read, errors = []\<rparr>, s'))"

text \<open>The two slots of the socket: bytes to read, and an error, which forgets what has arrived so far.\<close>

datatype socket_event = Ready_read string | Error_occurred nat

definition exchange_event :: "q_index \<Rightarrow> string \<Rightarrow> socket_event \<Rightarrow> exchange \<Rightarrow> exchange" where
  "exchange_event index_of marker ev x = (case ev of
      Ready_read block \<Rightarrow> x\<lparr>connection_state := ready_read index_of marker block (connection_state x)\<rparr>
    | Error_occurred e \<Rightarrow> x\<lparr>connection_state := (connection_state x)\<lparr>input_message := []\<rparr>, errors := errors x @ [e]\<rparr>)"

definition exchange_events :: "q_index \<Rightarrow> string \<Rightarrow> socket_event list \<Rightarrow> exchange \<Rightarrow> exchange" where
  "exchange_events index_of marker evs x = foldl (\<lambda>x ev. exchange_event index_of marker ev x) x evs"

lemma exchange_blocks:
  "exchange_events index_of marker (map Ready_read bs) x =
     x\<lparr>connection_state := collect index_of marker bs (connection_state x)\<rparr>"
  by (induction bs arbitrary: x) (simp_all add: exchange_events_def collect_def exchange_event_def)

section \<open>Replies hold no end marker\<close>

lemma no_CR_quoted: "one_line s \<Longrightarrow> CR \<notin> set (std_quoted s)"
proof -
  have "CR \<notin> set (quoted_body s)" if "one_line s"
    using that by (induction s rule: quoted_body.induct) (auto simp: one_line_def CR_def)
  then show "one_line s \<Longrightarrow> CR \<notin> set (std_quoted s)"
    by (simp add: std_quoted_def) (simp add: CR_def)
qed

lemma no_CR_int: "CR \<notin> set (show_i64 i)"
  by (auto simp: show_i64_def CR_def is_digit_def dest!: show_int_chars)

lemma no_CR_tabs: "CR \<notin> set (write_tabs n)"
  by (simp add: write_tabs_def CR_def)

lemma no_CR_join: "(\<And>x. x \<in> set xs \<Longrightarrow> CR \<notin> set x) \<Longrightarrow> CR \<notin> set (join '',\<newline>'' xs)"
  by (induction "'',\<newline>''" xs rule: join.induct) (auto simp: CR_def)

lemma no_CR_ident: "ident n \<Longrightarrow> CR \<notin> set n"
  by (auto simp: ident_def list_all_iff CR_def name_char_def name_start_def is_digit_def)

lemma no_CR_printed:
  assumes "printable v" and "CR \<notin> set name"
  shows "CR \<notin> set (LuaConfSerialize E v name tabs)"
  using assms
proof (induction v arbitrary: name tabs rule: printable_induct)
  case (table fs arr)
  have "CR \<notin> set x" if "x \<in> set (printed_fields E fs tabs @ printed_items E arr tabs)" for x
    using that table(2,3) no_CR_ident by (auto simp: printed_fields_def printed_items_def)
  from no_CR_join[OF this] have "CR \<notin> set (join '',\<newline>'' (printed_fields E fs tabs @ printed_items E arr tabs))" .
  then show ?case
    using table(4) no_CR_tabs unfolding serialize_table by (simp add: CR_def)
qed (use no_CR_tabs no_CR_int no_CR_quoted in \<open>auto simp: CR_def\<close>)

lemma no_CR_listing:
  assumes "list_all printable its" and "ident name"
  shows "CR \<notin> set (listing E name its)"
proof -
  have "CR \<notin> set (LuaConfSerialize E (LTable [] its) name 0)"
    using assms no_CR_ident by (intro no_CR_printed) simp_all
  moreover have "CR \<notin> set success"
    by (simp add: success_def make_response_str_def) (simp add: CR_def)
  ultimately show ?thesis by (simp add: listing_def del: LuaConfSerialize.simps)
qed

lemma no_marker: "CR \<notin> set m \<Longrightarrow> \<not> holds_marker CRLF m"
  by (auto simp: holds_marker_split CRLF_def CR_def)

section \<open>The customers of the database in the table of the employee\<close>

lemma exchange_written:
  assumes "sink_ok socket_write sent"
  obtains x t' where "ServerConnectionComplex socket_write wait_res request t = Some (x, t')"
    and "connection_state x = Read" and "carried x \<longrightarrow> sent t' = sent t @ request"
proof -
  obtain b t' k where "write_loop socket_write request 0 (length request) t = Some (b, t')"
      "b \<longleftrightarrow> k = length request" "sent t' = sent t @ take k (drop 0 request)"
    using write_loop_delivers[OF assms, of 0 "length request" request t] by auto
  then show thesis
    using that by (auto simp: ServerConnectionComplex_def Write_request_def)
qed

lemma processed_get_customers:
  assumes "arg_ok arg" and "plain_login usr" and "walk_of walk requests" and "server_vm_ok sexec"
  obtains config where
    "process_request E (session_driver cfg other ins) sexec walk (fst (getline CR (GetCustomers_request arg usr))) s =
       get_customers E (session_driver cfg other ins) config s"
proof -
  let ?fs = "[(''request'', LString ''get_customers''), (''user'', login_table usr)]"
  have plain: "plain_text ''get_customers''" by (simp add: plain_text_def one_line_def)
  have "fst (getline CR (GetCustomers_request arg usr)) = ''request = 'get_customers' '' @ user_fields_text usr"
    using GetCustomers_text[OF assms(1)] user_fields_no_CR[OF plain_login_user[OF assms(2)]]
      getline_CRLF[of "''request = 'get_customers' '' @ user_fields_text usr"] by (simp add: CR_def)
  then have chunk: "read_chunk (fst (getline CR (GetCustomers_request arg usr))) = Some ?fs"
    using read_request[OF plain assms(2)] by simp
  have "map_of requests (get_config_request (LTable ?fs [])) = Some (get_customers :: session handler)"
    by (simp add: request_name requests_def)
  from process_text[OF assms(3,4) chunk this] that show thesis by blast
qed


lemma sample_listing:
  "length (listing sample_env ''customers''
     (map (item_of sample_env customers_fields [0, 1, 2, 3] \<circ> customer_cells) (customers sample_db))) < 1000"
proof -
  have "length (show_nat 123) = 3" "length (show_nat 456) = 3" "length (show_nat 789) = 3"
    by (simp_all add: show_nat.simps)
  then show ?thesis
    by (simp add: sample_db_eval listing_def success_def make_response_str_def item_of_def create_table_def
        customers_fields_def FieldAndType_def customer_cells_def cell_result_show_nat set_raw_def upd_field_def
        sample_env_def write_tabs_def std_quoted_def is_function_or_none_def holds_def show_i64_def show_int_def)
qed


end
