(* ===== verification/Request_Replay.thy ===== *)
theory Request_Replay
  imports Request_Properties
begin

text \<open>
  The operations a request makes on its database connection, one at a time. The handlers are functions
  of the driver, so the same handler can be run against a driver that has no database: it hands out
  answers from a list and records the first operation for which there is no answer. This makes every
  handler a sequence of operations, and \<open>replayed\<close> says that with the answers of a database it does
  what it does on that database.
\<close>

section \<open>Operations and answers\<close>

datatype db_op = Op_store string | Op_exec string | Op_start | Op_commit | Op_rollback

text \<open>What a connection knows after an operation: the result, the error text and the insert id.\<close>

record answer =
  got_result :: store_result
  got_ok :: bool
  got_error :: string
  got_id :: "64 word"

record waiting =
  answers_left :: "answer list"
  asks :: "db_op option"
  known_error :: string
  known_id :: "64 word"

definition no_result :: store_result where
  "no_result = \<lparr>sr_ok = False, sr_columns = [], sr_rows = []\<rparr>"

definition ask :: "db_op \<Rightarrow> waiting \<Rightarrow> waiting" where
  "ask opn c = (case answers_left c of
      [] \<Rightarrow> c\<lparr>asks := (case asks c of None \<Rightarrow> Some opn | Some first \<Rightarrow> Some first)\<rparr>
    | a # as \<Rightarrow> c\<lparr>answers_left := as, known_error := got_error a, known_id := got_id a\<rparr>)"

definition replay_driver :: "waiting driver" where
  "replay_driver = \<lparr>
     query_store = (\<lambda>t c. (case answers_left c of [] \<Rightarrow> no_result | a # as \<Rightarrow> got_result a, ask (Op_store t) c)),
     query_exec = (\<lambda>t c. (case answers_left c of [] \<Rightarrow> False | a # as \<Rightarrow> got_ok a, ask (Op_exec t) c)),
     query_store_next = (\<lambda>c. (False, c)),
     query_error = known_error,
     query_insert_id = known_id,
     field_num = (\<lambda>cols f. int (find_col cols f)),
     null_data = ''NULL'',
     tx_start = ask Op_start,
     tx_commit = ask Op_commit,
     tx_rollback = ask Op_rollback\<rparr>"

definition perform :: "'c driver \<Rightarrow> db_op \<Rightarrow> 'c \<Rightarrow> answer \<times> 'c" where
  "perform d opn c = (case (case opn of
        Op_store t \<Rightarrow> (case query_store d t c of (res, c') \<Rightarrow> (res, False, c'))
      | Op_exec t \<Rightarrow> (case query_exec d t c of (b, c') \<Rightarrow> (no_result, b, c'))
      | Op_start \<Rightarrow> (no_result, False, tx_start d c)
      | Op_commit \<Rightarrow> (no_result, False, tx_commit d c)
      | Op_rollback \<Rightarrow> (no_result, False, tx_rollback d c)) of
     (res, b, c') \<Rightarrow> (\<lparr>got_result = res, got_ok = b, got_error = query_error d c', got_id = query_insert_id d c'\<rparr>, c'))"

fun perform_all :: "'c driver \<Rightarrow> db_op list \<Rightarrow> 'c \<Rightarrow> answer list \<times> 'c" where
  "perform_all d [] c = ([], c)"
| "perform_all d (opn # opns) c = (case perform d opn c of (a, c1) \<Rightarrow>
     (case perform_all d opns c1 of (as, c2) \<Rightarrow> (a # as, c2)))"

definition waiting_for :: "'c driver \<Rightarrow> answer list \<Rightarrow> 'c \<Rightarrow> waiting" where
  "waiting_for d as c = \<lparr>answers_left = as, asks = None, known_error = query_error d c, known_id = query_insert_id d c\<rparr>"

lemma perform_all_append:
  "perform_all d (xs @ ys) c =
     (case perform_all d xs c of (as, c1) \<Rightarrow> (case perform_all d ys c1 of (bs, c2) \<Rightarrow> (as @ bs, c2)))"
  by (induction xs arbitrary: c) (simp_all split: prod.splits)

lemma length_perform_all: "perform_all d xs c = (as, c') \<Longrightarrow> length as = length xs"
  by (induction xs arbitrary: c as) (auto split: prod.splits)

section \<open>Replaying a handler\<close>

definition blocked :: "db_op \<Rightarrow> waiting \<Rightarrow> bool" where
  "blocked opn c \<longleftrightarrow> asks c = Some opn \<and> answers_left c = []"

text \<open>
  From every connection there is a list of operations such that: performing them leads where the
  effect leads, with their answers the replay has the same outcome, and with the answers of the
  first \<open>k\<close> only it asks for the next one. Once it asks it goes on asking for that.
\<close>

definition replays :: "'c driver \<Rightarrow> ('c, 'a) act \<Rightarrow> (waiting, 'a) act \<Rightarrow> db_op list \<Rightarrow> 'c \<Rightarrow> bool" where
  "replays d m w opns c \<longleftrightarrow> (case perform_all d opns c of (as, c') \<Rightarrow>
     snd (m c) = c' \<and>
     (\<forall>rest. w (waiting_for d (as @ rest) c) = (fst (m c), waiting_for d rest c')) \<and>
     (\<forall>k < length opns. blocked (opns ! k) (snd (w (waiting_for d (take k as) c)))))"

definition replayed :: "'c driver \<Rightarrow> ('c, 'a) act \<Rightarrow> (waiting, 'a) act \<Rightarrow> bool" where
  "replayed d m w \<longleftrightarrow> (\<forall>opn. maintains (blocked opn) w) \<and> (\<forall>c. \<exists>opns. replays d m w opns c)"

text \<open>Sequencing in one rule: what comes next depends on the outcome.\<close>

definition seqM :: "('c, 'a) act \<Rightarrow> ('a outcome \<Rightarrow> ('c, 'b) act) \<Rightarrow> ('c, 'b) act" where
  "seqM m k c = (case m c of (r, c') \<Rightarrow> k r c')"

definition stopM :: "'a outcome \<Rightarrow> ('c, 'a) act" where
  "stopM r c = (r, c)"

lemma replayed_stop: "replayed d (stopM r) (stopM r)"
  unfolding replayed_def
  by (intro conjI allI exI[of _ "[]"]) (simp_all add: within_def replays_def stopM_def)

lemma blocked_seq:
  assumes "\<And>opn. maintains (blocked opn) w" and "\<And>r opn. maintains (blocked opn) (k r)"
  shows "maintains (blocked opn) (seqM w k)"
    and "blocked opn (snd (w c)) \<Longrightarrow> blocked opn (snd (seqM w k c))"
proof -
  have w: "blocked opn (snd (w c)) \<Longrightarrow> blocked opn (snd (seqM w k c))" for c
    using withinD[OF assms(2)] by (cases "w c") (auto simp: seqM_def)
  then show "maintains (blocked opn) (seqM w k)"
    using withinD[OF assms(1)] by (auto simp: within_def)
  show "blocked opn (snd (w c)) \<Longrightarrow> blocked opn (snd (seqM w k c))" by (rule w)
qed

lemma replayed_seq:
  assumes "replayed d m w" and "\<And>r. replayed d (k r) (k' r)"
  shows "replayed d (seqM m k) (seqM w k')"
proof -
  have keep: "maintains (blocked opn) w" "maintains (blocked opn) (k' r)" for opn r
    using assms by (simp_all add: replayed_def)
  have "\<exists>opns. replays d (seqM m k) (seqM w k') opns c" for c
  proof -
    obtain xs where xs: "replays d m w xs c" using assms(1) by (auto simp: replayed_def)
    obtain as c1 where as: "perform_all d xs c = (as, c1)" by force
    obtain r where m: "m c = (r, c1)" using xs by (cases "m c") (simp add: replays_def as)
    obtain ys where ys: "replays d (k r) (k' r) ys c1" using assms(2) unfolding replayed_def by blast
    obtain bs c2 where bs: "perform_all d ys c1 = (bs, c2)" by force
    have len: "length as = length xs" "length bs = length ys"
      using length_perform_all[OF as] length_perform_all[OF bs] by simp_all
    have w: "w (waiting_for d (as @ rest) c) = (r, waiting_for d rest c1)" for rest
      using xs by (simp add: replays_def as m)
    have "blocked ((xs @ ys) ! n) (snd (seqM w k' (waiting_for d (take n (as @ bs)) c)))"
      if "n < length (xs @ ys)" for n
    proof (cases "n < length xs")
      case True
      with xs len have "blocked (xs ! n) (snd (w (waiting_for d (take n (as @ bs)) c)))"
        by (simp add: replays_def as)
      from blocked_seq(2)[OF keep this] True show ?thesis by (simp add: nth_append)
    next
      case False
      then have "take n (as @ bs) = as @ take (n - length xs) bs" by (simp add: len)
      moreover have "blocked (ys ! (n - length xs)) (snd (k' r (waiting_for d (take (n - length xs) bs) c1)))"
        using ys that False by (simp add: replays_def bs)
      ultimately show ?thesis using False by (simp add: nth_append seqM_def w)
    qed
    moreover have "snd (seqM m k c) = c2" "fst (seqM m k c) = fst (k r c1)"
      using ys by (simp_all add: seqM_def m replays_def bs)
    moreover have "k' r (waiting_for d (bs @ rest) c1) = (fst (k r c1), waiting_for d rest c2)" for rest
      using ys by (simp add: replays_def bs)
    ultimately have "replays d (seqM m k) (seqM w k') (xs @ ys) c"
      unfolding replays_def by (simp add: perform_all_append as bs seqM_def w m)
    then show ?thesis ..
  qed
  moreover have "maintains (blocked opn) (seqM w k')" for opn
    by (rule blocked_seq(1)) (rule keep)+
  ultimately show ?thesis unfolding replayed_def by blast
qed

section \<open>One rule per construct\<close>

named_theorems replay_intros "rules for the replay of an effect"

lemma as_stop:
  "retM v = stopM (Value v)" "throwM e = stopM (Throw e)" "assertM b = stopM (if b then Value () else Abort)"
  "valueM e x = stopM (case x of None \<Rightarrow> Throw e | Some v \<Rightarrow> Value v)"
  by (auto simp: fun_eq_iff retM_def throwM_def assertM_def valueM_def stopM_def split: option.split)

lemma as_seq:
  "bindM m f = seqM m (\<lambda>r. case r of Value v \<Rightarrow> f v | Throw e \<Rightarrow> stopM (Throw e) | Abort \<Rightarrow> stopM Abort
     | Diverge \<Rightarrow> stopM Diverge)"
  "catch_all m h = seqM m (\<lambda>r. case r of Throw e \<Rightarrow> h | Value v \<Rightarrow> stopM (Value v) | Abort \<Rightarrow> stopM Abort
     | Diverge \<Rightarrow> stopM Diverge)"
  "catch_std m h = seqM m (\<lambda>r. case r of Throw e \<Rightarrow> if e = Exn_other then stopM (Throw e) else h
     | Value v \<Rightarrow> stopM (Value v) | Abort \<Rightarrow> stopM Abort | Diverge \<Rightarrow> stopM Diverge)"
  by (auto simp: fun_eq_iff bindM_def catch_all_def catch_std_def seqM_def stopM_def
      split: prod.split outcome.split)

lemma replayed_outcome:
  assumes "\<And>v. replayed d (f v) (f' v)" and "\<And>e. replayed d (g e) (g' e)"
  shows "replayed d (case r of Value v \<Rightarrow> f v | Throw e \<Rightarrow> g e | Abort \<Rightarrow> stopM Abort | Diverge \<Rightarrow> stopM Diverge)
     (case r of Value v \<Rightarrow> f' v | Throw e \<Rightarrow> g' e | Abort \<Rightarrow> stopM Abort | Diverge \<Rightarrow> stopM Diverge)"
  using assms by (cases r) (simp_all add: replayed_stop)

lemma replayed_basic [replay_intros]:
  "replayed d (retM v) (retM v)" "replayed d (throwM e) (throwM e)" "replayed d (assertM b) (assertM b)"
  "replayed d (valueM e x) (valueM e x)"
  unfolding as_stop by (rule replayed_stop)+

lemma replayed_bind [replay_intros]:
  "replayed d m w \<Longrightarrow> (\<And>x. replayed d (f x) (g x)) \<Longrightarrow> replayed d (bindM m f) (bindM w g)"
  unfolding as_seq by (intro replayed_seq replayed_outcome replayed_stop)

lemma replayed_catch [replay_intros]:
  "replayed d m w \<Longrightarrow> replayed d h h' \<Longrightarrow> replayed d (catch_all m h) (catch_all w h')"
  "replayed d m w \<Longrightarrow> replayed d h h' \<Longrightarrow> replayed d (catch_std m h) (catch_std w h')"
  unfolding as_seq by (intro replayed_seq replayed_outcome replayed_stop; simp add: replayed_stop)+

lemma replayed_if [replay_intros]:
  "replayed d m w \<Longrightarrow> replayed d n v \<Longrightarrow> replayed d (if b then m else n) (if b then w else v)"
  by simp

lemma replayed_option [replay_intros]:
  "replayed d m w \<Longrightarrow> (\<And>x. replayed d (f x) (g x)) \<Longrightarrow>
     replayed d (case v of None \<Rightarrow> m | Some x \<Rightarrow> f x) (case v of None \<Rightarrow> w | Some x \<Rightarrow> g x)"
  by (cases v) auto

lemma replayed_sum [replay_intros]:
  "(\<And>x. replayed d (f x) (f' x)) \<Longrightarrow> (\<And>x. replayed d (g x) (g' x)) \<Longrightarrow>
     replayed d (case v of Inl x \<Rightarrow> f x | Inr x \<Rightarrow> g x) (case v of Inl x \<Rightarrow> f' x | Inr x \<Rightarrow> g' x)"
  by (cases v) auto

lemma blocked_ask: "blocked opn c \<Longrightarrow> blocked opn (ask opn' c)"
  by (auto simp: blocked_def ask_def)

text \<open>The operations themselves.\<close>

lemma ask_simps:
  "ask opn (waiting_for d [] c) = (waiting_for d [] c)\<lparr>asks := Some opn\<rparr>"
  "perform d opn c = (a, c') \<Longrightarrow> ask opn' (waiting_for d (a # as) c) = waiting_for d as c'"
  by (auto simp: ask_def waiting_for_def perform_def split: prod.splits)

lemma replayed_operation:
  assumes "\<And>c. w c = (v (answers_left c), ask opn c)"
    and "\<And>c a c'. perform d opn c = (a, c') \<Longrightarrow> m c = (v [a], c')" and "\<And>a as. v (a # as) = v [a]"
  shows "replayed d m w"
proof -
  have "replays d m w [opn] c" for c
  proof -
    obtain a c' where a: "perform d opn c = (a, c')" by force
    have "w (waiting_for d (a # rest) c) = (v [a], waiting_for d rest c')" for rest
      unfolding assms(1) ask_simps(2)[OF a] using assms(3) by (simp add: waiting_for_def)
    moreover have "blocked opn (snd (w (waiting_for d [] c)))"
      unfolding assms(1) ask_simps(1) by (simp add: blocked_def waiting_for_def)
    ultimately show ?thesis
      using assms(2)[OF a] by (simp add: replays_def a)
  qed
  moreover have "maintains (blocked opn') w" for opn'
    by (simp add: within_def assms(1) blocked_ask)
  ultimately show ?thesis unfolding replayed_def by blast
qed

lemma replayed_effects [replay_intros]:
  "replayed d (effect (tx_start d)) (effect (tx_start replay_driver))"
  "replayed d (effect (tx_commit d)) (effect (tx_commit replay_driver))"
  "replayed d (effect (tx_rollback d)) (effect (tx_rollback replay_driver))"
  by (rule replayed_operation[where v = "\<lambda>_. Value ()" and opn = Op_start]
      replayed_operation[where v = "\<lambda>_. Value ()" and opn = Op_commit]
      replayed_operation[where v = "\<lambda>_. Value ()" and opn = Op_rollback];
      auto simp: effect_def replay_driver_def perform_def)+

lemma replayed_reads [replay_intros]:
  "replayed d (readM (query_error d)) (readM (query_error replay_driver))"
  "replayed d (readM (query_insert_id d)) (readM (query_insert_id replay_driver))"
  unfolding replayed_def
  by (intro conjI allI exI[of _ "[]"];
      simp add: within_def replays_def readM_def replay_driver_def waiting_for_def)+

definition storeM :: "'c driver \<Rightarrow> string \<Rightarrow> ('c, store_result) act" where
  "storeM d t c = (case query_store d t c of (res, c') \<Rightarrow> (Value res, c'))"

definition execM :: "'c driver \<Rightarrow> string \<Rightarrow> ('c, bool) act" where
  "execM d t c = (case query_exec d t c of (b, c') \<Rightarrow> (Value b, c'))"

lemma invoke_steps:
  "invoke_store d t f = bindM (storeM d t) (\<lambda>res. bindM (f res) (\<lambda>v. bindM (drain d) (\<lambda>_. retM v)))"
  "invoke_exec d t g = bindM (execM d t) (\<lambda>res. bindM (g res) (\<lambda>v. bindM (drain d) (\<lambda>_. retM v)))"
  by (auto simp: fun_eq_iff invoke_store_def invoke_exec_def storeM_def execM_def bindM_def[of "storeM d t"]
      bindM_def[of "execM d t"] split: prod.split)

lemma replayed_queries:
  "replayed d (storeM d t) (storeM replay_driver t)" "replayed d (execM d t) (execM replay_driver t)"
proof -
  show "replayed d (storeM d t) (storeM replay_driver t)"
    by (rule replayed_operation[where opn = "Op_store t" and
          v = "\<lambda>as. Value (case as of [] \<Rightarrow> no_result | a # as \<Rightarrow> got_result a)"])
      (auto simp: storeM_def replay_driver_def perform_def split: prod.splits)
  show "replayed d (execM d t) (execM replay_driver t)"
    by (rule replayed_operation[where opn = "Op_exec t" and
          v = "\<lambda>as. Value (case as of [] \<Rightarrow> False | a # as \<Rightarrow> got_ok a)"])
      (auto simp: execM_def replay_driver_def perform_def split: prod.splits)
qed

section \<open>Every handler is replayed\<close>

text \<open>
  A driver whose results are those of one statement, with the columns found by name, as the
  session has it.
\<close>

locale replayable =
  fixes d :: "'c driver"
  assumes no_more: "query_store_next d c = (False, c)"
    and columns: "field_num d cols f = int (find_col cols f)"
    and null: "null_data d = ''NULL''"
begin

lemma drain_nothing: "drain d = retM ()" "drain replay_driver = retM ()"
  by (auto simp: fun_eq_iff drain_def no_more replay_driver_def while_option_unfold retM_def)

lemma replayed_invoke [replay_intros]:
  "(\<And>res. replayed d (f res) (g res)) \<Longrightarrow> replayed d (invoke_store d t f) (invoke_store replay_driver t g)"
  "(\<And>b. replayed d (f' b) (g' b)) \<Longrightarrow> replayed d (invoke_exec d t f') (invoke_exec replay_driver t g')"
  unfolding invoke_steps drain_nothing by (intro replay_intros replayed_queries; assumption)+

lemma same_columns:
  "field_num replay_driver = field_num d" "cell_data replay_driver x = cell_data d x"
  by (simp_all add: fun_eq_iff replay_driver_def columns cell_data_def null split: option.split)

lemma replayed_convert [replay_intros]: "replayed d (convert_cell E ty s) (convert_cell E ty s)"
  unfolding convert_cell_def
  by (cases ty; simp only: vm_type.case split_beta; intro replay_intros)

lemma replayed_fill_item [replay_intros]:
  "replayed d (fill_item E d row fis item) (fill_item E replay_driver row fis item)"
  by (induction fis arbitrary: item) (auto simp: same_columns intro!: replay_intros)

lemma replayed_fill_table [replay_intros]:
  "replayed d (fill_table E d fis rows t) (fill_table E replay_driver fis rows t)"
  by (induction rows arbitrary: t) (auto intro!: replay_intros)

lemma replayed_find_indices [replay_intros]:
  "replayed d (find_indices d res flds) (find_indices replay_driver res flds)"
  by (induction flds) (auto simp: same_columns Let_def intro!: replay_intros)

lemma replayed_serialize [replay_intros]:
  "replayed d (serialize_query_result E d res name flds) (serialize_query_result E replay_driver res name flds)"
  "replayed d (serialize_one_query_result E d res field) (serialize_one_query_result E replay_driver res field)"
  unfolding serialize_query_result_def serialize_one_query_result_def Let_def same_columns
  by (intro replay_intros)+

lemma replayed_reply_error [replay_intros]: "replayed d (reply_error d) (reply_error replay_driver)"
  unfolding reply_error_def by (intro replay_intros)

lemma replayed_rollback_reply [replay_intros]: "replayed d (rollback_reply d) (rollback_reply replay_driver)"
  unfolding rollback_reply_def by (intro replay_intros)

text \<open>The scope of a transaction object.\<close>

lemma with_transaction_seq:
  "with_transaction d' body = bindM (effect (tx_start d')) (\<lambda>_. seqM body (\<lambda>r. case r of
     Value p \<Rightarrow> if snd p then retM (fst p) else bindM (effect (tx_rollback d')) (\<lambda>_. retM (fst p))
   | Throw e \<Rightarrow> bindM (effect (tx_rollback d')) (\<lambda>_. throwM e) | Abort \<Rightarrow> stopM Abort | Diverge \<Rightarrow> stopM Diverge))"
  by (auto simp: fun_eq_iff with_transaction_def seqM_def outcome_simps stopM_def split: prod.split outcome.split)

lemma replayed_transaction [replay_intros]:
  "replayed d body body' \<Longrightarrow> replayed d (with_transaction d body) (with_transaction replay_driver body')"
  unfolding with_transaction_seq by (intro replay_intros replayed_seq replayed_outcome)

lemmas replay_defs = reply_error_def string_value_def int_value_def number_value_def store_reply_def
  exec_always_def exec_checked_def try_bad_config_def with_dates_def

lemma replayed_check [replay_intros]:
  "replayed d (check_user_existance E d config R) (check_user_existance E replay_driver config R)"
  unfolding check_user_existance_def string_value_def Let_def same_columns by (intro replay_intros)

lemma replayed_guarded [replay_intros]:
  "replayed d body body' \<Longrightarrow> replayed d (guarded E d config R body) (guarded E replay_driver config R body')"
  unfolding guarded_def by (intro replay_intros)

lemma replayed_collect_items [replay_intros]: "replayed d (collect_items E t is) (collect_items E t is)"
  by (induction "is") (auto simp: Let_def int_value_def intro!: replay_intros)

lemma replayed_add_ordered_items [replay_intros]:
  "replayed d (add_ordered_items d oid its) (add_ordered_items replay_driver oid its)"
  by (induction its) (auto intro!: replay_intros)

lemma replayed_order_transaction [replay_intros]:
  "replayed d (add_order_transaction d t e its) (add_order_transaction replay_driver t e its)"
  unfolding add_order_transaction_def by (intro replay_intros)

lemma replayed_handlers:
  "list_all2 (\<lambda>(n, h) (n', h'). n = n' \<and> replayed d (h E d config) (h' E replay_driver config)) requests requests"
  unfolding requests_def list.rel_inject prod.case guarded_handler_defs open_handler_defs replay_defs Let_def
  by (intro conjI replay_intros refl) simp

lemma list_all2_map_of:
  assumes "list_all2 (\<lambda>(n, h) (n', h'). n = n' \<and> R h h') xs ys"
  shows "rel_option R (map_of xs k) (map_of ys k)"
  using assms by (induction rule: list_all2_induct) auto

lemma replayed_process_request:
  assumes "walk_of walk requests" and "walk_of walk' requests"
  shows "replayed d (process_request E d exec walk msg) (process_request E replay_driver exec walk' msg)"
proof (cases "exec msg")
  case None
  then show ?thesis by (simp add: process_request_def parse_config_def replay_intros)
next
  case (Some config)
  show ?thesis
  proof (cases "get_config_request config = []")
    case True
    then show ?thesis by (simp add: process_request_def parse_config_def Some replay_intros)
  next
    case False
    let ?k = "get_config_request config"
    have "rel_option (\<lambda>h h'. replayed d (h E d config) (h' E replay_driver config))
        (find_request walk ?k) (find_request walk' ?k)"
      unfolding find_request_map_of walk_requests[OF assms(1)] walk_requests[OF assms(2)]
      by (rule list_all2_map_of[OF replayed_handlers])
    then show ?thesis
      using False by (cases rule: option.rel_cases)
        (simp_all add: process_request_def parse_config_def Some replay_intros)
  qed
qed

end

interpretation session_replay: replayable "session_driver cfg other ins"
  for cfg other ins
  by unfold_locales (simp_all add: session_driver_def)

end
