(* ===== verification/Request_Overlap.thy ===== *)
theory Request_Overlap
  imports Request_Replay Request_Answers
begin

text \<open>
  Requests of several threads that overlap. Each thread of the server has its own connection to the
  database (\<open>ThreadProperty\<close> in AsioDefs.hpp); between two operations of one request, operations of
  others may come. A step is one operation on the database. The operations of a transaction are
  not interleaved with those of other connections, as at the isolation level SERIALIZABLE.
\<close>

section \<open>The state\<close>

text \<open>A request being processed: its message, the time and what its connection knew when it began, and the answers so far.\<close>

record job =
  job_message :: string
  job_time :: int
  job_error :: string
  job_id :: "64 word"
  job_answers :: "answer list"

text \<open>The connection of a thread, and its job.\<close>

record link =
  link_saved :: "db option"
  link_error :: string
  link_id :: "64 word"
  link_job :: "job option"

record pool =
  pool_db :: db
  pool_now :: int
  links :: "link list"
  crashed :: bool
  answered :: "(string \<times> string) list"

record pool_setup =
  ps_env :: env
  ps_cfg :: sql_config
  ps_other :: "sql_error \<Rightarrow> string"
  ps_ins :: "db \<Rightarrow> db \<Rightarrow> 64 word"
  ps_exec :: "string \<Rightarrow> lua option"

definition session_at :: "nat \<Rightarrow> pool \<Rightarrow> session" where
  "session_at i p = \<lparr>s_db = pool_db p, s_saved = link_saved (links p ! i), s_error = link_error (links p ! i),
     s_insert_id = link_id (links p ! i), s_now = pool_now p\<rparr>"

definition put_session :: "nat \<Rightarrow> session \<Rightarrow> job option \<Rightarrow> pool \<Rightarrow> pool" where
  "put_session i s j p = p\<lparr>pool_db := s_db s, links := (links p)[i :=
     \<lparr>link_saved = s_saved s, link_error = s_error s, link_id = s_insert_id s, link_job = j\<rparr>]\<rparr>"

section \<open>The steps\<close>

text \<open>What the handler of a job does with the answers it has got.\<close>

definition job_run :: "pool_setup \<Rightarrow> job \<Rightarrow> string outcome \<times> waiting" where
  "job_run P j = process_request (ps_env P\<lparr>clock := job_time j\<rparr>) replay_driver (ps_exec P) requests (job_message j)
     \<lparr>answers_left = job_answers j, asks = None, known_error = job_error j, known_id = job_id j\<rparr>"

definition pool_driver :: "pool_setup \<Rightarrow> session driver" where
  "pool_driver P = session_driver (ps_cfg P) (ps_other P) (ps_ins P)"

definition begin_job :: "nat \<Rightarrow> string \<Rightarrow> int \<Rightarrow> pool \<Rightarrow> pool" where
  "begin_job i m t p = put_session i (session_at i p) (Some \<lparr>job_message = m, job_time = t,
     job_error = link_error (links p ! i), job_id = link_id (links p ! i), job_answers = []\<rparr>) p"

inductive overlap_step :: "pool_setup \<Rightarrow> pool \<Rightarrow> pool \<Rightarrow> bool" for P where
  receive: "\<not> crashed p \<Longrightarrow> i < length (links p) \<Longrightarrow> link_job (links p ! i) = None \<Longrightarrow> overlap_step P p (begin_job i m t p)"
| operate: "\<not> crashed p \<Longrightarrow> i < length (links p) \<Longrightarrow> link_job (links p ! i) = Some j \<Longrightarrow>
     asks (snd (job_run P j)) = Some opn \<Longrightarrow>
     (\<And>k. k < length (links p) \<Longrightarrow> k \<noteq> i \<Longrightarrow> link_saved (links p ! k) = None) \<Longrightarrow>
     perform (pool_driver P) opn (session_at i p) = (a, s) \<Longrightarrow>
     overlap_step P p (put_session i s (Some (j\<lparr>job_answers := job_answers j @ [a]\<rparr>)) p)"
| respond: "\<not> crashed p \<Longrightarrow> i < length (links p) \<Longrightarrow> link_job (links p ! i) = Some j \<Longrightarrow>
     job_run P j = (Value reply, c) \<Longrightarrow> asks c = None \<Longrightarrow>
     overlap_step P p ((put_session i (session_at i p) None p)\<lparr>answered := answered p @ [(job_message j, reply)]\<rparr>)"
| crash: "\<not> crashed p \<Longrightarrow> i < length (links p) \<Longrightarrow> link_job (links p ! i) = Some j \<Longrightarrow>
     job_run P j = (r, c) \<Longrightarrow> asks c = None \<Longrightarrow> \<not> (\<exists>reply. r = Value reply) \<Longrightarrow>
     overlap_step P p (p\<lparr>crashed := True\<rparr>)"
| time: "\<not> crashed p \<Longrightarrow> pool_now p \<le> now \<Longrightarrow> overlap_step P p (p\<lparr>pool_now := now\<rparr>)"

inductive_cases overlap_stepE: "overlap_step P p p'"

section \<open>The database stays in order\<close>

text \<open>What a job asks for is a statement of the server.\<close>

definition asks_statement :: "waiting \<Rightarrow> bool" where
  "asks_statement c \<longleftrightarrow> (case asks c of Some (Op_store t) \<Rightarrow> statement t | Some (Op_exec t) \<Rightarrow> statement t | _ \<Rightarrow> True)"

lemma asks_statement_ask:
  "asks_statement c \<Longrightarrow> (case opn of Op_store t \<Rightarrow> statement t | Op_exec t \<Rightarrow> statement t | _ \<Rightarrow> True) \<Longrightarrow>
     asks_statement (ask opn c)"
  by (cases "asks c") (auto simp: asks_statement_def ask_def split: list.split)

interpretation replay_statements: driver_invariant replay_driver asks_statement
proof unfold_locales
  fix c
  show "asks_statement c \<Longrightarrow> asks_statement (snd (drain replay_driver c))"
    using session_replay.drain_nothing(2) by (simp add: retM_def)
qed (simp_all add: replay_driver_def asks_statement_ask)

lemma job_asks_statement:
  assumes "asks (snd (job_run P j)) = Some opn"
  shows "case opn of Op_store t \<Rightarrow> statement t | Op_exec t \<Rightarrow> statement t | _ \<Rightarrow> True"
proof -
  have "walk_of requests requests" by (simp add: walk_of_def request_set_requests)
  from withinD[OF replay_statements.maintains_process_request[OF this]]
  have "asks_statement (snd (job_run P j))"
    by (simp add: job_run_def asks_statement_def)
  then show ?thesis by (cases opn) (simp_all add: asks_statement_def assms)
qed

lemma perform_ok:
  assumes "session_ok (ps_cfg P) s" and "perform (pool_driver P) opn s = (a, s')"
    and "case opn of Op_store t \<Rightarrow> statement t | Op_exec t \<Rightarrow> statement t | _ \<Rightarrow> True"
  shows "session_ok (ps_cfg P) s'"
proof (cases opn)
  case (Op_store t)
  then have "session_ok (ps_cfg P) (snd (query_store (pool_driver P) t s))"
    unfolding pool_driver_def using session_keeps.store_inv[OF assms(1)] assms(3) by simp
  then show ?thesis using assms(2) by (simp add: perform_def Op_store split: prod.splits)
next
  case (Op_exec t)
  then have "session_ok (ps_cfg P) (snd (query_exec (pool_driver P) t s))"
    unfolding pool_driver_def using session_keeps.exec_inv[OF assms(1)] assms(3) by simp
  then show ?thesis using assms(2) by (simp add: perform_def Op_exec split: prod.splits)
qed (use assms(1,2) session_keeps.start_inv session_keeps.commit_inv session_keeps.rollback_inv in
    \<open>simp_all add: perform_def pool_driver_def\<close>, blast+)

definition tables_ok :: "sql_config \<Rightarrow> db \<Rightarrow> bool" where
  "tables_ok cfg db \<longleftrightarrow> db_inv cfg db \<and> names_ok db"

lemma session_ok_tables:
  "session_ok cfg s \<longleftrightarrow> tables_ok cfg (s_db s) \<and> (\<forall>old. s_saved s = Some old \<longrightarrow> tables_ok cfg old)"
  by (auto simp: session_ok_def session_inv_def tables_ok_def)

definition pool_ok :: "pool_setup \<Rightarrow> pool \<Rightarrow> bool" where
  "pool_ok P p \<longleftrightarrow> tables_ok (ps_cfg P) (pool_db p) \<and>
     (\<forall>l \<in> set (links p). \<forall>old. link_saved l = Some old \<longrightarrow> tables_ok (ps_cfg P) old)"

lemma pool_ok_session: "pool_ok P p \<Longrightarrow> i < length (links p) \<Longrightarrow> session_ok (ps_cfg P) (session_at i p)"
  by (auto simp: pool_ok_def session_ok_tables session_at_def)

lemma pool_ok_put:
  assumes "pool_ok P p" and "session_ok (ps_cfg P) s"
  shows "pool_ok P (put_session i s j p)"
  using assms by (auto simp: pool_ok_def session_ok_tables put_session_def dest!: subsetD[OF set_update_subset_insert])

lemma overlap_step_ok:
  assumes "overlap_step P p p'" and "pool_ok P p"
  shows "pool_ok P p'"
  using assms(1)
proof cases
  case (receive i m t)
  then show ?thesis
    using assms(2) by (simp add: begin_job_def pool_ok_put pool_ok_session)
next
  case (operate i j opn a s)
  have "session_ok (ps_cfg P) s"
    using pool_ok_session[OF assms(2) operate(3)] operate(7) job_asks_statement[OF operate(5)] by (rule perform_ok)
  then show ?thesis
    unfolding operate(1) using assms(2) by (intro pool_ok_put)
next
  case (respond i j reply c)
  have "pool_ok P (put_session i (session_at i p) None p)"
    using assms(2) respond(3) by (intro pool_ok_put pool_ok_session)
  then show ?thesis by (simp add: respond(1) pool_ok_def)
qed (use assms(2) in \<open>simp_all add: pool_ok_def\<close>)

text \<open>The threads at the start, each with its own connection.\<close>

definition Idle_pool :: "nat \<Rightarrow> session \<Rightarrow> pool" where
  "Idle_pool n s = \<lparr>pool_db = s_db s, pool_now = s_now s, links = replicate n
     \<lparr>link_saved = None, link_error = s_error s, link_id = s_insert_id s, link_job = None\<rparr>, crashed = False, answered = []\<rparr>"

interpretation overlapping: invariant_system "\<lambda>p. \<exists>n s. p = Idle_pool n s \<and> tables_ok (ps_cfg P) (s_db s)"
  "overlap_step P" "pool_ok P" for P
proof unfold_locales
  show "pool_ok P p" if "\<exists>n s. p = Idle_pool n s \<and> tables_ok (ps_cfg P) (s_db s)" for p
    using that by (auto simp: Idle_pool_def pool_ok_def)
qed (rule overlap_step_ok)


text \<open>Two threads; the second one takes the administrator's request for the accounts.\<close>

definition day_pool :: pool_setup where
  "day_pool = \<lparr>ps_env = sample_env, ps_cfg = day_cfg, ps_other = sample_other, ps_ins = no_id,
     ps_exec = (\<lambda>m. Some (admin_request [(''request'', LString ''get_users'')]))\<rparr>"


section \<open>One request alone\<close>

lemma perform_now: "perform (pool_driver P) opn s = (a, s') \<Longrightarrow> s_now s' = s_now s"
  by (cases opn) (auto simp: perform_def pool_driver_def session_driver_def session_run_def
      split: prod.splits option.splits sum.splits)

lemma perform_all_now: "perform_all (pool_driver P) opns s = (as, s') \<Longrightarrow> s_now s' = s_now s"
  by (induction opns arbitrary: s as) (auto split: prod.splits dest: perform_now)

lemma perform_all_take:
  assumes "perform_all d opns c = (as, c')" and "k < length opns" and "perform_all d (take k opns) c = (bs, c1)"
  shows "bs = take k as \<and> (\<exists>a c2. perform d (opns ! k) c1 = (a, c2) \<and>
     perform_all d (take (Suc k) opns) c = (take (Suc k) as, c2))"
proof -
  obtain a c2 where a: "perform d (opns ! k) c1 = (a, c2)" by force
  have suc: "perform_all d (take (Suc k) opns) c = (bs @ [a], c2)"
    using assms(2,3) by (simp add: take_Suc_conv_app_nth perform_all_append a)
  obtain ds c3 where "perform_all d (drop (Suc k) opns) c2 = (ds, c3)" by force
  then have "as = (bs @ [a]) @ ds"
    using assms(1) perform_all_append[of d "take (Suc k) opns" "drop (Suc k) opns" c] by (simp add: suc)
  moreover have "length bs = k" using length_perform_all[OF assms(3)] assms(2) by simp
  ultimately show ?thesis using a suc by simp
qed

definition fresh_job :: "string \<Rightarrow> int \<Rightarrow> session \<Rightarrow> answer list \<Rightarrow> job" where
  "fresh_job m t s as = \<lparr>job_message = m, job_time = t, job_error = s_error s, job_id = s_insert_id s, job_answers = as\<rparr>"

lemma fresh_job_run:
  "job_run P (fresh_job m t s as) = process_request (ps_env P\<lparr>clock := t\<rparr>) replay_driver (ps_exec P) requests m
     (waiting_for (pool_driver P) as s)"
  by (simp add: job_run_def fresh_job_def waiting_for_def pool_driver_def session_driver_def)

lemma session_put: "i < length (links p) \<Longrightarrow> s_now s = pool_now p \<Longrightarrow> session_at i (put_session i s j p) = s"
  by (simp add: session_at_def put_session_def)

lemma put_put: "put_session i s j (put_session i s1 j1 p) = put_session i s j p"
  by (simp add: put_session_def)

lemma put_session_same:
  assumes "i < length (links p)" and "link_job (links p ! i) = j"
  shows "put_session i (session_at i p) j p = p"
proof -
  have "\<lparr>link_saved = link_saved (links p ! i), link_error = link_error (links p ! i), link_id = link_id (links p ! i),
      link_job = j\<rparr> = links p ! i"
    by (rule link.equality) (simp_all add: assms(2))
  then show ?thesis by (simp add: put_session_def session_at_def)
qed

lemma operations_from:
  assumes "\<not> crashed p" and i: "i < length (links p)"
    and alone: "\<And>k. k < length (links p) \<Longrightarrow> k \<noteq> i \<Longrightarrow> link_saved (links p ! k) = None"
    and asked: "\<And>k. k < length opns \<Longrightarrow>
      asks (snd (job_run P (j\<lparr>job_answers := job_answers j @ take k as\<rparr>))) = Some (opns ! k)"
    and now: "s_now s = pool_now p"
    and as: "perform_all (pool_driver P) opns s = (as, s')" and "n \<le> length opns"
    and bs: "perform_all (pool_driver P) (take n opns) s = (bs, s1)"
  shows "(overlap_step P)\<^sup>*\<^sup>* (put_session i s (Some j) p)
     (put_session i s1 (Some (j\<lparr>job_answers := job_answers j @ bs\<rparr>)) p)"
  using assms(7,8)
proof (induction n arbitrary: bs s1)
  case (Suc n)
  obtain cs s2 where cs: "perform_all (pool_driver P) (take n opns) s = (cs, s2)" by force
  from perform_all_take[OF as _ cs] Suc.prems obtain a where a: "perform (pool_driver P) (opns ! n) s2 = (a, s1)"
    and b: "cs = take n as" "bs = take (Suc n) as" by auto
  let ?j = "j\<lparr>job_answers := job_answers j @ cs\<rparr>"
  let ?p = "put_session i s2 (Some ?j) p"
  have links: "links ?p ! i = \<lparr>link_saved = s_saved s2, link_error = s_error s2, link_id = s_insert_id s2,
      link_job = Some ?j\<rparr>" "length (links ?p) = length (links p)"
    using i by (simp_all add: put_session_def)
  have "asks (snd (job_run P ?j)) = Some (opns ! n)"
    using asked[of n] Suc.prems(1) by (simp add: b(1))
  moreover have "session_at i ?p = s2"
    using session_put[OF i] perform_all_now[OF cs] now by simp
  moreover have "link_saved (links ?p ! k) = None" if "k < length (links ?p)" "k \<noteq> i" for k
    using alone[of k] that by (simp add: put_session_def)
  moreover have "\<not> crashed ?p" using assms(1) by (simp add: put_session_def)
  ultimately have "overlap_step P ?p (put_session i s1 (Some (?j\<lparr>job_answers := job_answers ?j @ [a]\<rparr>)) ?p)"
    using i a by (intro overlap_step.operate) (simp_all add: links)
  moreover have "length cs = n" using length_perform_all[OF cs] Suc.prems(1) by simp
  then have "bs = cs @ [a]"
    using perform_all_append[of "pool_driver P" "take n opns" "[opns ! n]" s] Suc.prems
    by (simp add: take_Suc_conv_app_nth cs a)
  ultimately have "overlap_step P ?p (put_session i s1 (Some (j\<lparr>job_answers := job_answers j @ bs\<rparr>)) p)"
    by (simp add: put_put)
  with Suc.IH[OF _ cs] Suc.prems(1) show ?case by simp
qed simp

lemma operations_all:
  assumes "\<not> crashed p" and "i < length (links p)"
    and "\<And>k. k < length (links p) \<Longrightarrow> k \<noteq> i \<Longrightarrow> link_saved (links p ! k) = None"
    and "\<And>k. k < length opns \<Longrightarrow>
      asks (snd (job_run P (j\<lparr>job_answers := job_answers j @ take k as\<rparr>))) = Some (opns ! k)"
    and "s_now s = pool_now p" and "perform_all (pool_driver P) opns s = (as, s')"
  shows "(overlap_step P)\<^sup>*\<^sup>* (put_session i s (Some j) p) (put_session i s' (Some (j\<lparr>job_answers := job_answers j @ as\<rparr>)) p)"
  using operations_from[OF assms(1-5,6) order_refl, of as s'] assms(6) by simp

lemma request_alone:
  assumes "\<not> crashed p" and "i < length (links p)" and "link_job (links p ! i) = None"
    and "\<And>k. k < length (links p) \<Longrightarrow> k \<noteq> i \<Longrightarrow> link_saved (links p ! k) = None"
    and "walk_of walk requests"
    and "process_request (ps_env P\<lparr>clock := t\<rparr>) (pool_driver P) (ps_exec P) walk msg (session_at i p) = (Value reply, s')"
  shows "\<exists>p'. (overlap_step P)\<^sup>*\<^sup>* p p' \<and> session_at i p' = s' \<and> answered p' = answered p @ [(msg, reply)] \<and>
     link_job (links p' ! i) = None \<and> (\<forall>k < length (links p). k \<noteq> i \<longrightarrow> links p' ! k = links p ! k) \<and>
     \<not> crashed p' \<and> length (links p') = length (links p)"
proof -
  let ?s = "session_at i p"
  let ?w = "process_request (ps_env P\<lparr>clock := t\<rparr>) replay_driver (ps_exec P) requests msg"
  have "walk_of (requests :: (string \<times> waiting handler) list) requests"
    by (simp add: walk_of_def request_set_requests)
  from session_replay.replayed_process_request[OF assms(5) this]
  obtain opns where r: "replays (pool_driver P) (process_request (ps_env P\<lparr>clock := t\<rparr>) (pool_driver P) (ps_exec P)
      walk msg) ?w opns ?s"
    unfolding pool_driver_def replayed_def by blast
  obtain as s1 where as: "perform_all (pool_driver P) opns ?s = (as, s1)" by force
  have s1: "s1 = s'" using r by (simp add: replays_def as assms(6))
  have now: "s_now ?s = pool_now p" by (simp add: session_at_def)
  let ?p1 = "put_session i s' (Some (fresh_job msg t ?s as)) p"
  let ?p2 = "(put_session i (session_at i ?p1) None ?p1)\<lparr>answered := answered ?p1 @ [(msg, reply)]\<rparr>"
  have "overlap_step P p (begin_job i msg t p)"
    using assms(1-3) by (rule overlap_step.receive)
  moreover have "begin_job i msg t p = put_session i ?s (Some (fresh_job msg t ?s [])) p"
    by (simp add: begin_job_def fresh_job_def session_at_def)
  moreover have "(overlap_step P)\<^sup>*\<^sup>* (put_session i ?s (Some (fresh_job msg t ?s [])) p) ?p1"
  proof -
    have "asks (snd (job_run P (fresh_job msg t ?s (take k as)))) = Some (opns ! k)" if "k < length opns" for k
      using r that unfolding fresh_job_run by (simp add: replays_def as blocked_def)
    then show ?thesis
      using operations_all[where j = "fresh_job msg t ?s []", OF assms(1,2,4) _ now as] s1 by (simp add: fresh_job_def)
  qed
  moreover have "overlap_step P ?p1 ?p2"
  proof -
    have "job_run P (fresh_job msg t ?s as) = (Value reply, waiting_for (pool_driver P) [] s')"
      using r unfolding fresh_job_run by (simp add: replays_def as assms(6)) (metis append_Nil2 fst_conv)
    moreover have "asks (waiting_for (pool_driver P) [] s') = None"
      by (simp add: waiting_for_def)
    moreover have "\<not> crashed ?p1" "i < length (links ?p1)"
      "link_job (links ?p1 ! i) = Some (fresh_job msg t ?s as)"
      using assms(1,2) by (simp_all add: put_session_def)
    ultimately have "overlap_step P ?p1 ((put_session i (session_at i ?p1) None ?p1)
        \<lparr>answered := answered ?p1 @ [(job_message (fresh_job msg t ?s as), reply)]\<rparr>)"
      using overlap_step.respond by blast
    then show ?thesis by (simp add: fresh_job_def)
  qed
  ultimately have "(overlap_step P)\<^sup>*\<^sup>* p ?p2"
    by (metis (no_types, lifting) converse_rtranclp_into_rtranclp rtranclp.rtrancl_into_rtrancl)
  moreover have "session_at i ?p1 = s'"
    using session_put[OF assms(2)] perform_all_now[OF as] s1 now by simp
  then have "session_at i ?p2 = s'"
    using assms(2) by (simp add: put_put session_at_def put_session_def)
  ultimately show ?thesis
    using assms(1,2) by (intro exI[of _ ?p2]) (simp add: put_session_def)
qed

text \<open>
  C9: A request that no other one overlaps does, operation by operation, what \<open>ProcessRequest\<close> does as a
  whole: the same reply and the same effect on the database and its connection, the other threads
  untouched.
\<close>

theorem overlap_alone:
  assumes "\<not> crashed p" and "i < length (links p)" and "link_job (links p ! i) = None"
    and "\<And>k. k < length (links p) \<Longrightarrow> k \<noteq> i \<Longrightarrow> link_saved (links p ! k) = None"
    and "walk_of walk requests"
    and "process_request (ps_env P\<lparr>clock := t\<rparr>) (pool_driver P) (ps_exec P) walk msg (session_at i p) = (Value reply, s')"
  shows "\<exists>p'. (overlap_step P)\<^sup>*\<^sup>* p p' \<and> session_at i p' = s' \<and> answered p' = answered p @ [(msg, reply)] \<and>
     link_job (links p' ! i) = None \<and> (\<forall>k < length (links p). k \<noteq> i \<longrightarrow> links p' ! k = links p ! k)"
  using request_alone[OF assms] by blast

theorem overlap_alone_witness:
  "\<exists>p' reply. (overlap_step day_pool)\<^sup>*\<^sup>* (Idle_pool 2 done_session) p' \<and> answered p' = [([], reply)]"
proof -
  let ?p = "Idle_pool 2 done_session"
  have at: "session_at 1 ?p = done_session"
    by (simp add: Idle_pool_def session_at_def done_session_def)
  have "walk_of (requests :: (string \<times> session handler) list) requests"
    by (simp add: walk_of_def request_set_requests)
  moreover have "get_config_request (admin_request [(''request'', LString ''get_users'')]) = ''get_users''"
    by (simp add: get_config_request_def get_raw_string_def get_raw_of_ref)
  then have "fits_int i" if "ps_exec day_pool [] = Some config"
    "get_config_request config = ''get_order_items''" for config i
    using that by (auto simp: day_pool_def)
  ultimately obtain reply s' where "process_request sample_env (session_driver day_cfg sample_other no_id)
      (ps_exec day_pool) requests [] done_session = (Value reply, s')"
    using message_reply[OF _ sample_order_ok sample_reads _ done_names done_inv day_cfg_ok, of requests "ps_exec day_pool" "[]"]
    by (force simp: day_pool_def sample_env_def)
  then have "process_request (ps_env day_pool\<lparr>clock := clock sample_env\<rparr>) (pool_driver day_pool) (ps_exec day_pool)
      requests [] (session_at 1 ?p) = (Value reply, s')"
    unfolding at by (simp add: day_pool_def pool_driver_def)
  from overlap_alone[OF _ _ _ _ _ this]
  obtain p' where "(overlap_step day_pool)\<^sup>*\<^sup>* ?p p'" "answered p' = answered ?p @ [([], reply)]"
    by (auto simp: Idle_pool_def walk_of_def request_set_requests nth_Cons')
  then show ?thesis by (auto simp: Idle_pool_def)
qed

end
