(* ===== verification/Request_Race.thy ===== *)
theory Request_Race
  imports Request_Overlap
begin

text \<open>
  What comes between the check of the account and the change. The two are separate operations of a
  handler, and a change is not in one transaction with its check, so requests of other threads can come
  in between.
\<close>

section \<open>A handler after its check\<close>

lemma waiting_for_session:
  "s_error c = s_error c' \<Longrightarrow> s_insert_id c = s_insert_id c' \<Longrightarrow>
     waiting_for (pool_driver P) as c = waiting_for (pool_driver P) as c'"
  by (simp add: waiting_for_def pool_driver_def session_driver_def)

lemma put_session_links:
  assumes "i < length (links p)"
  shows "links (put_session i s j p) ! i = \<lparr>link_saved = s_saved s, link_error = s_error s, link_id = s_insert_id s, link_job = j\<rparr>"
    and "k \<noteq> i \<Longrightarrow> links (put_session i s j p) ! k = links p ! k"
    and "length (links (put_session i s j p)) = length (links p)" and "crashed (put_session i s j p) = crashed p"
    and "pool_now (put_session i s j p) = pool_now p" and "answered (put_session i s j p) = answered p"
    and "pool_db (put_session i s j p) = s_db s"
  using assms by (simp_all add: put_session_def)

text \<open>The pool is ready for the operations of thread \<open>i\<close>: it runs, and no other thread has a transaction.\<close>

definition ready :: "nat \<Rightarrow> pool \<Rightarrow> bool" where
  "ready i p \<longleftrightarrow> \<not> crashed p \<and> i < length (links p) \<and>
     (\<forall>k < length (links p). k \<noteq> i \<longrightarrow> link_saved (links p ! k) = None)"

text \<open>The job does from here on what the body does, begun on the given session.\<close>

definition checked_job :: "pool_setup \<Rightarrow> (waiting, string) act \<Rightarrow> session \<Rightarrow> job \<Rightarrow> bool" where
  "checked_job P b c j \<longleftrightarrow> (\<forall>bs. job_run P (j\<lparr>job_answers := job_answers j @ bs\<rparr>) =
     b (waiting_for (pool_driver P) bs c))"

lemma check_phase:
  assumes "ready i p" and "link_job (links p ! i) = None"
    and run: "process_request (ps_env P\<lparr>clock := t\<rparr>) replay_driver (ps_exec P) requests msg =
      guarded (ps_env P\<lparr>clock := t\<rparr>) replay_driver config R b"
    and b: "\<And>opn. maintains (blocked opn) b"
    and check: "check_user_existance (ps_env P\<lparr>clock := t\<rparr>) (pool_driver P) config R (session_at i p) = (Value [], c1)"
  shows "\<exists>j. (overlap_step P)\<^sup>*\<^sup>* p (put_session i c1 (Some j) p) \<and> checked_job P b c1 j \<and> job_message j = msg"
proof -
  let ?s = "session_at i p" and ?E = "ps_env P\<lparr>clock := t\<rparr>" and ?d = "pool_driver P"
  let ?check = "check_user_existance ?E replay_driver config R"
  have guard: "guarded ?E replay_driver config R b = seqM ?check (\<lambda>r. case r of
      Value str \<Rightarrow> if str \<noteq> [] then retM str else b | Throw e \<Rightarrow> stopM (Throw e) | Abort \<Rightarrow> stopM Abort | Diverge \<Rightarrow> stopM Diverge)"
    unfolding guarded_def as_seq ..
  have "replayed ?d (check_user_existance ?E ?d config R) ?check"
    unfolding pool_driver_def by (rule session_replay.replayed_check)
  then obtain xs where xs: "replays ?d (check_user_existance ?E ?d config R) ?check xs ?s"
    and keep: "\<And>opn. maintains (blocked opn) ?check"
    unfolding replayed_def by blast
  obtain as c' where as: "perform_all ?d xs ?s = (as, c')" by force
  have c': "c' = c1" using xs by (simp add: replays_def as check)
  have checked: "?check (waiting_for ?d (as @ rest) ?s) = (Value [], waiting_for ?d rest c1)" for rest
    using xs by (simp add: replays_def as check c')
  let ?j = "fresh_job msg t ?s"
  have job: "job_run P (?j bs) = guarded ?E replay_driver config R b (waiting_for ?d bs ?s)" for bs
    unfolding fresh_job_run run ..
  have "asks (snd (job_run P (?j (take k as)))) = Some (xs ! k)" if "k < length xs" for k
  proof -
    have "blocked (xs ! k) (snd (?check (waiting_for ?d (take k as) ?s)))"
      using xs that by (simp add: replays_def as)
    moreover have "maintains (blocked opn) (case r of Value str \<Rightarrow> if str \<noteq> [] then retM str else b
      | Throw e \<Rightarrow> stopM (Throw e) | Abort \<Rightarrow> stopM Abort | Diverge \<Rightarrow> stopM Diverge)" for opn r
      using b[of opn] by (cases r) (auto simp: within_def retM_def stopM_def)
    ultimately have "blocked (xs ! k) (snd (guarded ?E replay_driver config R b (waiting_for ?d (take k as) ?s)))"
      unfolding guard using blocked_seq(2)[OF keep] by blast
    then show ?thesis by (simp add: job blocked_def)
  qed
  then have "(overlap_step P)\<^sup>*\<^sup>* (put_session i ?s (Some (?j [])) p) (put_session i c1 (Some (?j as)) p)"
    using operations_all[of p i xs P "?j []" as ?s c1] assms(1) as c'
    by (simp add: ready_def fresh_job_def) (simp add: session_at_def)
  moreover have "overlap_step P p (put_session i ?s (Some (?j [])) p)"
    using overlap_step.receive[of p i P msg t] assms(1,2)
    by (simp add: ready_def begin_job_def fresh_job_def session_at_def)
  ultimately have "(overlap_step P)\<^sup>*\<^sup>* p (put_session i c1 (Some (?j as)) p)"
    by (rule converse_rtranclp_into_rtranclp[rotated])
  moreover have "checked_job P b c1 (?j as)"
    unfolding checked_job_def
  proof
    fix bs
    have "job_run P ((?j as)\<lparr>job_answers := job_answers (?j as) @ bs\<rparr>) = job_run P (?j (as @ bs))"
      by (simp add: fresh_job_def)
    also have "\<dots> = b (waiting_for ?d bs c1)"
      unfolding job guard by (simp add: seqM_def checked)
    finally show "job_run P ((?j as)\<lparr>job_answers := job_answers (?j as) @ bs\<rparr>) = b (waiting_for ?d bs c1)" .
  qed
  ultimately show ?thesis by (intro exI[of _ "?j as"]) (simp add: fresh_job_def)
qed

lemma act_phase:
  assumes "ready i p" and "links p ! i = \<lparr>link_saved = s_saved c1, link_error = s_error c1, link_id = s_insert_id c1, link_job = Some j\<rparr>"
    and "checked_job P b' c1 j" and "replayed (pool_driver P) b b'" and "b (session_at i p) = (Value reply, s')"
  shows "(overlap_step P)\<^sup>*\<^sup>* p ((put_session i s' None p)\<lparr>answered := answered p @ [(job_message j, reply)]\<rparr>)"
proof -
  let ?s = "session_at i p" and ?d = "pool_driver P"
  have wait: "waiting_for ?d bs c1 = waiting_for ?d bs ?s" for bs
    by (rule waiting_for_session) (simp_all add: session_at_def assms(2))
  obtain ys where ys: "replays ?d b b' ys ?s" using assms(4) unfolding replayed_def by blast
  obtain bs c3 where bs: "perform_all ?d ys ?s = (bs, c3)" by force
  have s': "c3 = s'" using ys by (simp add: replays_def bs assms(5))
  have job: "job_run P (j\<lparr>job_answers := job_answers j @ ds\<rparr>) = b' (waiting_for ?d ds ?s)" for ds
    using assms(3) by (simp add: checked_job_def wait)
  have "asks (snd (job_run P (j\<lparr>job_answers := job_answers j @ take k bs\<rparr>))) = Some (ys ! k)" if "k < length ys" for k
    using ys that by (simp add: job replays_def bs blocked_def)
  moreover have i: "\<not> crashed p" "i < length (links p)" "\<And>k. k < length (links p) \<Longrightarrow> k \<noteq> i \<Longrightarrow> link_saved (links p ! k) = None"
    using assms(1) by (simp_all add: ready_def)
  moreover have "s_now ?s = pool_now p" by (simp add: session_at_def)
  ultimately have "(overlap_step P)\<^sup>*\<^sup>* (put_session i ?s (Some j) p)
      (put_session i s' (Some (j\<lparr>job_answers := job_answers j @ bs\<rparr>)) p)"
    using operations_all[of p i ys P j bs ?s s'] bs s' by blast
  moreover have "put_session i ?s (Some j) p = p"
    using i(2) assms(2) by (intro put_session_same) simp_all
  moreover let ?j = "j\<lparr>job_answers := job_answers j @ bs\<rparr>"
  let ?q = "put_session i s' (Some ?j) p"
  have "job_run P ?j = (Value reply, waiting_for ?d [] s')"
    using ys unfolding job by (simp add: replays_def bs s' assms(5)) (metis append_Nil2)
  then have "overlap_step P ?q ((put_session i (session_at i ?q) None ?q)\<lparr>answered := answered ?q @ [(job_message ?j, reply)]\<rparr>)"
    by (rule overlap_step.respond[rotated 3]) (use i in \<open>simp_all add: put_session_links\<close>, simp add: waiting_for_def)
  moreover have "session_at i ?q = s'"
    using session_put[OF i(2)] perform_all_now[OF bs] s' by (simp add: session_at_def)
  ultimately show ?thesis
    using i(2) by (simp add: put_put put_session_links) 
qed

section \<open>An account deleted in between\<close>

lemma create_user_replayed:
  "replayed (pool_driver P) (create_user_body E (pool_driver P) config) (create_user_body E replay_driver config)"
  unfolding pool_driver_def create_user_body_def exec_checked_def string_value_def int_value_def Let_def
  by (intro replay_intros)

lemma process_handler:
  assumes "ps_exec P msg = Some config"
    and "map_of requests (get_config_request config) = Some (h :: 'c handler)"
  shows "process_request E d (ps_exec P) requests msg = h E d config"
proof -
  have "walk_of (requests :: (string \<times> 'c handler) list) requests" by (simp add: walk_of_def request_set_requests)
  then show ?thesis by (simp add: process_request_cases assms fun_eq_iff)
qed

lemma names_of_changes:
  "map_of requests ''create_user'' = Some create_user" "map_of requests ''delete_user'' = Some delete_user"
  by (simp_all add: requests_def)

lemma kept_saved:
  "within (\<lambda>s s'. s_saved s' = s_saved s) (storeM (session_driver cfg other ins) t)"
  "within (\<lambda>s s'. s_saved s' = s_saved s) (execM (session_driver cfg other ins) t)"
  by (auto simp: within_def storeM_def execM_def session_driver_def session_run_def split: option.splits sum.splits prod.splits)

lemma delete_user_saved: "s_saved (snd (delete_user E (session_driver cfg other ins) config s)) = s_saved s"
proof -
  have "within (\<lambda>s s'. s_saved s' = s_saved s) (delete_user E (session_driver cfg other ins) config)"
    unfolding delete_user_def guarded_def check_user_existance_def try_bad_config_def exec_always_def reply_error_def
      string_value_def invoke_steps session_replay.drain_nothing Let_def
    by (intro within_intros kept_saved)
  from withinD[OF this] show ?thesis .
qed

text \<open>
  C3: The account is checked before the change and not again: when another thread deletes the account in
  between, the deletion is answered, the account is refused from then on, and still the change that was
  asked for in its name is executed on the database as it is by then.
\<close>

theorem revoked_account_still_acts:
  assumes "ready i p" and "ready k p" and "i \<noteq> k" and "link_job (links p ! i) = None" and "link_job (links p ! k) = None"
    and c0: "ps_exec P m0 = Some config" "get_config_request config = ''create_user''" "safe_credentials config"
      "authorised (ps_cfg P) config [''Admin''] (pool_db p)" "credentials config = Some (l, pw, ''Admin'')"
      "new_user_fields (get_raw_ref config ''new_user'') = Some (nl, np, sn, n, pn, r)"
      "list_all (\<lambda>x. safe_string x \<and> length x \<le> 64) [nl, np, sn, n, pn]" "fits_int r"
    and c1: "ps_exec P m1 = Some config'" "get_config_request config' = ''delete_user''" "safe_credentials config'"
      "authorised (ps_cfg P) config' [''Admin''] (pool_db p)" "get_raw_string config' ''delete_user_login'' = Some l"
  shows "\<exists>p2 p3. (overlap_step P)\<^sup>*\<^sup>* p p2 \<and> answered p2 = answered p @ [(m1, success)] \<and>
     pool_db p2 = after (DeleteUser (ps_cfg P) l (pool_db p)) (pool_db p) \<and>
     \<not> authorised (ps_cfg P) config [''Admin''] (pool_db p2) \<and> (overlap_step P)\<^sup>*\<^sup>* p2 p3 \<and>
     pool_db p3 = after (CreateUser (ps_cfg P) nl np sn n pn (sint r) (pool_db p2)) (pool_db p2) \<and>
     answered p3 = answered p2 @ [(m0, outcome_text (error_text (ps_other P))
       (CreateUser (ps_cfg P) nl np sn n pn (sint r) (pool_db p2)))]"
proof -
  let ?E = "ps_env P\<lparr>clock := 0\<rparr>" and ?d = "pool_driver P" and ?cfg = "ps_cfg P"
  have lens: "safe_string l" "length l \<le> 64"
    using c0(3,4,5) by (simp_all add: safe_credentials_def authorised_def)
  have saved: "link_saved (links p ! i) = None" "link_saved (links p ! k) = None"
    using assms(1-3) by (auto simp: ready_def)
  have "plain_ranks [''Admin'']" by simp
  from session.check_user_exact[where cfg = ?cfg and other = "ps_other P" and ins = "ps_ins P", OF c0(3) this, of ?E "session_at i p"]
  obtain s1 where s1: "check_user_existance ?E ?d config [''Admin''] (session_at i p) = (Value [], s1)"
      "s_db s1 = pool_db p" "s_saved s1 = None"
    using c0(4) saved(1) by (auto simp: pool_driver_def session_at_def split: if_splits)
  have "\<And>opn. maintains (blocked opn) (create_user_body ?E replay_driver config)"
    using create_user_replayed[of P ?E config] by (simp add: replayed_def)
  from check_phase[OF assms(1,4) _ this s1(1)] obtain j
    where j: "(overlap_step P)\<^sup>*\<^sup>* p (put_session i s1 (Some j) p)"
      "checked_job P (create_user_body ?E replay_driver config) s1 j" "job_message j = m0"
    using process_handler[OF c0(1), of create_user ?E replay_driver] names_of_changes(1) c0(2)
    by (auto simp: create_user_guarded)
  let ?p1 = "put_session i s1 (Some j) p"
  have i: "i < length (links p)" "k < length (links p)" "k \<noteq> i" using assms(1-3) by (simp_all add: ready_def)
  note p1 = put_session_links[where s = s1 and j = "Some j", OF i(1)]
  have ready: "ready k ?p1" "link_job (links ?p1 ! k) = None"
    using assms(2,5) s1(3) i(3) p1(1) p1(2) by (auto simp: ready_def p1(3,4)) (metis link.simps(1))
  have db: "s_db (session_at k ?p1) = pool_db p" by (simp add: session_at_def p1(7) s1(2))
  let ?db2 = "after (DeleteUser ?cfg l (pool_db p)) (pool_db p)"
  have "process_request ?E ?d (ps_exec P) requests m1 = delete_user ?E ?d config'"
    by (rule process_handler[OF c1(1)]) (simp only: c1(2) names_of_changes(2))
  then obtain s2 where s2: "process_request ?E ?d (ps_exec P) requests m1 (session_at k ?p1) = (Value success, s2)"
      "s_db s2 = ?db2" "s_saved s2 = s_saved (session_at k ?p1)"
    using session.delete_user_result[OF c1(3) _ c1(5) lens, where cfg = ?cfg and c = "session_at k ?p1" and E = ?E
          and other = "ps_other P" and ins = "ps_ins P"]
      c1(4) delete_user_saved[where E = ?E and cfg = ?cfg and other = "ps_other P" and ins = "ps_ins P"
        and config = config' and s = "session_at k ?p1"]
    by (force simp: db pool_driver_def)
  have walk: "walk_of (requests :: (string \<times> session handler) list) requests"
    by (simp add: walk_of_def request_set_requests)
  from request_alone[OF _ _ ready(2) _ walk s2(1)] ready(1)
  obtain p2 where p2: "(overlap_step P)\<^sup>*\<^sup>* ?p1 p2" "session_at k p2 = s2"
      "answered p2 = answered ?p1 @ [(m1, success)]" "\<not> crashed p2" "length (links p2) = length (links p)"
      "\<And>n. n < length (links p) \<Longrightarrow> n \<noteq> k \<Longrightarrow> links p2 ! n = links ?p1 ! n"
    by (auto simp: ready_def p1(3))
  have db2: "pool_db p2 = ?db2"
    using p2(2) s2(2) by (auto simp: session_at_def)
  have "\<not> CheckUserExists ?cfg l pw ''Admin'' (pool_db p2)"
    by (auto simp: db2 after_def DeleteUser_def CheckUserExists_def list_ex_iff)
  then have refused: "\<not> authorised ?cfg config [''Admin''] (pool_db p2)"
    by (simp add: authorised_def c0(5))
  have "link_saved (links p2 ! k) = None"
    using p2(2) s2(3) ready(1) i(3) assms(1) i(2) p1(2)[of k] by (auto simp: session_at_def ready_def)
  moreover have "link_saved (links p2 ! n) = None" if "n < length (links p2)" "n \<noteq> i" "n \<noteq> k" for n
    using that p2(5) p2(6)[of n] p1(2)[of n] assms(1) by (simp add: ready_def)
  ultimately have "link_saved (links p2 ! n) = None" if "n < length (links p2)" "n \<noteq> i" for n
    using that by (cases "n = k") simp_all
  then have ready2: "ready i p2" using p2(4,5) i(1) by (simp add: ready_def)
  obtain s3 where s3: "create_user_body ?E ?d config (session_at i p2) =
      (Value (outcome_text (error_text (ps_other P)) (CreateUser ?cfg nl np sn n pn (sint r) (pool_db p2))), s3)"
      "s_db s3 = after (CreateUser ?cfg nl np sn n pn (sint r) (pool_db p2)) (pool_db p2)"
    using session.create_user_body_result[OF c0(6-8), where cfg = ?cfg and c = "session_at i p2" and E = ?E
          and other = "ps_other P" and ins = "ps_ins P"]
    by (auto simp: pool_driver_def session_at_def)
  have "links p2 ! i = \<lparr>link_saved = s_saved s1, link_error = s_error s1, link_id = s_insert_id s1, link_job = Some j\<rparr>"
    using p2(6)[of i] i(1,3) p1(1) by simp
  from act_phase[OF ready2 this j(2) create_user_replayed s3(1)]
  have "(overlap_step P)\<^sup>*\<^sup>* p2 ((put_session i s3 None p2)\<lparr>answered := answered p2 @ [(m0,
      outcome_text (error_text (ps_other P)) (CreateUser ?cfg nl np sn n pn (sint r) (pool_db p2)))]\<rparr>)"
    by (simp add: j(3))
  moreover have "(overlap_step P)\<^sup>*\<^sup>* p p2" using j(1) p2(1) by (rule rtranclp_trans)
  moreover have "answered p2 = answered p @ [(m1, success)]" using p2(3) by (simp add: p1(6))
  ultimately show ?thesis
    using refused db2 s3(2) by (intro exI[of _ p2] exI conjI) (assumption | simp add: put_session_def)+
qed

text \<open>Two administrators on the same account: one creates \<open>neo\<close>, the other deletes the account they use.\<close>

definition race_pool :: pool_setup where
  "race_pool = \<lparr>ps_env = sample_env, ps_cfg = sample_cfg, ps_other = sample_other, ps_ins = no_id, ps_exec = (\<lambda>m.
     if m = ''create'' then Some (admin_request [(''request'', LString ''create_user''),
       (''new_user'', get_raw_ref new_user_request ''new_user'')])
     else Some (admin_request [(''request'', LString ''delete_user''), (''delete_user_login'', LString ''amogus'')]))\<rparr>"

lemma race_cfg: "ps_cfg race_pool = sample_cfg"
  by (simp add: race_pool_def)

theorem revoked_account_still_acts_witness:
  "\<exists>p2 p3. (overlap_step race_pool)\<^sup>*\<^sup>* (Idle_pool 2 sample_session) p2 \<and>
     map u_login (users (pool_db p2)) = [''abobus'', ''amongaust''] \<and> (overlap_step race_pool)\<^sup>*\<^sup>* p2 p3 \<and>
     map u_login (users (pool_db p3)) = [''abobus'', ''amongaust'', ''neo'']"
proof -
  let ?p = "Idle_pool 2 sample_session" and ?d1 = "after (DeleteUser sample_cfg ''amogus'' sample_db) sample_db"
  have start: "ready 0 ?p" "ready 1 ?p" "link_job (links ?p ! 0) = None" "link_job (links ?p ! 1) = None"
    "pool_db ?p = sample_db"
    by (auto simp: ready_def Idle_pool_def less_Suc_eq nth_Cons')
  have fields: "new_user_fields (get_raw_ref (admin_request [(''request'', LString ''create_user''),
      (''new_user'', get_raw_ref new_user_request ''new_user'')]) ''new_user'') = Some (''neo'', ''hash'', ''a'', ''b'', ''c'', 2)"
    unfolding admin_request_def using new_user_request_fields(1) by (simp add: admin_user_def)
  have "length (users ?d1) = 2 \<and> map u_login (users ?d1) = [''abobus'', ''amongaust''] \<and>
      rank_exists 2 ?d1 \<and> \<not> login_exists sample_cfg ''neo'' ?d1"
    by (simp add: after_def DeleteUser_def sample_db_eval sql_eq_def rank_exists_def login_exists_def)
  moreover have "after (Inr x) y = x" for x y :: db by (simp add: after_def)
  ultimately have change: "map u_login (users ?d1) = [''abobus'', ''amongaust'']"
      "map u_login (users (after (CreateUser sample_cfg ''neo'' ''hash'' ''a'' ''b'' ''c'' 2 ?d1) ?d1)) =
        [''abobus'', ''amongaust'', ''neo'']"
    by (simp_all add: CreateUser_def)
  have "\<exists>p2 p3. (overlap_step race_pool)\<^sup>*\<^sup>* ?p p2 \<and> answered p2 = answered ?p @ [(''delete'', success)] \<and>
     pool_db p2 = after (DeleteUser (ps_cfg race_pool) ''amogus'' (pool_db ?p)) (pool_db ?p) \<and>
     \<not> authorised (ps_cfg race_pool) (admin_request [(''request'', LString ''create_user''),
       (''new_user'', get_raw_ref new_user_request ''new_user'')]) [''Admin''] (pool_db p2) \<and> (overlap_step race_pool)\<^sup>*\<^sup>* p2 p3 \<and>
     pool_db p3 = after (CreateUser (ps_cfg race_pool) ''neo'' ''hash'' ''a'' ''b'' ''c'' (sint (2 :: i64)) (pool_db p2)) (pool_db p2) \<and>
     answered p3 = answered p2 @ [(''create'', outcome_text (error_text (ps_other race_pool))
       (CreateUser (ps_cfg race_pool) ''neo'' ''hash'' ''a'' ''b'' ''c'' (sint (2 :: i64)) (pool_db p2)))]"
    by (rule revoked_account_still_acts[where config' = "admin_request [(''request'', LString ''delete_user''),
        (''delete_user_login'', LString ''amogus'')]" and pw = pwd_amogus, OF start(1,2) _ start(3,4) _ _ _ _ _ fields
        new_user_request_fields(2,3)])
      (simp_all add: race_pool_def start(5) get_config_request_def get_raw_of_ref admin_request_def[of "[(''request'', _)]"])
  then show ?thesis
  proof (elim exE conjE)
    fix p2 p3
    assume steps: "(overlap_step race_pool)\<^sup>*\<^sup>* ?p p2" "(overlap_step race_pool)\<^sup>*\<^sup>* p2 p3"
      and db2: "pool_db p2 = after (DeleteUser (ps_cfg race_pool) ''amogus'' (pool_db ?p)) (pool_db ?p)"
      and db3: "pool_db p3 = after (CreateUser (ps_cfg race_pool) ''neo'' ''hash'' ''a'' ''b'' ''c'' (sint (2 :: i64))
        (pool_db p2)) (pool_db p2)"
    have "pool_db p2 = ?d1" unfolding db2 start(5) race_cfg ..
    moreover have "pool_db p3 = after (CreateUser sample_cfg ''neo'' ''hash'' ''a'' ''b'' ''c'' 2 ?d1) ?d1"
      unfolding db3 race_cfg new_user_request_fields(4) \<open>pool_db p2 = ?d1\<close> ..
    ultimately show ?thesis
      by (intro exI[of _ p2] exI[of _ p3]) (simp only: change steps simp_thms)
  qed
qed

end
