(* ===== verification/Request_Progress.thy ===== *)
theory Request_Progress
  imports Request_Overlap "HOL-Library.Multiset"
begin

text \<open>
  Requests that overlap do not block each other for ever. A handler that returns or throws has closed its
  transaction, whatever the database answered in between; so a connection with an open transaction
  always belongs to a request that can go on, there is at most one, and every request can be brought to its end.
\<close>

section \<open>A handler closes its transaction\<close>

text \<open>\<open>opened\<close> tells whether a transaction is open; only the three operations of a transaction change it.\<close>

locale transactional = replayable d for d :: "'c driver" +
  fixes opened :: "'c \<Rightarrow> bool"
  assumes store_opened: "opened (snd (query_store d t c)) = opened c"
    and exec_opened: "opened (snd (query_exec d t c)) = opened c"
    and commit_opened: "\<not> opened (tx_commit d c)"
    and rollback_opened: "\<not> opened (tx_rollback d c)"
begin

definition closed :: "('c, 'a) act \<Rightarrow> bool" where
  "closed m \<longleftrightarrow> (\<forall>c. \<not> opened c \<longrightarrow> (case m c of (r, c') \<Rightarrow> r = Abort \<or> r = Diverge \<or> \<not> opened c'))"

named_theorems closed_intros "rules for closed effects"

lemma closedD: "closed m \<Longrightarrow> m c = (r, c') \<Longrightarrow> \<not> opened c \<Longrightarrow> r \<noteq> Abort \<Longrightarrow> r \<noteq> Diverge \<Longrightarrow> \<not> opened c'"
  by (auto simp: closed_def split: prod.splits)

lemma closedI:
  "(\<And>c r c'. \<not> opened c \<Longrightarrow> m c = (r, c') \<Longrightarrow> r \<noteq> Abort \<Longrightarrow> r \<noteq> Diverge \<Longrightarrow> \<not> opened c') \<Longrightarrow> closed m"
  by (auto simp: closed_def)

lemma closed_basic [closed_intros]:
  "closed (retM v)" "closed (throwM e)" "closed (assertM b)" "closed (valueM e x)" "closed (readM f)"
  by (simp_all add: closed_def retM_def throwM_def assertM_def valueM_def readM_def split: option.split)

lemma closed_seq:
  assumes "closed m" and "\<And>r. r \<noteq> Abort \<Longrightarrow> r \<noteq> Diverge \<Longrightarrow> closed (k r)" and "k Abort = stopM Abort" and "k Diverge = stopM Diverge"
  shows "closed (seqM m k)"
proof (rule closedI)
  fix c r c'
  assume c: "\<not> opened c" and run: "seqM m k c = (r, c')" and r: "r \<noteq> Abort" "r \<noteq> Diverge"
  obtain r1 c1 where m: "m c = (r1, c1)" by force
  with run have k: "k r1 c1 = (r, c')" by (simp add: seqM_def)
  with r assms(3,4) have r1: "r1 \<noteq> Abort" "r1 \<noteq> Diverge" by (auto simp: stopM_def)
  from closedD[OF assms(1) m c r1] show "\<not> opened c'"
    by (rule closedD[OF assms(2)[OF r1] k]) (rule r)+
qed

lemma closed_stop: "closed (stopM r)"
  by (simp add: closed_def stopM_def)

lemma closed_bind [closed_intros]: "closed m \<Longrightarrow> (\<And>x. closed (f x)) \<Longrightarrow> closed (bindM m f)"
  unfolding as_seq by (rule closed_seq) (auto simp: closed_stop split: outcome.split)

lemma closed_catch [closed_intros]:
  "closed m \<Longrightarrow> closed h \<Longrightarrow> closed (catch_all m h)" "closed m \<Longrightarrow> closed h \<Longrightarrow> closed (catch_std m h)"
  unfolding as_seq by (rule closed_seq; auto simp: closed_stop split: outcome.split)+

lemma closed_branch [closed_intros]:
  "closed m \<Longrightarrow> closed n \<Longrightarrow> closed (if b then m else n)"
  "closed m \<Longrightarrow> (\<And>x. closed (f x)) \<Longrightarrow> closed (case o' of None \<Rightarrow> m | Some x \<Rightarrow> f x)"
  by (simp_all split: option.split)

lemma closed_queries [closed_intros]: "closed (storeM d t)" "closed (execM d t)"
  using store_opened exec_opened by (auto simp: closed_def storeM_def execM_def split: prod.splits) (metis snd_conv)+

lemma closed_ends [closed_intros]: "closed (effect (tx_commit d))" "closed (effect (tx_rollback d))"
  by (simp_all add: closed_def effect_def commit_opened rollback_opened)

lemma closed_invoke [closed_intros]:
  "(\<And>res. closed (f res)) \<Longrightarrow> closed (invoke_store d t f)" "(\<And>b. closed (g b)) \<Longrightarrow> closed (invoke_exec d t g)"
  unfolding invoke_steps drain_nothing by (intro closed_intros; assumption)+

lemma closed_convert [closed_intros]: "closed (convert_cell E ty s)"
  unfolding convert_cell_def by (cases ty; simp only: vm_type.case split_beta; intro closed_intros)

lemma closed_rows [closed_intros]:
  "closed (fill_item E d row fis item)" "closed (fill_table E d fis rows t)" "closed (find_indices d res flds)"
proof -
  show item: "closed (fill_item E d row fis item)" for row item
    by (induction fis arbitrary: item) (auto intro!: closed_intros)
  show "closed (fill_table E d fis rows t)"
    by (induction rows arbitrary: t) (auto intro!: closed_intros item)
  show "closed (find_indices d res flds)"
    by (induction flds) (auto simp: Let_def intro!: closed_intros)
qed

lemma closed_serialize [closed_intros]:
  "closed (serialize_query_result E d res name flds)" "closed (serialize_one_query_result E d res field)"
  unfolding serialize_query_result_def serialize_one_query_result_def Let_def by (intro closed_intros)+

lemma closed_reply_error [closed_intros]: "closed (reply_error d)"
  unfolding reply_error_def by (intro closed_intros)

text \<open>After a rollback nothing is open, whatever was open before; the body of a transaction says so itself.\<close>

lemma rollback_reply_closes: "rollback_reply d c = (r, c') \<Longrightarrow> \<not> opened c'"
  by (auto simp: rollback_reply_def reply_error_def bindM_def effect_def readM_def retM_def rollback_opened)

definition settles :: "('c, 'a \<times> bool) act \<Rightarrow> bool" where
  "settles body \<longleftrightarrow> (\<forall>c v c'. body c = (Value (v, True), c') \<longrightarrow> \<not> opened c')"

lemma closed_transaction:
  assumes "settles body"
  shows "closed (with_transaction d body)"
  using assms by (auto simp: closed_def settles_def with_transaction_def rollback_opened split: prod.split outcome.split)

lemma settles_complete:
  "settles (invoke_exec d q (\<lambda>res. if \<not> res then bindM (rollback_reply d) (\<lambda>r. retM (r, True))
     else bindM (effect (tx_commit d)) (\<lambda>_. retM (success, True))))"
  unfolding settles_def invoke_steps drain_nothing
  by (auto simp: bindM_def execM_def effect_def retM_def commit_opened dest: rollback_reply_closes
      split: prod.splits outcome.splits if_splits)

lemma add_ordered_items_settles:
  "add_ordered_items d oid its c = (Value r, c') \<Longrightarrow> r \<noteq> [] \<Longrightarrow> \<not> opened c'"
proof (induction its arbitrary: c)
  case (Cons it its)
  then show ?case
    unfolding add_ordered_items.simps invoke_steps drain_nothing
    by (auto simp: bindM_def execM_def retM_def dest: rollback_reply_closes split: prod.splits outcome.splits if_splits)
qed (simp add: retM_def)

lemma settles_order: "settles (add_order_transaction d t e its)"
  unfolding settles_def add_order_transaction_def invoke_steps drain_nothing
  by (auto simp: bindM_def execM_def effect_def readM_def retM_def commit_opened
      dest: rollback_reply_closes add_ordered_items_settles split: prod.splits outcome.splits if_splits sum.splits)

lemmas closed_defs = string_value_def int_value_def number_value_def store_reply_def exec_always_def
  exec_checked_def try_bad_config_def with_dates_def

lemma closed_guarded [closed_intros]: "closed body \<Longrightarrow> closed (guarded E d config R body)"
  unfolding guarded_def check_user_existance_def closed_defs Let_def by (intro closed_intros)

lemma closed_collect_items [closed_intros]: "closed (collect_items E t is)"
  by (induction "is") (auto simp: Let_def int_value_def intro!: closed_intros)

lemma closed_handlers: "list_all (\<lambda>(n, h). closed (h E d config)) requests"
  unfolding requests_def list.pred_inject prod.case guarded_handler_defs open_handler_defs closed_defs Let_def
  by (intro conjI closed_intros closed_transaction settles_complete settles_order) simp

lemma closed_process_request:
  assumes "walk_of walk requests"
  shows "closed (process_request E d exec walk msg)"
proof -
  have "closed (h E d config)" if "map_of requests k = Some h" for h k config
    using closed_handlers[of E config] map_of_SomeD[OF that] by (auto simp: list_all_iff)
  then show ?thesis
    by (cases "exec msg") (auto simp: process_request_cases[OF assms] closed_def retM_def split: option.splits)
qed

end

section \<open>Going on from the answers of a job\<close>

text \<open>
  A driver that hands out the answers a job has got already, and then goes on with a database. It
  keeps account of the transaction.
\<close>

record 'c resuming =
  rs_answers :: "answer list"
  rs_base :: 'c
  rs_error :: string
  rs_id :: "64 word"
  rs_open :: bool

fun tx_effect :: "db_op \<Rightarrow> bool \<Rightarrow> bool" where
  "tx_effect Op_start b = True"
| "tx_effect Op_commit b = False"
| "tx_effect Op_rollback b = False"
| "tx_effect _ b = b"

text \<open>The part of an answer that an operation looks at.\<close>

fun seen :: "db_op \<Rightarrow> answer \<Rightarrow> answer" where
  "seen (Op_store t) a = a\<lparr>got_ok := False\<rparr>"
| "seen (Op_exec t) a = a\<lparr>got_result := no_result\<rparr>"
| "seen _ a = a\<lparr>got_result := no_result, got_ok := False\<rparr>"

definition resume_op :: "'c driver \<Rightarrow> db_op \<Rightarrow> 'c resuming \<Rightarrow> answer \<times> 'c resuming" where
  "resume_op d opn c =
     (case (case rs_answers c of [] \<Rightarrow> perform d opn (rs_base c) | a # as \<Rightarrow> (seen opn a, rs_base c)) of (a, b) \<Rightarrow>
        (a, \<lparr>rs_answers = tl (rs_answers c), rs_base = b, rs_error = got_error a, rs_id = got_id a,
          rs_open = tx_effect opn (rs_open c)\<rparr>))"

definition resume_driver :: "'c driver \<Rightarrow> 'c resuming driver" where
  "resume_driver d = \<lparr>
     query_store = (\<lambda>t c. case resume_op d (Op_store t) c of (a, c') \<Rightarrow> (got_result a, c')),
     query_exec = (\<lambda>t c. case resume_op d (Op_exec t) c of (a, c') \<Rightarrow> (got_ok a, c')),
     query_store_next = (\<lambda>c. (False, c)),
     query_error = rs_error,
     query_insert_id = rs_id,
     field_num = (\<lambda>cols f. int (find_col cols f)),
     null_data = ''NULL'',
     tx_start = (\<lambda>c. snd (resume_op d Op_start c)),
     tx_commit = (\<lambda>c. snd (resume_op d Op_commit c)),
     tx_rollback = (\<lambda>c. snd (resume_op d Op_rollback c))\<rparr>"

interpretation resume: transactional "resume_driver d" rs_open for d :: "'c driver"
  by unfold_locales (auto simp: resume_driver_def resume_op_def split: prod.split)

lemma seen_perform: "perform d opn c = (a, c') \<Longrightarrow> seen opn a = a"
  by (cases opn) (auto simp: perform_def split: prod.splits)

lemma resume_op_seen: "resume_op d opn c = (a, c') \<Longrightarrow> seen opn a = a"
  by (cases opn) (auto simp: resume_op_def dest: seen_perform split: prod.splits list.splits)

lemma perform_resume: "perform (resume_driver d) opn c = resume_op d opn c"
proof -
  obtain a c' where a: "resume_op d opn c = (a, c')" by force
  then have "rs_error c' = got_error a" "rs_id c' = got_id a"
    by (auto simp: resume_op_def split: prod.splits)
  then show ?thesis
    using a resume_op_seen[OF a] by (cases opn; cases a) (auto simp: perform_def resume_driver_def)
qed

lemma waiting_for_resume:
  "waiting_for (resume_driver d) bs c = \<lparr>answers_left = bs, asks = None, known_error = rs_error c, known_id = rs_id c\<rparr>"
  by (simp add: waiting_for_def resume_driver_def)

lemma perform_all_resume:
  assumes "perform_all (resume_driver d) opns c = (as, c')"
  shows "(\<forall>k. k < length opns \<longrightarrow> k < length (rs_answers c) \<longrightarrow> as ! k = seen (opns ! k) (rs_answers c ! k)) \<and>
    (length (rs_answers c) \<le> length opns \<longrightarrow>
      perform_all d (drop (length (rs_answers c)) opns) (rs_base c) = (drop (length (rs_answers c)) as, rs_base c')) \<and>
    rs_open c' = fold tx_effect opns (rs_open c)"
  using assms
proof (induction opns arbitrary: c as)
  case (Cons opn opns)
  obtain a c1 where a: "resume_op d opn c = (a, c1)" by force
  obtain bs where bs: "perform_all (resume_driver d) opns c1 = (bs, c')" "as = a # bs"
    using Cons.prems by (auto simp: perform_resume a split: prod.splits)
  show ?case
  proof (cases "rs_answers c")
    case Nil
    then show ?thesis using Cons.IH[OF bs(1)] a by (auto simp: resume_op_def bs(2) split: prod.splits)
  next
    case (Cons x xs)
    then show ?thesis
      using Cons.IH[OF bs(1)] a by (auto simp: resume_op_def bs(2) nth_Cons split: nat.split)
  qed
qed simp

section \<open>Every job has an end\<close>

text \<open>Two records of the same questions and answers: the shorter one is the beginning of the longer one.\<close>

lemma answers_match:
  assumes "length as = length xs" and "\<And>k. k < length xs \<Longrightarrow> f (take k as) = Some (xs ! k)" and "f as = None"
    and "\<And>k. k < length bs \<Longrightarrow> f (take k bs) = Some (ys ! k)"
    and "\<And>k. k < length bs \<Longrightarrow> k < length as \<Longrightarrow> xs ! k = ys ! k \<Longrightarrow> as ! k = bs ! k"
  shows "n \<le> length bs \<Longrightarrow> n \<le> length as \<and> take n as = take n bs \<and> (\<forall>k < n. xs ! k = ys ! k)"
proof (induction n)
  case (Suc n)
  then have IH: "n \<le> length as" "take n as = take n bs" "\<forall>k < n. xs ! k = ys ! k" by simp_all
  have n: "n < length bs" using Suc.prems by simp
  have "n \<noteq> length as"
    using assms(3) assms(4)[OF n] IH(2) by auto
  then have m: "n < length as" using IH(1) by simp
  then have "xs ! n = ys ! n"
    using assms(2)[of n] assms(4)[OF n] IH(2) by (simp add: assms(1))
  moreover from assms(5)[OF n m this] have "as ! n = bs ! n" .
  ultimately show ?case
    using IH n m by (auto simp: take_Suc_conv_app_nth less_Suc_eq)
qed simp

text \<open>The operations behind the answers of a job.\<close>

definition asked :: "pool_setup \<Rightarrow> job \<Rightarrow> db_op list \<Rightarrow> bool" where
  "asked P j ops \<longleftrightarrow> length ops = length (job_answers j) \<and> (\<forall>k < length ops.
     asks (snd (job_run P (j\<lparr>job_answers := take k (job_answers j)\<rparr>))) = Some (ops ! k) \<and>
     seen (ops ! k) (job_answers j ! k) = job_answers j ! k)"

text \<open>
  On any state of the database a job has a finite rest of operations, after which it replies or
  fails; when it does not fail an assertion its transaction is closed then.
\<close>

lemma job_continues:
  assumes "asked P j ops"
  obtains more bs s' r c where "perform_all (pool_driver P) more s = (bs, s')"
    and "\<And>k. k < length more \<Longrightarrow>
      asks (snd (job_run P (j\<lparr>job_answers := job_answers j @ take k bs\<rparr>))) = Some (more ! k)"
    and "job_run P (j\<lparr>job_answers := job_answers j @ bs\<rparr>) = (r, c)" and "asks c = None"
    and "r \<noteq> Abort \<Longrightarrow> r \<noteq> Diverge \<Longrightarrow> \<not> fold tx_effect (ops @ more) False"
proof -
  let ?d = "resume_driver (pool_driver P)" and ?E = "ps_env P\<lparr>clock := job_time j\<rparr>"
  define c0 where "c0 = \<lparr>rs_answers = job_answers j, rs_base = s, rs_error = job_error j, rs_id = job_id j, rs_open = False\<rparr>"
  let ?m = "process_request ?E ?d (ps_exec P) requests (job_message j)"
  let ?w = "process_request ?E replay_driver (ps_exec P) requests (job_message j)"
  let ?n = "length (job_answers j)"
  have walk: "walk_of (requests :: (string \<times> 'x handler) list) requests" by (simp add: walk_of_def request_set_requests)
  have job: "job_run P (j\<lparr>job_answers := as\<rparr>) = ?w (waiting_for ?d as c0)" for as
    by (simp add: job_run_def waiting_for_resume c0_def)
  obtain opns where opns: "replays ?d ?m ?w opns c0"
    using resume.replayed_process_request[OF walk walk] unfolding replayed_def by blast
  obtain as c' where as: "perform_all ?d opns c0 = (as, c')" by force
  have len: "length as = length opns" by (rule length_perform_all[OF as])
  obtain r where m: "?m c0 = (r, c')" using opns by (cases "?m c0") (simp add: replays_def as)
  have ends: "job_run P (j\<lparr>job_answers := as\<rparr>) = (r, waiting_for ?d [] c')"
    using opns unfolding job by (simp add: replays_def as m) (metis append_Nil2)
  have asks: "asks (snd (job_run P (j\<lparr>job_answers := take k as\<rparr>))) = Some (opns ! k)" if "k < length opns" for k
    using opns that unfolding job by (simp add: replays_def as blocked_def)
  note resumed = perform_all_resume[OF as]
  have "?n \<le> length as \<and> take ?n as = take ?n (job_answers j) \<and> (\<forall>k < ?n. opns ! k = ops ! k)"
  proof (rule answers_match[where f = "\<lambda>as. asks (snd (job_run P (j\<lparr>job_answers := as\<rparr>)))", OF len asks])
    show "as ! k = job_answers j ! k" if "k < ?n" "k < length as" "opns ! k = ops ! k" for k
      using resumed assms that by (simp add: asked_def c0_def len)
    show "asks (snd (job_run P (j\<lparr>job_answers := as\<rparr>))) = None"
      unfolding ends by (simp add: waiting_for_def)
  qed (use assms in \<open>simp_all add: asked_def\<close>)
  then have "?n \<le> length opns" "take ?n as = job_answers j" "take ?n opns = ops"
    using assms by (auto simp: len asked_def intro!: nth_equalityI)
  then have n: "?n \<le> length opns" "job_answers j @ drop ?n as = as" "take ?n opns = ops"
    by (metis append_take_drop_id)+
  show thesis
  proof (rule that)
    show "perform_all (pool_driver P) (drop ?n opns) s = (drop ?n as, rs_base c')"
      using resumed n(1) by (simp add: c0_def)
    show "asks (snd (job_run P (j\<lparr>job_answers := job_answers j @ take k (drop ?n as)\<rparr>))) = Some (drop ?n opns ! k)"
      if "k < length (drop ?n opns)" for k
    proof -
      have "job_answers j @ take k (drop ?n as) = take (?n + k) as"
        using n(2) by (metis take_add append_eq_conv_conj)
      then show ?thesis using asks[of "?n + k"] that by simp
    qed
    show "job_run P (j\<lparr>job_answers := job_answers j @ drop ?n as\<rparr>) = (r, waiting_for ?d [] c')"
      unfolding n(2) by (rule ends)
    show "asks (waiting_for ?d [] c') = None" by (simp add: waiting_for_def)
    assume r: "r \<noteq> Abort" "r \<noteq> Diverge"
    have "\<not> rs_open c0" by (simp add: c0_def)
    from resume.closedD[OF resume.closed_process_request[OF walk] m this r]
    have "\<not> fold tx_effect opns False" using resumed by (simp add: c0_def)
    moreover have "ops @ drop ?n opns = opns" unfolding n(3)[symmetric] by simp
    ultimately show "\<not> fold tx_effect (ops @ drop ?n opns) False" by simp
  qed
qed

section \<open>Transactions of the pool\<close>

text \<open>
  Who has no request has no transaction; who has one has a transaction exactly when its operations so
  far opened one; and two connections never have one at a time.
\<close>

definition held :: "db option \<Rightarrow> bool" where
  "held saved \<longleftrightarrow> saved \<noteq> None"

definition link_settled :: "pool_setup \<Rightarrow> link \<Rightarrow> bool" where
  "link_settled P l \<longleftrightarrow> (case link_job l of None \<Rightarrow> link_saved l = None
     | Some j \<Rightarrow> \<exists>ops. asked P j ops \<and> held (link_saved l) = fold tx_effect ops False)"

definition settled :: "pool_setup \<Rightarrow> pool \<Rightarrow> bool" where
  "settled P p \<longleftrightarrow> (\<forall>i < length (links p). link_settled P (links p ! i)) \<and>
     (\<forall>i < length (links p). \<forall>k < length (links p).
        held (link_saved (links p ! i)) \<longrightarrow> held (link_saved (links p ! k)) \<longrightarrow> i = k)"

lemma perform_saved:
  "perform (pool_driver P) opn s = (a, s') \<Longrightarrow> held (s_saved s') = tx_effect opn (held (s_saved s))"
  by (cases opn) (auto simp: held_def perform_def pool_driver_def session_driver_def session_run_def
      split: prod.splits option.splits sum.splits)

lemma perform_all_saved:
  "perform_all (pool_driver P) opns s = (as, s') \<Longrightarrow> held (s_saved s') = fold tx_effect opns (held (s_saved s))"
  by (induction opns arbitrary: s as) (auto split: prod.splits dest: perform_saved)

lemma settledD:
  "settled P p \<Longrightarrow> i < length (links p) \<Longrightarrow> link_settled P (links p ! i)"
  "settled P p \<Longrightarrow> i < length (links p) \<Longrightarrow> k < length (links p) \<Longrightarrow> held (link_saved (links p ! i)) \<Longrightarrow>
     held (link_saved (links p ! k)) \<Longrightarrow> i = k"
  unfolding settled_def by blast+

lemma settled_put:
  assumes "settled P p" and "i < length (links p)"
    and "link_settled P \<lparr>link_saved = s_saved s, link_error = s_error s, link_id = s_insert_id s, link_job = j\<rparr>"
    and "\<And>k. held (s_saved s) \<Longrightarrow> k < length (links p) \<Longrightarrow> k \<noteq> i \<Longrightarrow> \<not> held (link_saved (links p ! k))"
  shows "settled P (put_session i s j p)"
proof -
  let ?l = "\<lparr>link_saved = s_saved s, link_error = s_error s, link_id = s_insert_id s, link_job = j\<rparr>"
  have links: "links (put_session i s j p) = (links p)[i := ?l]" by (simp add: put_session_def)
  show ?thesis
    unfolding settled_def links length_list_update
  proof (intro conjI allI impI)
    fix n assume "n < length (links p)"
    then show "link_settled P ((links p)[i := ?l] ! n)"
      using settledD(1)[OF assms(1)] assms(3) by (cases "n = i") simp_all
  next
    fix n k assume nk: "n < length (links p)" "k < length (links p)"
      and "held (link_saved ((links p)[i := ?l] ! n))" "held (link_saved ((links p)[i := ?l] ! k))"
    then show "n = k"
      using assms(4)[of n] assms(4)[of k] settledD(2)[OF assms(1) nk]
      by (cases "n = i"; cases "k = i") simp_all
  qed
qed

lemma settled_job:
  assumes "settled P p" and "i < length (links p)" and "link_job (links p ! i) = Some j"
  obtains ops where "asked P j ops" and "held (link_saved (links p ! i)) = fold tx_effect ops False"
  using settledD(1)[OF assms(1,2)] by (auto simp: link_settled_def assms(3))

lemma asked_more:
  assumes "asked P j ops" and "asks (snd (job_run P j)) = Some opn" and "perform (pool_driver P) opn s = (a, s')"
  shows "asked P (j\<lparr>job_answers := job_answers j @ [a]\<rparr>) (ops @ [opn])"
  using assms seen_perform[OF assms(3)] by (auto simp: asked_def nth_append less_Suc_eq)

lemma overlap_step_settled:
  assumes "overlap_step P p p'" and "settled P p"
  shows "settled P p'"
  using assms(1)
proof cases
  case (receive i m t)
  have l: "link_saved (links p ! i) = None"
    using settledD(1)[OF assms(2) receive(3)] by (simp add: link_settled_def receive(4))
  show ?thesis
    unfolding receive(1) begin_job_def
    by (rule settled_put[OF assms(2) receive(3)])
      (use l in \<open>simp_all add: link_settled_def asked_def session_at_def held_def\<close>)
next
  case (operate i j opn a s)
  from assms(2) operate(3,4) obtain ops where ops: "asked P j ops" "held (link_saved (links p ! i)) = fold tx_effect ops False"
    by (rule settled_job)
  have "held (s_saved s) = fold tx_effect (ops @ [opn]) False"
    using perform_saved[OF operate(7)] ops(2) by (simp add: session_at_def)
  with asked_more[OF ops(1) operate(5,7)] show ?thesis
    unfolding operate(1)
    by (intro settled_put[OF assms(2) operate(3)]) (auto simp: link_settled_def held_def operate(6))
next
  case (respond i j reply c)
  from assms(2) respond(3,4) obtain ops where ops: "asked P j ops" "held (link_saved (links p ! i)) = fold tx_effect ops False"
    by (rule settled_job)
  from job_continues[OF ops(1), of "session_at i p"] obtain more bs s' r c'
    where more: "perform_all (pool_driver P) more (session_at i p) = (bs, s')"
      "\<And>k. k < length more \<Longrightarrow> asks (snd (job_run P (j\<lparr>job_answers := job_answers j @ take k bs\<rparr>))) = Some (more ! k)"
      "job_run P (j\<lparr>job_answers := job_answers j @ bs\<rparr>) = (r, c')" "r \<noteq> Abort \<Longrightarrow> r \<noteq> Diverge \<Longrightarrow> \<not> fold tx_effect (ops @ more) False"
    by metis
  have "more = []" using more(2)[of 0] respond(5,6) by (cases more) auto
  with more(1,3,4) respond(5) ops(2) have l: "link_saved (links p ! i) = None" by (auto simp: held_def)
  have "settled P (put_session i (session_at i p) None p)"
    by (rule settled_put[OF assms(2) respond(3)]) (use l in \<open>simp_all add: link_settled_def session_at_def held_def\<close>)
  then show ?thesis by (simp add: respond(1) settled_def)
qed (use assms(2) in \<open>simp_all add: settled_def\<close>)

lemma settled_Idle: "settled P (Idle_pool n s)"
  by (simp add: settled_def Idle_pool_def link_settled_def held_def)

interpretation settling: invariant_system "\<lambda>p. \<exists>n s. p = Idle_pool n s" "overlap_step P" "settled P" for P
  by unfold_locales (auto simp: settled_Idle intro: overlap_step_settled)

section \<open>Every request can be finished\<close>

text \<open>The messages of the jobs that are not answered yet.\<close>

definition pending :: "pool \<Rightarrow> string multiset" where
  "pending p = mset (map job_message (List.map_filter link_job (links p)))"

lemma map_filter_mset:
  "i < length ls \<Longrightarrow> link_job l = None \<Longrightarrow> link_job (ls ! i) = Some j \<Longrightarrow>
     add_mset (job_message j) (mset (map job_message (List.map_filter link_job (ls[i := l])))) =
     mset (map job_message (List.map_filter link_job ls))"
proof (induction ls arbitrary: i)
  case (Cons l' ls)
  then show ?case
    by (cases i) (auto simp: map_filter_simps add_mset_commute split: option.split)
qed simp

lemma finish_one:
  assumes "settled P p" and "\<not> crashed p" and i: "i < length (links p)" and j: "link_job (links p ! i) = Some j"
    and alone: "\<And>k. k < length (links p) \<Longrightarrow> k \<noteq> i \<Longrightarrow> link_saved (links p ! k) = None"
  shows "\<exists>p'. (overlap_step P)\<^sup>*\<^sup>* p p' \<and> (crashed p' \<or> \<not> crashed p' \<and>
     (\<forall>l \<in> set (links p'). link_saved l = None) \<and>
     (\<exists>reply. answered p' = answered p @ [(job_message j, reply)]) \<and> pending p = add_mset (job_message j) (pending p'))"
proof -
  obtain ops where ops: "asked P j ops" "held (link_saved (links p ! i)) = fold tx_effect ops False"
    by (rule settled_job[OF assms(1) i j])
  from job_continues[OF ops(1), of "session_at i p"] obtain more bs s' r c
    where more: "perform_all (pool_driver P) more (session_at i p) = (bs, s')"
      "\<And>k. k < length more \<Longrightarrow> asks (snd (job_run P (j\<lparr>job_answers := job_answers j @ take k bs\<rparr>))) = Some (more ! k)"
      "job_run P (j\<lparr>job_answers := job_answers j @ bs\<rparr>) = (r, c)" "asks c = None"
      "r \<noteq> Abort \<Longrightarrow> r \<noteq> Diverge \<Longrightarrow> \<not> fold tx_effect (ops @ more) False"
    by metis
  let ?j = "j\<lparr>job_answers := job_answers j @ bs\<rparr>"
  let ?q = "put_session i s' (Some ?j) p"
  have q: "\<not> crashed ?q" "i < length (links ?q)" "link_job (links ?q ! i) = Some ?j"
    using assms(2) i by (simp_all add: put_session_def)
  have "(overlap_step P)\<^sup>*\<^sup>* (put_session i (session_at i p) (Some j) p) ?q"
    by (rule operations_all[OF assms(2) i alone more(2) _ more(1)]) (simp_all add: session_at_def)
  then have steps: "(overlap_step P)\<^sup>*\<^sup>* p ?q" by (simp add: put_session_same[OF i j])
  show ?thesis
  proof (cases "\<exists>reply. r = Value reply")
    case False
    from overlap_step.crash[OF q more(3,4) False] have "overlap_step P ?q (?q\<lparr>crashed := True\<rparr>)" .
    with steps have "(overlap_step P)\<^sup>*\<^sup>* p (?q\<lparr>crashed := True\<rparr>)" by (rule rtranclp.rtrancl_into_rtrancl)
    moreover have "crashed (?q\<lparr>crashed := True\<rparr>)" by simp
    ultimately show ?thesis by blast
  next
    case True
    then obtain reply where r: "r = Value reply" by blast
    let ?p' = "(put_session i (session_at i ?q) None ?q)\<lparr>answered := answered ?q @ [(job_message ?j, reply)]\<rparr>"
    let ?l = "\<lparr>link_saved = s_saved s', link_error = s_error s', link_id = s_insert_id s', link_job = None\<rparr>"
    have "overlap_step P ?q ?p'"
      using overlap_step.respond[OF q more(3)[unfolded r] more(4)] by simp
    with steps have "(overlap_step P)\<^sup>*\<^sup>* p ?p'" by (rule rtranclp.rtrancl_into_rtrancl)
    moreover have at: "session_at i ?q = s'"
      using session_put[OF i] perform_all_now[OF more(1)] by (simp add: session_at_def)
    have links: "links ?p' = (links p)[i := ?l]"
      unfolding at put_put by (simp add: put_session_def)
    have "\<not> held (s_saved s')"
      using perform_all_saved[OF more(1)] more(5) ops(2) by (simp add: r session_at_def)
    then have "\<forall>l \<in> set (links ?p'). link_saved l = None"
      unfolding links using alone i by (auto simp: held_def in_set_conv_nth nth_list_update)
    moreover have "pending p = add_mset (job_message j) (pending ?p')"
      unfolding pending_def links using map_filter_mset[OF i _ j, of ?l] by simp
    moreover have "answered ?p' = answered p @ [(job_message j, reply)]" "\<not> crashed ?p'"
      using assms(2) by (simp_all add: put_session_def)
    ultimately show ?thesis by blast
  qed
qed

definition idle :: "pool \<Rightarrow> bool" where
  "idle p \<longleftrightarrow> (\<forall>l \<in> set (links p). link_job l = None)"

lemma pending_idle: "pending p = {#} \<longleftrightarrow> idle p"
  by (auto simp: pending_def idle_def List.map_filter_def filter_empty_conv)

lemma finish_all:
  assumes "settled P p" and "\<not> crashed p" and "\<forall>l \<in> set (links p). link_saved l = None"
  shows "\<exists>p' replies. (overlap_step P)\<^sup>*\<^sup>* p p' \<and> (crashed p' \<or> idle p' \<and>
     answered p' = answered p @ replies \<and> mset (map fst replies) = pending p)"
  using assms
proof (induction "size (pending p)" arbitrary: p rule: less_induct)
  case less
  show ?case
  proof (cases "idle p")
    case True
    then show ?thesis using pending_idle[of p] by (intro exI[of _ p] exI[of _ "[]"]) simp
  next
    case False
    then obtain i j where i: "i < length (links p)" "link_job (links p ! i) = Some j"
      by (auto simp: idle_def in_set_conv_nth)
    from finish_one[OF less.prems(1,2) i] less.prems(3)
    obtain p1 where p1: "(overlap_step P)\<^sup>*\<^sup>* p p1" "crashed p1 \<or> \<not> crashed p1 \<and>
       (\<forall>l \<in> set (links p1). link_saved l = None) \<and>
       (\<exists>reply. answered p1 = answered p @ [(job_message j, reply)]) \<and> pending p = add_mset (job_message j) (pending p1)"
      by auto
    show ?thesis
    proof (cases "crashed p1")
      case True
      with p1(1) show ?thesis by blast
    next
      case False
      with p1(2) obtain reply where r: "\<forall>l \<in> set (links p1). link_saved l = None"
        "answered p1 = answered p @ [(job_message j, reply)]" "pending p = add_mset (job_message j) (pending p1)" by blast
      have "settled P p1" using settling.steps_inv[OF p1(1) less.prems(1)] .
      from less.hyps[OF _ this False r(1)] r(3)
      obtain p' replies where p': "(overlap_step P)\<^sup>*\<^sup>* p1 p'" "crashed p' \<or> idle p' \<and>
        answered p' = answered p1 @ replies \<and> mset (map fst replies) = pending p1"
        by auto
      from p1(1) p'(1) have "(overlap_step P)\<^sup>*\<^sup>* p p'" by (rule rtranclp_trans)
      moreover have "crashed p' \<or> idle p' \<and> answered p' = answered p @ ((job_message j, reply) # replies) \<and>
          mset (map fst ((job_message j, reply) # replies)) = pending p"
        using p'(2) r(2,3) by auto
      ultimately show ?thesis by blast
    qed
  qed
qed

text \<open>First the connection that has a transaction, if there is one.\<close>

lemma close_transaction:
  assumes "settled P p" and "\<not> crashed p"
  shows "\<exists>p1 replies. (overlap_step P)\<^sup>*\<^sup>* p p1 \<and> (crashed p1 \<or> (\<forall>l \<in> set (links p1). link_saved l = None) \<and>
     answered p1 = answered p @ replies \<and> pending p = mset (map fst replies) + pending p1)"
proof (cases "\<exists>i < length (links p). held (link_saved (links p ! i))")
  case False
  then show ?thesis
    by (intro exI[of _ p] exI[of _ "[]"]) (auto simp: held_def in_set_conv_nth)
next
  case True
  then obtain i where i: "i < length (links p)" "held (link_saved (links p ! i))" by blast
  then obtain j where j: "link_job (links p ! i) = Some j"
    using settledD(1)[OF assms(1) i(1)] by (cases "link_job (links p ! i)") (auto simp: link_settled_def held_def)
  have alone: "link_saved (links p ! k) = None" if "k < length (links p)" "k \<noteq> i" for k
  proof -
    have "\<not> held (link_saved (links p ! k))" using settledD(2)[OF assms(1) i(1) that(1) i(2)] that(2) by blast
    then show ?thesis by (simp add: held_def)
  qed
  from finish_one[OF assms i(1) j alone] obtain p1 where p1: "(overlap_step P)\<^sup>*\<^sup>* p p1"
    "crashed p1 \<or> \<not> crashed p1 \<and> (\<forall>l \<in> set (links p1). link_saved l = None) \<and>
     (\<exists>reply. answered p1 = answered p @ [(job_message j, reply)]) \<and> pending p = add_mset (job_message j) (pending p1)"
    by blast
  show ?thesis
  proof (cases "crashed p1")
    case False
    with p1(2) obtain reply where "\<forall>l \<in> set (links p1). link_saved l = None" "answered p1 = answered p @ [(job_message j, reply)]"
      "pending p = mset (map fst [(job_message j, reply)]) + pending p1" by auto
    with p1(1) show ?thesis by blast
  qed (use p1(1) in blast)
qed

lemma idle_closed: "idle p \<Longrightarrow> settled P p \<Longrightarrow> \<forall>l \<in> set (links p). link_saved l = None"
proof
  fix l assume "idle p" "settled P p" "l \<in> set (links p)"
  then obtain i where i: "i < length (links p)" "l = links p ! i" by (auto simp: in_set_conv_nth)
  have "link_job l = None" using \<open>idle p\<close> \<open>l \<in> set (links p)\<close> by (simp add: idle_def)
  then show "link_saved l = None"
    using settledD(1)[OF \<open>settled P p\<close> i(1)] by (simp add: link_settled_def i(2))
qed

end
