(* ===== verification/Overlap_Uptime.thy ===== *)
theory Overlap_Uptime
  imports Request_Progress
begin

text \<open>
  A server whose requests overlap does not go down either, and answers every request. What a handler
  got from the database before may be out of date when its next operation runs; but each single answer came
  from a database in order, and no conversion of such an answer fails an assertion.
\<close>

section \<open>Handlers with one operation\<close>

interpretation replay_draining: draining replay_driver
  by unfold_locales (simp add: session_replay.drain_nothing retM_def)

text \<open>An effect that asks for nothing, and one that asks only while it has no answer.\<close>

definition no_ask :: "(waiting, 'a) act \<Rightarrow> bool" where
  "no_ask w \<longleftrightarrow> preserves (\<lambda>c. c) w"

definition one_ask :: "(waiting, 'a) act \<Rightarrow> bool" where
  "one_ask w \<longleftrightarrow> (\<forall>c. answers_left c \<noteq> [] \<longrightarrow> asks (snd (w c)) = asks c)"

lemma no_askD: "no_ask w \<Longrightarrow> snd (w c) = c"
  by (simp add: no_ask_def within_def)

lemma one_ask_none: "no_ask w \<Longrightarrow> one_ask w"
  by (simp add: one_ask_def no_askD)

lemma one_ask_after:
  assumes "no_ask w" and "\<And>x. one_ask (f x)"
  shows "one_ask (bindM w f)"
proof -
  have "asks (snd (bindM w f c)) = asks c" if "answers_left c \<noteq> []" for c
    using no_askD[OF assms(1), of c] assms(2) that
    by (cases "w c") (auto simp: bindM_def one_ask_def split: outcome.split)
  then show ?thesis by (simp add: one_ask_def)
qed

lemma one_ask_before:
  assumes "one_ask w" and "\<And>x. no_ask (f x)"
  shows "one_ask (bindM w f)"
proof -
  have "snd (bindM w f c) = snd (w c)" for c
    using no_askD[OF assms(2)] by (auto simp: bindM_def split: prod.split outcome.split)
  then show ?thesis using assms(1) by (simp add: one_ask_def)
qed

lemma one_ask_catch: "one_ask w \<Longrightarrow> no_ask h \<Longrightarrow> one_ask (catch_all w h)"
  using no_askD[of h] by (auto simp: one_ask_def catch_all_def split: prod.splits outcome.splits)

lemma one_ask_if: "one_ask w \<Longrightarrow> one_ask v \<Longrightarrow> one_ask (if b then w else v)"
  by simp

lemma one_ask_store: "one_ask (storeM replay_driver t)"
  by (auto simp: one_ask_def storeM_def replay_driver_def ask_def split: list.split)

lemma one_ask_invoke:
  assumes "\<And>res. no_ask (f res)"
  shows "one_ask (invoke_store replay_driver t f)"
proof -
  have "no_ask (bindM (f res) (\<lambda>v. bindM (retM ()) (\<lambda>_. retM v)))" for res
    using assms unfolding no_ask_def by (intro within_intros)
  then show ?thesis
    unfolding invoke_steps session_replay.drain_nothing by (intro one_ask_before one_ask_store)
qed

lemma no_ask_values: "no_ask (retM v)" "no_ask (string_value E t k)" "no_ask (int_value E t k)"
  unfolding no_ask_def string_value_def int_value_def by (intro within_intros)+

lemma one_ask_check: "one_ask (check_user_existance E replay_driver config R)"
  unfolding check_user_existance_def Let_def
  by (intro one_ask_catch one_ask_if one_ask_after one_ask_invoke no_ask_values one_ask_none[OF no_ask_values(1)])
    (unfold no_ask_def reply_error_def, intro within_intros)

lemma one_ask_store_reply: "one_ask (store_reply E replay_driver q table flds)"
  unfolding store_reply_def by (intro one_ask_invoke) (unfold no_ask_def, intro within_intros)

lemma one_ask_dates:
  assumes "\<And>t1 t2. one_ask (f t1 t2)"
  shows "one_ask (with_dates E config f)"
  unfolding with_dates_def try_bad_config_def Let_def
  by (intro one_ask_catch one_ask_after no_ask_values assms)

lemma one_ask_queries:
  "one_ask (get_ranks E replay_driver config)" "one_ask (get_customers E replay_driver config)"
  "one_ask (get_orders E replay_driver config)" "one_ask (get_order_items E replay_driver config)"
  "one_ask (get_items E replay_driver config)" "one_ask (get_distributors E replay_driver config)"
  "one_ask (get_item_types E replay_driver config)" "one_ask (get_completed_orders E replay_driver config)"
  "one_ask (get_statistics E replay_driver config)"
  unfolding open_handler_defs
  by (auto intro!: one_ask_store_reply one_ask_dates one_ask_none[OF no_ask_values(1)] split: option.split)

lemma one_ask_income: "one_ask (get_income E replay_driver config)"
  unfolding get_income_def
  by (intro one_ask_dates one_ask_invoke) (unfold no_ask_def, intro within_intros)

section \<open>Answers from a database in order\<close>

text \<open>
  The answers of a job, each from some session in order; between two of them the connection keeps
  the error text and the insert id it knows, the database may have changed.
\<close>

inductive traced :: "pool_setup \<Rightarrow> string \<Rightarrow> 64 word \<Rightarrow> db_op list \<Rightarrow> answer list \<Rightarrow> string \<Rightarrow> 64 word \<Rightarrow> bool" for P where
  traced_none: "session_ok (ps_cfg P) s \<Longrightarrow> traced P (s_error s) (s_insert_id s) [] [] (s_error s) (s_insert_id s)"
| traced_op: "session_ok (ps_cfg P) s \<Longrightarrow> perform (pool_driver P) opn s = (a, s1) \<Longrightarrow>
     traced P (s_error s1) (s_insert_id s1) ops as e n \<Longrightarrow> traced P (s_error s) (s_insert_id s) (opn # ops) (a # as) e n"

lemma traced_more:
  assumes "traced P e n ops as e' n'" and "e' = s_error s" and "n' = s_insert_id s" and "session_ok (ps_cfg P) s"
    and "perform (pool_driver P) opn s = (a, s1)" and "session_ok (ps_cfg P) s1"
  shows "traced P e n (ops @ [opn]) (as @ [a]) (s_error s1) (s_insert_id s1)"
  using assms
proof (induction rule: traced.induct)
  case (traced_none s0)
  have "traced P (s_error s) (s_insert_id s) [opn] [a] (s_error s1) (s_insert_id s1)"
    by (intro traced_op[OF traced_none(4,5)] traced.traced_none traced_none(6))
  then show ?case by (simp add: traced_none(2,3))
next
  case (traced_op s0 opn0 a0 s2 ops as e' n')
  then show ?case by (auto intro: traced.traced_op)
qed

text \<open>A session to begin with, of which the first answer is.\<close>

lemma traced_first:
  assumes "traced P e n ops as e' n'"
  obtains (none) s where "session_ok (ps_cfg P) s" "s_error s = e" "s_insert_id s = n" "ops = []" "as = []"
  | (op) s opn a s1 ops1 as1 where "session_ok (ps_cfg P) s" "s_error s = e" "s_insert_id s = n" "ops = opn # ops1"
      "as = a # as1" "perform (pool_driver P) opn s = (a, s1)" "traced P (s_error s1) (s_insert_id s1) ops1 as1 e' n'"
  using assms by cases auto

abbreviation waiting_with :: "answer list \<Rightarrow> string \<Rightarrow> 64 word \<Rightarrow> waiting" where
  "waiting_with as e n \<equiv> \<lparr>answers_left = as, asks = None, known_error = e, known_id = n\<rparr>"

lemma waiting_for_with: "waiting_for (pool_driver P) as s = waiting_with as (s_error s) (s_insert_id s)"
  by (simp add: waiting_for_def pool_driver_def session_driver_def)

text \<open>An effect that ends well with all such answers.\<close>

definition sound_act :: "pool_setup \<Rightarrow> (waiting, 'a) act \<Rightarrow> bool" where
  "sound_act P w \<longleftrightarrow> (\<forall>e n ops as e' n'. traced P e n ops as e' n' \<longrightarrow>
     (\<forall>k < length ops. asks (snd (w (waiting_with (take k as) e n))) = Some (ops ! k)) \<longrightarrow>
     asks (snd (w (waiting_with as e n))) = None \<longrightarrow> (\<exists>v. fst (w (waiting_with as e n)) = Value v))"

lemma sound_answers: "answers w \<Longrightarrow> sound_act P w"
  unfolding sound_act_def using answers_value by (metis fst_conv)

text \<open>The one operation of an effect, if it has one, on a given session.\<close>

lemma one_operation:
  assumes "replayed (pool_driver P) m w" and "one_ask w" and "m s = (r, s')"
  obtains (none) "\<And>as. w (waiting_for (pool_driver P) as s) = (r, waiting_for (pool_driver P) as s)"
  | (one) opn a where "perform (pool_driver P) opn s = (a, s')" "blocked opn (snd (w (waiting_for (pool_driver P) [] s)))"
      "\<And>as. w (waiting_for (pool_driver P) (a # as) s) = (r, waiting_for (pool_driver P) as s')"
proof -
  obtain opns where opns: "replays (pool_driver P) m w opns s" using assms(1) by (auto simp: replayed_def)
  obtain bs s1 where bs: "perform_all (pool_driver P) opns s = (bs, s1)" by force
  have s1: "s1 = s'" using opns by (simp add: replays_def bs assms(3))
  have w: "w (waiting_for (pool_driver P) (bs @ as) s) = (r, waiting_for (pool_driver P) as s')" for as
    using opns by (simp add: replays_def bs s1 assms(3))
  have ask: "blocked (opns ! k) (snd (w (waiting_for (pool_driver P) (take k bs) s)))" if "k < length opns" for k
    using opns that by (simp add: replays_def bs)
  have len: "length bs = length opns" by (rule length_perform_all[OF bs])
  have "length opns \<le> 1"
  proof (rule ccontr)
    assume "\<not> length opns \<le> 1"
    then have "1 < length opns" by simp
    moreover have "asks (snd (w (waiting_for (pool_driver P) (take 1 bs) s))) = None"
      using assms(2) calculation len by (cases bs) (simp_all add: one_ask_def waiting_for_def)
    ultimately show False using ask[of 1] by (simp add: blocked_def)
  qed
  then consider "opns = []" | opn where "opns = [opn]" by (cases opns) auto
  then show thesis
  proof cases
    case 1
    with bs s1 w none show thesis by simp
  next
    case (2 opn)
    then obtain a where "perform (pool_driver P) opn s = (a, s')" "bs = [a]"
      using bs s1 by (auto split: prod.splits)
    with 2 w ask[of 0] one[of opn a] show thesis by simp
  qed
qed

lemma sound_one_ask:
  assumes "replayed (pool_driver P) m w" and "one_ask w"
    and "\<And>s. session_ok (ps_cfg P) s \<Longrightarrow> gets_reply m s"
  shows "sound_act P w"
  unfolding sound_act_def
proof (intro allI impI)
  fix e n ops as e' n'
  assume tr: "traced P e n ops as e' n'" and asked: "\<forall>k < length ops. asks (snd (w (waiting_with (take k as) e n))) = Some (ops ! k)"
    and finished: "asks (snd (w (waiting_with as e n))) = None"
  from tr show "\<exists>v. fst (w (waiting_with as e n)) = Value v"
  proof (cases rule: traced_first)
    case (none s)
    obtain v s' where v: "m s = (Value v, s')" using assms(3)[OF none(1)] by (auto simp: gets_reply_def)
    from assms(1,2) v show ?thesis
      by (cases rule: one_operation) (use none finished in \<open>auto simp: waiting_for_with blocked_def\<close>)
  next
    case (op s opn a s1 ops1 as1)
    obtain v s' where v: "m s = (Value v, s')" using assms(3)[OF op(1)] by (auto simp: gets_reply_def)
    have "asks (snd (w (waiting_with [] e n))) = Some opn" using asked op(4) by force
    with assms(1,2) v show ?thesis
      by (cases rule: one_operation) (use op in \<open>auto simp: waiting_for_with blocked_def\<close>)
  qed
qed

lemma sound_actD:
  "sound_act P w \<Longrightarrow> traced P e n ops as e' n' \<Longrightarrow>
     (\<And>k. k < length ops \<Longrightarrow> asks (snd (w (waiting_with (take k as) e n))) = Some (ops ! k)) \<Longrightarrow>
     asks (snd (w (waiting_with as e n))) = None \<Longrightarrow> \<exists>v. fst (w (waiting_with as e n)) = Value v"
  unfolding sound_act_def by blast

lemma sound_guarded:
  assumes "sound_act P body" and "\<And>opn. maintains (blocked opn) body"
  shows "sound_act P (guarded E replay_driver config R body)"
  unfolding sound_act_def
proof (intro allI impI)
  fix e n ops as e' n'
  let ?g = "guarded E replay_driver config R body" and ?c = "check_user_existance E replay_driver config R"
  let ?m = "check_user_existance E (pool_driver P) config R"
  assume tr: "traced P e n ops as e' n'" and asked: "\<forall>k < length ops. asks (snd (?g (waiting_with (take k as) e n))) = Some (ops ! k)"
    and finished: "asks (snd (?g (waiting_with as e n))) = None"
  have check: "replayed (pool_driver P) ?m ?c"
    unfolding pool_driver_def by (rule session_replay.replayed_check)
  have ends: "\<exists>str s'. ?m s = (Value str, s')" for s
    using answers_value[OF session.calm_check] unfolding pool_driver_def by blast
  have body: "?g c0 = (if str = [] then body c1 else (Value str, c1))" if "?c c0 = (Value str, c1)" for c0 str c1
    using that by (simp add: guarded_def bindM_def retM_def)
  have blocks: "asks (snd (?g c0)) = Some opn" if "blocked opn (snd (?c c0))" for opn c0
  proof -
    obtain r c1 where c: "?c c0 = (r, c1)" by force
    then have "blocked opn (snd (?g c0))"
      using that withinD[OF assms(2), of opn c1] by (cases r) (auto simp: guarded_def bindM_def retM_def)
    then show ?thesis by (simp add: blocked_def)
  qed
  from tr show "\<exists>v. fst (?g (waiting_with as e n)) = Value v"
  proof (cases rule: traced_first)
    case (none s)
    obtain str s' where v: "?m s = (Value str, s')" using ends by blast
    from check one_ask_check v show ?thesis
    proof (cases rule: one_operation)
      case none': none
      have g: "?g (waiting_with [] e n) = (if str = [] then body (waiting_with [] e n) else (Value str, waiting_with [] e n))"
        using body[OF none'[of "[]", unfolded waiting_for_with]] none(2,3) by simp
      then show ?thesis
        using sound_actD[OF assms(1) tr] finished none(4,5) by (cases "str = []") simp_all
    next
      case (one opn a)
      then show ?thesis using blocks[OF one(2)] finished none by (simp add: waiting_for_with)
    qed
  next
    case (op s opn a s1 ops1 as1)
    obtain str s' where v: "?m s = (Value str, s')" using ends by blast
    from check one_ask_check v show ?thesis
    proof (cases rule: one_operation)
      case none
      have g: "?g (waiting_with bs e n) = (if str = [] then body (waiting_with bs e n) else (Value str, waiting_with bs e n))" for bs
        using body[OF none[of bs, unfolded waiting_for_with]] op(2,3) by simp
      then show ?thesis
        using sound_actD[OF assms(1) tr] finished asked by (cases "str = []") simp_all
    next
      case (one opn' a')
      have "asks (snd (?g (waiting_with [] e n))) = Some opn" using asked op(4) by force
      then have "opn' = opn" using blocks[OF one(2)] op(2,3) by (simp add: waiting_for_with)
      then have same: "a' = a" "s' = s1" using one(1) op(6) by simp_all
      let ?w = "\<lambda>bs. waiting_with bs (s_error s1) (s_insert_id s1)"
      have g: "?g (waiting_with (a # bs) e n) = (if str = [] then body (?w bs) else (Value str, ?w bs))" for bs
        using body[OF one(3)[of bs, unfolded waiting_for_with same]] op(2,3) by simp
      show ?thesis
      proof (cases "str = []")
        case True
        have "asks (snd (body (?w (take k as1)))) = Some (ops1 ! k)" if "k < length ops1" for k
          using asked[rule_format, of "Suc k"] that op(4,5) g True by simp
        from sound_actD[OF assms(1) op(7) this] finished g True show ?thesis
          by (simp add: op(5))
      qed (simp add: op(5) g)
    qed
  qed
qed

section \<open>Every handler\<close>

lemma session_in_order: "session_ok cfg s \<Longrightarrow> names_ok (s_db s) \<and> db_inv cfg (s_db s)"
  by (simp add: session_ok_def session_inv_def)

lemma replayed_store_reply:
  "replayed (pool_driver P) (store_reply E (pool_driver P) q table flds) (store_reply E replay_driver q table flds)"
  unfolding pool_driver_def store_reply_def by (intro replay_intros session_replay.replayed_invoke session_replay.replayed_serialize)

lemma sound_staff_queries:
  assumes "order_ok E" and "days_ok (ps_cfg P)"
  shows "sound_act P (get_users E replay_driver config)" "sound_act P (get_expired_orders E replay_driver config)"
proof -
  have keep: "maintains (blocked opn) (store_reply E replay_driver q table flds)" for opn q table flds
    using replayed_store_reply[of undefined E q table flds] by (simp add: replayed_def)
  have "gets_reply (store_reply E (pool_driver P) ''CALL GetUsers();'' ''users'' users_fields) s"
    if "session_ok (ps_cfg P) s" for s
    using session.users_listing[of s "ps_cfg P" E "ps_other P" "ps_ins P"] session_in_order[OF that]
    unfolding query_texts pool_driver_def gets_reply_def by blast
  then show "sound_act P (get_users E replay_driver config)"
    unfolding get_users_def by (intro sound_guarded[OF sound_one_ask[OF replayed_store_reply one_ask_store_reply] keep])
  have "gets_reply (store_reply E (pool_driver P) ''CALL GetExpiredOrders();'' ''expired_orders'' orders_fields) s"
    if "session_ok (ps_cfg P) s" for s
  proof -
    have "run_call (ps_cfg P) (s_now s) (''GetExpiredOrders'', []) (s_db s) =
        rows_of Order_columns (order_rows (ps_cfg P) (order_expired (ps_cfg P) (s_now s)) (s_db s)) (s_db s)"
      by (simp add: run_query_calls GetExpiredOrders_def)
    from session.orders_reply[OF assms(1) _ _ assms(2) _ this] session_in_order[OF that]
    show ?thesis unfolding query_texts pool_driver_def gets_reply_def by (simp add: safe_call_def) blast
  qed
  then show "sound_act P (get_expired_orders E replay_driver config)"
    unfolding get_expired_orders_def by (intro sound_guarded[OF sound_one_ask[OF replayed_store_reply one_ask_store_reply] keep])
qed

lemma sound_queries:
  assumes "order_ok E" and "reads_numbers E (ps_cfg P)" and "days_ok (ps_cfg P)"
  shows "sound_act P (get_ranks E replay_driver config)" "sound_act P (get_customers E replay_driver config)"
    "sound_act P (get_orders E replay_driver config)" "sound_act P (get_items E replay_driver config)"
    "sound_act P (get_distributors E replay_driver config)" "sound_act P (get_item_types E replay_driver config)"
    "sound_act P (get_completed_orders E replay_driver config)" "sound_act P (get_statistics E replay_driver config)"
    "sound_act P (get_income E replay_driver config)"
proof -
  note rep = session_replay.replayed_handlers[unfolded requests_def list.rel_inject prod.case, folded pool_driver_def]
  note replies = session.table_queries[OF assms(1)] session.order_queries[OF assms(1) _ _ assms(3)]
    session.amount_queries[OF assms(1,2)]
  note known = rep one_ask_queries one_ask_income replies session_in_order
  show "sound_act P (get_ranks E replay_driver config)"
    by (rule sound_one_ask[where m = "get_ranks E (pool_driver P) config"]) (use known in \<open>auto simp: pool_driver_def\<close>)
  show "sound_act P (get_customers E replay_driver config)"
    by (rule sound_one_ask[where m = "get_customers E (pool_driver P) config"]) (use known in \<open>auto simp: pool_driver_def\<close>)
  show "sound_act P (get_orders E replay_driver config)"
    by (rule sound_one_ask[where m = "get_orders E (pool_driver P) config"]) (use known in \<open>auto simp: pool_driver_def\<close>)
  show "sound_act P (get_items E replay_driver config)"
    by (rule sound_one_ask[where m = "get_items E (pool_driver P) config"]) (use known in \<open>auto simp: pool_driver_def\<close>)
  show "sound_act P (get_distributors E replay_driver config)"
    by (rule sound_one_ask[where m = "get_distributors E (pool_driver P) config"]) (use known in \<open>auto simp: pool_driver_def\<close>)
  show "sound_act P (get_item_types E replay_driver config)"
    by (rule sound_one_ask[where m = "get_item_types E (pool_driver P) config"]) (use known in \<open>auto simp: pool_driver_def\<close>)
  show "sound_act P (get_completed_orders E replay_driver config)"
    by (rule sound_one_ask[where m = "get_completed_orders E (pool_driver P) config"]) (use known in \<open>auto simp: pool_driver_def\<close>)
  show "sound_act P (get_statistics E replay_driver config)"
    by (rule sound_one_ask[where m = "get_statistics E (pool_driver P) config"]) (use known in \<open>auto simp: pool_driver_def\<close>)
  show "sound_act P (get_income E replay_driver config)"
    by (rule sound_one_ask[where m = "get_income E (pool_driver P) config"]) (use known in \<open>auto simp: pool_driver_def\<close>)
qed

text \<open>
  What the rest of the system has to keep: the VM, the database server and its calendar; and
  \<open>get_order_items\<close> is asked for an \<open>INT\<close>.
\<close>

definition sound_pool :: "pool_setup \<Rightarrow> bool" where
  "sound_pool P \<longleftrightarrow> order_ok (ps_env P) \<and> reads_numbers (ps_env P) (ps_cfg P) \<and> value_exn (ps_env P) \<noteq> Exn_other \<and>
     days_ok (ps_cfg P) \<and> (\<forall>m config i. ps_exec P m = Some config \<longrightarrow> get_config_request config = ''get_order_items'' \<longrightarrow>
       get_raw_int config ''order_id'' = Some i \<longrightarrow> fits_int i)"

lemma sound_order_items:
  assumes "order_ok E" and "reads_numbers E (ps_cfg P)" and "\<And>i. get_raw_int config ''order_id'' = Some i \<Longrightarrow> fits_int i"
  shows "sound_act P (get_order_items E replay_driver config)"
proof (rule sound_one_ask[where m = "get_order_items E (pool_driver P) config"])
  show "replayed (pool_driver P) (get_order_items E (pool_driver P) config) (get_order_items E replay_driver config)"
    using session_replay.replayed_handlers[of "ps_cfg P" "ps_other P" "ps_ins P" E config]
    by (simp add: requests_def pool_driver_def)
  show "gets_reply (get_order_items E (pool_driver P) config) s" if "session_ok (ps_cfg P) s" for s
    using session.get_order_items_replies[OF assms(1,2) _ assms(3)] session_in_order[OF that]
    by (simp add: pool_driver_def)
qed (rule one_ask_queries)

lemma sound_request:
  assumes "sound_pool P"
  shows "sound_act P (process_request (ps_env P\<lparr>clock := t\<rparr>) replay_driver (ps_exec P) requests msg)"
proof -
  let ?E = "ps_env P\<lparr>clock := t\<rparr>"
  have E: "order_ok ?E" "reads_numbers ?E (ps_cfg P)" "value_exn ?E \<noteq> Exn_other" "days_ok (ps_cfg P)"
    using assms by (simp_all add: sound_pool_def sound_clock)
  have walk: "walk_of (requests :: (string \<times> waiting handler) list) requests" by (simp add: walk_of_def request_set_requests)
  have plain: "sound_act P (retM v)" for v :: string by (intro sound_answers calm_basic)
  note changes = replay_draining.calm_changes[THEN sound_answers] replay_draining.calm_create_user[OF E(3), THEN sound_answers]
    sound_staff_queries[OF E(1,4)] sound_queries[OF E(1,2,4)]
  have "list_all (\<lambda>(n, h). n \<noteq> ''get_order_items'' \<longrightarrow> sound_act P (h ?E replay_driver config)) requests" for config
    unfolding requests_def by (simp add: changes)
  then have h: "sound_act P (h ?E replay_driver config)"
    if "map_of requests n = Some h" "n \<noteq> ''get_order_items''" for h n config
    using that(2) map_of_SomeD[OF that(1)] by (auto simp: list_all_iff)
  have items: "sound_act P (h ?E replay_driver config)"
    if "map_of requests ''get_order_items'' = Some h" "ps_exec P msg = Some config"
      "get_config_request config = ''get_order_items''" for h config
  proof -
    have "h = get_order_items" using that(1) by (simp add: requests_def)
    moreover have "fits_int i" if "get_raw_int config ''order_id'' = Some i" for i
      using assms that \<open>ps_exec P msg = Some config\<close> \<open>get_config_request config = ''get_order_items''\<close>
      by (simp add: sound_pool_def)
    ultimately show ?thesis using sound_order_items[OF E(1,2)] by simp
  qed
  have "\<exists>w. process_request ?E replay_driver (ps_exec P) requests msg = w \<and> sound_act P w"
  proof (cases "ps_exec P msg")
    case None
    then show ?thesis using plain by (intro exI conjI refl) (simp add: process_request_def parse_config_def)
  next
    case (Some config)
    let ?n = "get_config_request config"
    show ?thesis
    proof (cases "map_of (requests :: (string \<times> waiting handler) list) ?n")
      case None
      then have "process_request ?E replay_driver (ps_exec P) requests msg = retM bad_config"
        by (simp add: process_request_cases[OF walk] Some fun_eq_iff outcome_simps)
      then show ?thesis using plain by simp
    next
      case m: (Some h)
      then have "process_request ?E replay_driver (ps_exec P) requests msg = h ?E replay_driver config"
        by (simp add: process_request_cases[OF walk] Some fun_eq_iff)
      then show ?thesis using h[OF m] items[OF _ Some] m by (cases "?n = ''get_order_items''") auto
    qed
  qed
  then show ?thesis by simp
qed

section \<open>The process does not end\<close>

definition link_sound :: "pool_setup \<Rightarrow> link \<Rightarrow> bool" where
  "link_sound P l \<longleftrightarrow> (case link_job l of None \<Rightarrow> True
     | Some j \<Rightarrow> \<exists>ops. asked P j ops \<and> traced P (job_error j) (job_id j) ops (job_answers j) (link_error l) (link_id l))"

definition pool_up :: "pool_setup \<Rightarrow> pool \<Rightarrow> bool" where
  "pool_up P p \<longleftrightarrow> pool_ok P p \<and> \<not> crashed p \<and> (\<forall>l \<in> set (links p). link_sound P l)"

lemma pool_up_put:
  assumes "pool_up P p" and "session_ok (ps_cfg P) s"
    and "link_sound P \<lparr>link_saved = s_saved s, link_error = s_error s, link_id = s_insert_id s, link_job = j\<rparr>"
  shows "pool_up P (put_session i s j p)"
  using assms pool_ok_put[of P p s i j]
  by (auto simp: pool_up_def put_session_def dest!: subsetD[OF set_update_subset_insert])

lemma overlap_step_up:
  assumes "overlap_step P p p'" and "pool_up P p" and "sound_pool P"
  shows "pool_up P p'"
  using assms(1)
proof cases
  case (receive i m t)
  have ok: "session_ok (ps_cfg P) (session_at i p)"
    using assms(2) receive(3) by (simp add: pool_up_def pool_ok_session)
  from traced_none[OF this] have "link_sound P \<lparr>link_saved = s_saved (session_at i p), link_error = s_error (session_at i p),
      link_id = s_insert_id (session_at i p), link_job = Some \<lparr>job_message = m, job_time = t,
        job_error = link_error (links p ! i), job_id = link_id (links p ! i), job_answers = []\<rparr>\<rparr>"
    by (simp add: link_sound_def asked_def session_at_def)
  then show ?thesis unfolding receive(1) begin_job_def by (rule pool_up_put[OF assms(2) ok])
next
  case (operate i j opn a s)
  have ok: "session_ok (ps_cfg P) (session_at i p)"
    using assms(2) operate(3) by (simp add: pool_up_def pool_ok_session)
  from perform_ok[OF this operate(7) job_asks_statement[OF operate(5)]] have s: "session_ok (ps_cfg P) s" .
  have "link_sound P (links p ! i)" using assms(2) operate(3) by (simp add: pool_up_def)
  then obtain ops where ops: "asked P j ops"
    "traced P (job_error j) (job_id j) ops (job_answers j) (link_error (links p ! i)) (link_id (links p ! i))"
    by (auto simp: link_sound_def operate(4))
  have "traced P (job_error j) (job_id j) (ops @ [opn]) (job_answers j @ [a]) (s_error s) (s_insert_id s)"
    by (rule traced_more[OF ops(2) _ _ ok operate(7) s]) (simp_all add: session_at_def)
  with asked_more[OF ops(1) operate(5,7)] show ?thesis
    unfolding operate(1) by (intro pool_up_put[OF assms(2) s]) (auto simp: link_sound_def)
next
  case (respond i j reply c)
  have "pool_up P (put_session i (session_at i p) None p)"
    using assms(2) respond(3) by (intro pool_up_put) (simp_all add: pool_up_def pool_ok_session link_sound_def)
  then show ?thesis by (simp add: respond(1) pool_up_def pool_ok_def)
next
  case (crash i j r c)
  have "link_sound P (links p ! i)" using assms(2) crash(3) by (simp add: pool_up_def)
  then obtain ops where ops: "asked P j ops"
    "traced P (job_error j) (job_id j) ops (job_answers j) (link_error (links p ! i)) (link_id (links p ! i))"
    by (auto simp: link_sound_def crash(4))
  let ?w = "process_request (ps_env P\<lparr>clock := job_time j\<rparr>) replay_driver (ps_exec P) requests (job_message j)"
  have asks: "asks (snd (?w (waiting_with (take k (job_answers j)) (job_error j) (job_id j)))) = Some (ops ! k)"
    if "k < length ops" for k
    using ops(1) that by (simp add: asked_def job_run_def)
  have "?w (waiting_with (job_answers j) (job_error j) (job_id j)) = (r, c)"
    using crash(5) by (simp add: job_run_def)
  with sound_actD[OF sound_request[OF assms(3)] ops(2) asks] crash(6) have "\<exists>v. r = Value v" by simp
  with crash(7) show ?thesis by simp
qed (use assms(2) in \<open>simp_all add: pool_up_def pool_ok_def\<close>)

lemma pool_up_reachable:
  assumes "(overlap_step P)\<^sup>*\<^sup>* p p'" and "pool_up P p" and "sound_pool P"
  shows "pool_up P p'"
  using assms(1)
proof induction
  case (step y z)
  from overlap_step_up[OF step(2,3) assms(3)] show ?case .
qed (rule assms(2))

lemma Idle_up: "session_ok (ps_cfg P) s \<Longrightarrow> pool_up P (Idle_pool n s)"
  by (auto simp: pool_up_def pool_ok_def session_ok_tables Idle_pool_def link_sound_def)

lemma all_answered:
  assumes "(overlap_step P)\<^sup>*\<^sup>* (Idle_pool n s) p" and "session_ok (ps_cfg P) s" and "sound_pool P"
  shows "\<exists>p' replies. (overlap_step P)\<^sup>*\<^sup>* p p' \<and> idle p' \<and> (\<forall>l \<in> set (links p'). link_saved l = None) \<and>
     answered p' = answered p @ replies \<and> mset (map fst replies) = pending p"
proof -
  have up: "\<not> crashed p'" if "(overlap_step P)\<^sup>*\<^sup>* p p'" for p'
    using pool_up_reachable[OF rtranclp_trans[OF assms(1) that] Idle_up[OF assms(2)] assms(3)]
    by (simp add: pool_up_def)
  have settled: "settled P p" by (rule settling.reachable_inv[OF _ assms(1)]) blast
  obtain p1 rs where p1: "(overlap_step P)\<^sup>*\<^sup>* p p1" "\<forall>l \<in> set (links p1). link_saved l = None"
      "answered p1 = answered p @ rs" "pending p = mset (map fst rs) + pending p1"
    using close_transaction[OF settled up[OF rtranclp.rtrancl_refl]] up by blast
  from finish_all[OF settling.steps_inv[OF p1(1) settled] up[OF p1(1)] p1(2)]
  obtain p' rs' where p': "(overlap_step P)\<^sup>*\<^sup>* p1 p'" "crashed p' \<or> idle p' \<and> answered p' = answered p1 @ rs' \<and>
      mset (map fst rs') = pending p1" by blast
  have steps: "(overlap_step P)\<^sup>*\<^sup>* p p'" using p1(1) p'(1) by (rule rtranclp_trans)
  have ends: "idle p'" "answered p' = answered p @ (rs @ rs')" "mset (map fst (rs @ rs')) = pending p"
    using p'(2) up[OF steps] p1(3,4) by auto
  have "settled P p'" by (rule settling.steps_inv[OF steps settled])
  with ends(1) have "\<forall>l \<in> set (links p'). link_saved l = None" by (rule idle_closed)
  with steps ends show ?thesis by blast
qed

lemma overlap_links:
  assumes "(overlap_step P)\<^sup>*\<^sup>* p p'"
  shows "length (links p') = length (links p)"
  using assms
proof induction
  case (step y z)
  from step(2) have "length (links z) = length (links y)"
    by cases (simp_all add: begin_job_def put_session_def)
  with step(3) show ?case by simp
qed simp

text \<open>Two threads with a request each, both begun.\<close>

definition two_begun :: pool where
  "two_begun = begin_job 1 ''b'' 7 (begin_job 0 ''a'' 7 (Idle_pool 2 done_session))"

lemma two_begun_reachable: "(overlap_step day_pool)\<^sup>*\<^sup>* (Idle_pool 2 done_session) two_begun"
proof -
  let ?p = "begin_job 0 ''a'' 7 (Idle_pool 2 done_session)"
  have "overlap_step day_pool (Idle_pool 2 done_session) ?p"
    by (rule overlap_step.receive) (simp_all add: Idle_pool_def)
  moreover have "overlap_step day_pool ?p two_begun"
    unfolding two_begun_def by (rule overlap_step.receive) (simp_all add: Idle_pool_def begin_job_def put_session_def)
  ultimately show ?thesis by (meson converse_rtranclp_into_rtranclp r_into_rtranclp)
qed

lemma two_begun_pending: "pending two_begun = {#''a'', ''b''#}" "answered two_begun = []"
  by (simp_all add: two_begun_def begin_job_def put_session_def Idle_pool_def pending_def map_filter_simps numeral_2_eq_2)

lemma day_pool_sound: "sound_pool day_pool" "session_ok (ps_cfg day_pool) done_session"
proof -
  have "get_config_request (admin_request [(''request'', LString ''get_users'')]) = ''get_users''"
    by (simp add: get_config_request_def get_raw_string_def get_raw_of_ref)
  then show "sound_pool day_pool"
    using sample_order_ok sample_reads day_cfg_ok by (simp add: sound_pool_def day_pool_def) (simp add: sample_env_def)
  show "session_ok (ps_cfg day_pool) done_session"
    using done_inv done_names by (simp add: session_ok_tables tables_ok_def day_pool_def) (simp add: done_session_def sample_session_def)
qed

lemma two_answered:
  obtains p' where "(overlap_step day_pool)\<^sup>*\<^sup>* (Idle_pool 2 done_session) p'" "mset (map fst (answered p')) = {#''a'', ''b''#}"
proof -
  obtain p' where p': "(overlap_step day_pool)\<^sup>*\<^sup>* two_begun p'" "mset (map fst (answered p')) = {#''a'', ''b''#}"
    using all_answered[OF two_begun_reachable day_pool_sound(2,1)] by (auto simp: two_begun_pending)
  from two_begun_reachable p'(1) have "(overlap_step day_pool)\<^sup>*\<^sup>* (Idle_pool 2 done_session) p'"
    by (rule rtranclp_trans)
  with p'(2) that show thesis by blast
qed

section \<open>Properties\<close>







end
