(* ===== verification/Typed_Queries.thy ===== *)
theory Typed_Queries
  imports Request
begin

text \<open>
  The query templates of pc_course_server/DatabaseQuery.hpp, an earlier layer of the server that
  wrote its statements itself instead of calling stored procedures. The file is not part of the build:
  \<open>CheckConfExistance\<close> and \<open>ReceiveFromObject\<close> are declared nowhere, and \<open>GetRaw\<close> with two arguments is
  of another version of the Lua binding. They are the record \<open>conf_api\<close>, an argument of every
  definition. Names shared with the stored procedures have the suffix \<open>_typed\<close>.
\<close>

section \<open>What the templates rely on\<close>

text \<open>
  \<open>receive_string t k\<close> is \<open>ReceiveFromObject<String>(t.GetRaw(k, {}))\<close>, and so on; \<open>receive_at t i\<close> reads
  the \<open>i\<close>-th entry as a \<open>Ref\<close>. \<open>int_of_double\<close> and \<open>time_of_double\<close> are the implicit conversions to \<open>int\<close> and
  \<open>std::time_t\<close>, \<open>cell_is_int\<close> and \<open>cell_is_double\<close> the comparisons of a \<open>mysqlpp::String\<close> with a number.
\<close>

record conf_api =
  CheckConfExistance :: "lua \<Rightarrow> (string \<times> vm_type) list \<Rightarrow> bool"
  receive_string :: "lua \<Rightarrow> string \<Rightarrow> string outcome"
  receive_int :: "lua \<Rightarrow> string \<Rightarrow> i64 outcome"
  receive_number :: "lua \<Rightarrow> string \<Rightarrow> dbl outcome"
  receive_at :: "lua \<Rightarrow> nat \<Rightarrow> lua outcome"
  int_of_double :: "dbl \<Rightarrow> 32 word"
  time_of_double :: "dbl \<Rightarrow> int"
  cell_is_int :: "string option \<Rightarrow> 32 word \<Rightarrow> bool"
  cell_is_double :: "string option \<Rightarrow> dbl \<Rightarrow> bool"

definition receive :: "'a outcome \<Rightarrow> ('c, 'a) act" where
  "receive r c = (r, c)"

text \<open>\<open>x < 0.0\<close> of a \<open>double\<close>: the sign bit is set, and it is neither \<open>-0.0\<close> nor a NaN.\<close>

definition below_zero :: "dbl \<Rightarrow> bool" where
  "below_zero x \<longleftrightarrow> bit x 63 \<and> unat (take_bit 63 x) \<noteq> 0 \<and> unat (take_bit 63 x) \<le> 2047 * 2 ^ 52"

section \<open>Listings\<close>

fun typed_item :: "env \<Rightarrow> 'c driver \<Rightarrow> string option list \<Rightarrow> (string \<times> int) list \<Rightarrow> lua \<Rightarrow> ('c, lua) act" where
  "typed_item E d row [] item = retM item"
| "typed_item E d row ((f, i) # fis) item =
     bindM (valueM Exn_mysqlpp (row_at row i)) (\<lambda>cell.
       typed_item E d row fis (set_raw E item f (LString (cell_data d cell))))"

fun typed_rows :: "env \<Rightarrow> 'c driver \<Rightarrow> (string \<times> int) list \<Rightarrow> string option list list \<Rightarrow> lua \<Rightarrow> ('c, lua) act" where
  "typed_rows E d fis [] conf = retM conf"
| "typed_rows E d fis (row # rows) conf =
     bindM (typed_item E d row fis create_table) (\<lambda>item. typed_rows E d fis rows (push_raw conf item))"

definition CreateConfArray :: "env \<Rightarrow> 'c driver \<Rightarrow> string \<Rightarrow> string list \<Rightarrow> ('c, lua) act" where
  "CreateConfArray E d query flds c = (case query_store d query c of (res, c1) \<Rightarrow>
     typed_rows E d (zip flds (map (field_num d (sr_columns res)) flds)) (sr_rows res) create_table c1)"

definition typed_listing :: "env \<Rightarrow> 'c driver \<Rightarrow> string \<Rightarrow> string list \<Rightarrow> string \<Rightarrow> ('c, string) act" where
  "typed_listing E d query flds name =
     bindM (CreateConfArray E d query flds) (\<lambda>conf. retM (LuaConfSerialize E conf name 0))"

text \<open>The lines of a raw string literal, each indented by two tabs.\<close>

definition raw_lines :: "string list \<Rightarrow> string" where
  "raw_lines = join [CHR 0x0A, CHR 0x09, CHR 0x09]"

definition GetUserRanks_typed :: "env \<Rightarrow> 'c driver \<Rightarrow> ('c, string) act" where
  "GetUserRanks_typed E d = typed_listing E d ''SELECT * FROM UserRank;'' [''id'', ''name''] ''user_ranks''"

definition GetUsers_typed :: "env \<Rightarrow> 'c driver \<Rightarrow> ('c, string) act" where
  "GetUsers_typed E d = typed_listing E d
     (raw_lines [''SELECT'', ''User.login AS login,'', ''User.sname AS sname,'', ''User.name AS name,'',
        ''User.pname AS pname,'', ''UserRank.name AS rank'', ''FROM User'',
        ''INNER JOIN UserRank ON User.rank = UserRank.id;''])
     [''login'', ''sname'', ''name'', ''pname'', ''rank''] ''users''"

definition GetCustomers_typed :: "env \<Rightarrow> 'c driver \<Rightarrow> ('c, string) act" where
  "GetCustomers_typed E d = typed_listing E d ''SELECT * FROM Customer''
     [''id'', ''sname'', ''name'', ''pname''] ''customers''"

definition GetOrderStatuses_typed :: "env \<Rightarrow> 'c driver \<Rightarrow> ('c, string) act" where
  "GetOrderStatuses_typed E d = typed_listing E d ''SELECT * FROM OrderStatus'' [''id'', ''name''] ''order_statuses''"

definition GetOrders_typed :: "env \<Rightarrow> 'c driver \<Rightarrow> ('c, string) act" where
  "GetOrders_typed E d = typed_listing E d
     (raw_lines ['''', ''SELECT'', ''NewOrder.id AS id,'', ''NewOrder.customer_id AS customer_id,'',
        ''NewOrder.date_of_start AS date_of_start,'', ''NewOrder.date_of_expire AS date_of_expire,'',
        ''OrderStatus.name AS order_status,'', ''Customer.sname AS customer_sname,'',
        ''Customer.name AS customer_name,'', ''Customer.pname AS customer_pname'', ''FROM NewOrder'',
        ''INNER JOIN OrderStatus ON NewOrder.status = OrderStatus.id'',
        ''INNER JOIN Customer ON NewOrder.customer_id = Customer.id;''])
     [''id'', ''customer_id'', ''date_of_start'', ''date_of_expire'', ''order_status'', ''customer_sname'',
      ''customer_name'', ''customer_pname''] ''orders''"

definition GetItems_typed :: "env \<Rightarrow> 'c driver \<Rightarrow> ('c, string) act" where
  "GetItems_typed E d = typed_listing E d ''SELECT * FROM Item''
     [''id'', ''name'', ''cost'', ''count_on_warehouse'', ''distributor'', ''description''] ''items''"

definition GetOrderedItems_typed :: "env \<Rightarrow> 'c driver \<Rightarrow> ('c, string) act" where
  "GetOrderedItems_typed E d = typed_listing E d ''SELECT * FROM OrderedItem''
     [''id'', ''order_id'', ''item_id'', ''count_in_order''] ''ordered_items''"

definition GetOrderedItemsByOrderId_typed :: "env \<Rightarrow> 'c driver \<Rightarrow> 32 word \<Rightarrow> ('c, string) act" where
  "GetOrderedItemsByOrderId_typed E d i = typed_listing E d
     (fmt ''SELECT * FROM OrderedItem WHERE order_id = {};'' [show_int (sint i)])
     [''id'', ''item_id'', ''count_in_order''] ''ordered_items''"

section \<open>Changes\<close>

text \<open>The loop over the rows of a result that looks for a cell.\<close>

fun find_row :: "(string option \<Rightarrow> ('c, bool) act) \<Rightarrow> string option list list \<Rightarrow> ('c, bool) act" where
  "find_row q [] = retM False"
| "find_row q (row # rows) =
     bindM (valueM Exn_mysqlpp (row_at row 0)) (\<lambda>cell.
     bindM (q cell) (\<lambda>found. if found then retM True else find_row q rows))"

definition select :: "'c driver \<Rightarrow> string \<Rightarrow> ('c, string option list list) act" where
  "select d query c = (case query_store d query c of (res, c1) \<Rightarrow> (Value (sr_rows res), c1))"

text \<open>\<open>execute\<close> yields a \<open>SimpleResult\<close>; the code uses its insert id, which is 0 after a failure.\<close>

definition execute :: "'c driver \<Rightarrow> string \<Rightarrow> ('c, 64 word) act" where
  "execute d query c = (case query_exec d query c of (ok, c1) \<Rightarrow> (Value (if ok then query_insert_id d c1 else 0), c1))"

definition CheckCreateUser :: "conf_api \<Rightarrow> 'c driver \<Rightarrow> lua \<Rightarrow> ('c, bool) act" where
  "CheckCreateUser A d user =
     (if \<not> CheckConfExistance A user [(''login'', VM_String), (''password'', VM_String), (''sname'', VM_String),
        (''name'', VM_String), (''pname'', VM_String), (''rank'', VM_Number)]
      then retM False
      else bindM (receive (receive_number A user ''rank'')) (\<lambda>rank.
        let rank_id = int_of_double A rank in
        bindM (select d ''SELECT id FROM UserRank;'') (find_row (\<lambda>cell. retM (cell_is_int A cell rank_id)))))"

definition CreateUser_typed :: "conf_api \<Rightarrow> 'c driver \<Rightarrow> lua \<Rightarrow> ('c, string) act" where
  "CreateUser_typed A d user =
     bindM (CheckCreateUser A d user) (\<lambda>checked.
     if \<not> checked then retM ''bad_config''
     else
       bindM (receive (receive_string A user ''login'')) (\<lambda>login.
       bindM (receive (receive_string A user ''password'')) (\<lambda>password.
       bindM (receive (receive_string A user ''sname'')) (\<lambda>sname.
       bindM (receive (receive_string A user ''name'')) (\<lambda>name.
       bindM (receive (receive_string A user ''pname'')) (\<lambda>pname.
       bindM (receive (receive_int A user ''rank'')) (\<lambda>rank.
       bindM (execute d (fmt ''INSERT INTO User VALUES ({}, {}, {}, {}, {}, {});''
         [login, password, sname, name, pname, show_i64 rank])) (\<lambda>_. retM []))))))))"

definition CheckDeleteUser :: "conf_api \<Rightarrow> lua \<Rightarrow> bool" where
  "CheckDeleteUser A user = CheckConfExistance A user [(''login'', VM_String)]"

definition DeleteUser_typed :: "conf_api \<Rightarrow> 'c driver \<Rightarrow> lua \<Rightarrow> ('c, unit) act" where
  "DeleteUser_typed A d user =
     bindM (assertM (CheckDeleteUser A user)) (\<lambda>_.
     bindM (receive (receive_string A user ''login'')) (\<lambda>login.
     bindM (execute d (fmt ''DELETE FROM User WHERE login = {};'' [login])) (\<lambda>_. retM ())))"

definition CheckCreateItem :: "conf_api \<Rightarrow> lua \<Rightarrow> ('c, bool) act" where
  "CheckCreateItem A item =
     (if \<not> CheckConfExistance A item [(''name'', VM_String), (''cost'', VM_Number), (''count'', VM_Number),
        (''distributor'', VM_String), (''description'', VM_String)]
      then retM False
      else bindM (receive (receive_number A item ''cost'')) (\<lambda>cost. retM (\<not> below_zero cost)))"

definition CreateItem_typed :: "env \<Rightarrow> conf_api \<Rightarrow> 'c driver \<Rightarrow> lua \<Rightarrow> ('c, string) act" where
  "CreateItem_typed E A d item =
     bindM (CheckCreateItem A item) (\<lambda>checked.
     if \<not> checked then retM ''bad_config''
     else
       bindM (receive (receive_string A item ''name'')) (\<lambda>name.
       bindM (receive (receive_number A item ''cost'')) (\<lambda>cost.
       bindM (receive (receive_int A item ''count'')) (\<lambda>count.
       bindM (receive (receive_string A item ''distributor'')) (\<lambda>distributor.
       bindM (receive (receive_string A item ''description'')) (\<lambda>description.
       bindM (execute d (fmt ''INSERT INTO Item VALUES (0, {}, {}, {}, {}, {});''
         [name, number_format E cost, show_i64 count, distributor, description])) (\<lambda>_. retM [])))))))"

definition CheckUpdateItem :: "conf_api \<Rightarrow> lua \<Rightarrow> bool" where
  "CheckUpdateItem A item =
     CheckConfExistance A item [(''id'', VM_Number), (''count'', VM_Number), (''cost'', VM_Number)]"

text \<open>The update is guarded by the check of a new item.\<close>

definition UpdateItem_typed :: "env \<Rightarrow> conf_api \<Rightarrow> 'c driver \<Rightarrow> lua \<Rightarrow> ('c, string) act" where
  "UpdateItem_typed E A d item =
     bindM (CheckCreateItem A item) (\<lambda>checked.
     if \<not> checked then retM ''bad_config''
     else
       bindM (receive (receive_number A item ''cost'')) (\<lambda>cost.
       bindM (receive (receive_int A item ''count'')) (\<lambda>count.
       bindM (receive (receive_int A item ''id'')) (\<lambda>i.
       bindM (execute d (fmt ''UPDATE Item SET cost = {}, count_on_warehouse = {} WHERE id = {};''
         [number_format E cost, show_i64 count, show_i64 i])) (\<lambda>_. retM [])))))"

definition CheckNewCustomer :: "conf_api \<Rightarrow> lua \<Rightarrow> bool" where
  "CheckNewCustomer A customer =
     CheckConfExistance A customer [(''name'', VM_Number), (''sname'', VM_Number), (''pname'', VM_Number)]"

definition typed_customer :: "conf_api \<Rightarrow> 'c driver \<Rightarrow> lua \<Rightarrow> ('c, string) act" where
  "typed_customer A d customer =
     bindM (receive (receive_string A customer ''sname'')) (\<lambda>sname.
     bindM (receive (receive_string A customer ''name'')) (\<lambda>name.
     bindM (receive (receive_string A customer ''pname'')) (\<lambda>pname.
     bindM (execute d (fmt ''INSERT INTO Customer VALUES (0, {}, {}, {});'' [sname, name, pname])) (\<lambda>_. retM []))))"

definition CreateCustomer_typed :: "conf_api \<Rightarrow> 'c driver \<Rightarrow> lua \<Rightarrow> ('c, string) act" where
  "CreateCustomer_typed A d customer =
     (if \<not> CheckNewCustomer A customer then retM ''bad_config'' else typed_customer A d customer)"

section \<open>Orders\<close>

text \<open>The check of one ordered item: the number looked up is the one of the order itself.\<close>

definition check_ordered_item :: "conf_api \<Rightarrow> lua \<Rightarrow> string option list list \<Rightarrow> nat \<Rightarrow> ('c, bool) act" where
  "check_ordered_item A order rows i =
     bindM (receive (receive_at A order i)) (\<lambda>ordered_item.
     if \<not> holds ordered_item VM_Table then retM False
     else if \<not> CheckConfExistance A ordered_item [(''item_id'', VM_Number), (''count'', VM_Number)] then retM False
     else find_row (\<lambda>cell. bindM (receive (receive_number A order ''item_id'')) (\<lambda>n. retM (cell_is_double A cell n))) rows)"

fun check_ordered_items :: "conf_api \<Rightarrow> lua \<Rightarrow> string option list list \<Rightarrow> nat list \<Rightarrow> ('c, bool) act" where
  "check_ordered_items A order rows [] = retM True"
| "check_ordered_items A order rows (i # is) =
     bindM (check_ordered_item A order rows i) (\<lambda>found.
       if \<not> found then retM False else check_ordered_items A order rows is)"

definition CheckNewOrder :: "conf_api \<Rightarrow> 'c driver \<Rightarrow> lua \<Rightarrow> ('c, bool) act" where
  "CheckNewOrder A d order =
     (if \<not> CheckConfExistance A order [(''customer_id'', VM_Number), (''date_of_start'', VM_Number),
        (''date_of_expire'', VM_Number), (''status'', VM_Number)]
      then retM False
      else
        bindM (receive (receive_number A order ''date_of_start'')) (\<lambda>starts.
        bindM (receive (receive_number A order ''date_of_expire'')) (\<lambda>expires.
        if time_of_double A starts > time_of_double A expires then retM False
        else
          bindM (receive (receive_number A order ''status'')) (\<lambda>status.
          let status_id = int_of_double A status in
          bindM (select d ''SELECT id FROM OrderStatus;'') (\<lambda>statuses.
          bindM (find_row (\<lambda>cell. retM (cell_is_int A cell status_id)) statuses) (\<lambda>status_found.
          if \<not> status_found then retM False
          else if get_length order = 0 then retM False
          else
            bindM (select d ''SELECT id FROM Item;'') (\<lambda>rows.
              check_ordered_items A order rows [1..<Suc (get_length order)])))))))"

fun insert_ordered_items :: "conf_api \<Rightarrow> 'c driver \<Rightarrow> lua \<Rightarrow> 64 word \<Rightarrow> nat list \<Rightarrow> ('c, unit) act" where
  "insert_ordered_items A d order order_id [] = retM ()"
| "insert_ordered_items A d order order_id (i # is) =
     bindM (receive (receive_at A order i)) (\<lambda>ordered_item.
     bindM (receive (receive_int A ordered_item ''item_id'')) (\<lambda>item_id.
     bindM (receive (receive_int A ordered_item ''count'')) (\<lambda>count.
     bindM (execute d (fmt ''INSERT INTO OrderedItem VALUES (0, {}, {}, {});''
       [show_i64 item_id, show_nat (unat order_id), show_i64 count])) (\<lambda>_.
       insert_ordered_items A d order order_id is))))"

definition CreateNewOrder :: "env \<Rightarrow> conf_api \<Rightarrow> 'c driver \<Rightarrow> lua \<Rightarrow> ('c, string) act" where
  "CreateNewOrder E A d order =
     bindM (CheckNewOrder A d order) (\<lambda>checked.
     if \<not> checked then retM ''bad_config''
     else
       bindM (receive (receive_int A order ''customer_id'')) (\<lambda>customer_id.
       bindM (receive (receive_number A order ''date_of_start'')) (\<lambda>starts.
       bindM (receive (receive_number A order ''date_of_expire'')) (\<lambda>expires.
       bindM (receive (receive_int A order ''status'')) (\<lambda>status.
       bindM (execute d (fmt ''INSERT INTO NewOrder VALUES (0, {}, FROM_UNIXTIME{}, FROM_INIXTIME{}, {});''
         [show_i64 customer_id, number_format E starts, number_format E expires, show_i64 status])) (\<lambda>order_id.
       bindM (insert_ordered_items A d order order_id [1..<Suc (get_length order)]) (\<lambda>_. retM [])))))))"

section \<open>A listing is the conversion of a result set of texts\<close>

lemma row_at_in: "row_at row i = Some x \<Longrightarrow> x \<in> set row"
  using nth_mem[of "nat i" row] by (auto simp: row_at_def split: if_splits)

lemma typed_item_fill:
  "None \<notin> set row \<Longrightarrow>
     typed_item E d row (zip flds is) item = fill_item E d row (zip (map (\<lambda>f. FieldAndType f VM_String) flds) is) item"
proof (induction flds arbitrary: "is" item)
  case (Cons f flds)
  show ?case
  proof (cases "is")
    case i: (Cons i js)
    have cell: "x \<noteq> None" if "row_at row i = Some x" for x
      using row_at_in[OF that] Cons.prems by metis
    show ?thesis
      using Cons.IH[OF Cons.prems] cell
      by (cases "row_at row i")
        (auto simp: i FieldAndType_def convert_cell_def outcome_simps assertM_def bindM_def retM_def fun_eq_iff)
  qed simp
qed simp

lemma typed_rows_fill:
  "\<forall>row \<in> set rows. None \<notin> set row \<Longrightarrow>
     typed_rows E d (zip flds is) rows t = fill_table E d (zip (map (\<lambda>f. FieldAndType f VM_String) flds) is) rows t"
  by (induction rows arbitrary: t) (simp_all add: typed_item_fill)

lemma find_indices_texts:
  "\<forall>f \<in> set flds. 0 \<le> field_num d (sr_columns res) f \<Longrightarrow>
     find_indices d res (map (\<lambda>f. FieldAndType f t) flds) = retM (map (field_num d (sr_columns res)) flds)"
  by (induction flds) (simp_all add: FieldAndType_def outcome_simps Let_def retM_def fun_eq_iff)

text \<open>
  A listing of this layer prints what \<open>serialize_query_result\<close> prints for the same result set when every
  column is declared a text: for a result set without NULL in which every field is found the two layers agree.
\<close>

theorem typed_listing_agrees:
  assumes "query_store d query c = (res, c1)"
    and "\<forall>f \<in> set flds. 0 \<le> field_num d (sr_columns res) f" and "\<forall>row \<in> set (sr_rows res). None \<notin> set row"
  shows "typed_listing E d query flds name c =
     serialize_query_result E d res name (map (\<lambda>f. FieldAndType f VM_String) flds) c1"
  by (simp add: typed_listing_def CreateConfArray_def serialize_query_result_def assms(1) find_indices_texts[OF assms(2)]
      typed_rows_fill[OF assms(3)] outcome_simps bindM_def)

text \<open>A database that answers every query with one result set and records the statements it executes.\<close>

definition recording :: "store_result \<Rightarrow> string list driver" where
  "recording res = \<lparr>query_store = (\<lambda>q c. (res, c)), query_exec = (\<lambda>q c. (True, c @ [q])), query_store_next = (\<lambda>c. (False, c)),
     query_error = (\<lambda>c. ''''), query_insert_id = (\<lambda>c. 7), field_num = (\<lambda>cols f. int (length (takeWhile (\<lambda>x. x \<noteq> f) cols))),
     null_data = ''NULL'', tx_start = id, tx_commit = id, tx_rollback = id\<rparr>"

theorem typed_listing_agrees_witness:
  "\<forall>E. \<exists>res. fst (typed_listing E (recording res) ''SELECT * FROM UserRank;'' [''id'', ''name''] ''user_ranks'' []) =
     fst (serialize_query_result E (recording res) res ''user_ranks'' [FieldAndType ''id'' VM_String, FieldAndType ''name'' VM_String] [])
     \<and> sr_rows res = [[Some ''1'', Some ''Admin'']]"
proof
  fix E :: env
  let ?res = "\<lparr>sr_ok = True, sr_columns = [''id'', ''name''], sr_rows = [[Some ''1'', Some ''Admin'']]\<rparr>"
  have "query_store (recording ?res) ''SELECT * FROM UserRank;'' [] = (?res, [])" by (simp add: recording_def)
  from typed_listing_agrees[OF this, of "[''id'', ''name'']" E "''user_ranks''"] show "\<exists>res. fst (typed_listing E (recording res) ''SELECT * FROM UserRank;'' [''id'', ''name''] ''user_ranks'' []) =
     fst (serialize_query_result E (recording res) res ''user_ranks'' [FieldAndType ''id'' VM_String, FieldAndType ''name'' VM_String] [])
     \<and> sr_rows res = [[Some ''1'', Some ''Admin'']]"
    by (intro exI[of _ ?res]) (simp add: recording_def)
qed

section \<open>A refused change changes nothing\<close>

definition never :: "'a \<Rightarrow> ('c, 'a) act \<Rightarrow> bool" where
  "never v m \<longleftrightarrow> (\<forall>c. fst (m c) \<noteq> Value v)"

lemma never_bind: "(\<And>x. never v (f x)) \<Longrightarrow> never v (bindM m f)"
  by (auto simp: never_def bindM_def split: prod.splits outcome.splits)

lemma never_ret: "x \<noteq> v \<Longrightarrow> never v (retM x)"
  by (simp add: never_def retM_def)

lemma refusal_within:
  assumes "bindM chk (\<lambda>ok. if \<not> ok then retM v else m) c = (Value v, c')" and "within R chk" and "never v m"
  shows "R c c'"
proof -
  obtain r c1 where chk: "chk c = (r, c1)" by force
  with assms(1,3) have "r = Value False" "c' = c1"
    by (auto simp: bindM_def never_def retM_def split: outcome.splits if_splits) (metis fst_conv)+
  with withinD[OF assms(2), of c] show ?thesis by (simp add: chk)
qed

lemma receive_Value: "bindM (receive (Value v)) f = f v"
  by (simp add: bindM_def receive_def fun_eq_iff)

lemma within_receive [within_intros]: "steady R \<Longrightarrow> within R (receive r)"
  by (simp add: within_def receive_def steady_refl)

lemma within_select:
  "(\<And>c. R c (snd (query_store d q c))) \<Longrightarrow> within R (select d q)"
  by (auto simp: within_def select_def split: prod.split) (metis snd_conv)

lemma within_find_row [within_intros]:
  "steady R \<Longrightarrow> (\<And>cell. within R (q cell)) \<Longrightarrow> within R (find_row q rows)"
  by (induction rows) (auto intro!: within_intros)

lemma within_check_ordered_items [within_intros]:
  "steady R \<Longrightarrow> within R (check_ordered_items A order rows is)"
  by (induction "is") (auto intro!: within_intros simp: check_ordered_item_def)

lemma within_checks:
  assumes "steady R" and "\<And>q c. R c (snd (query_store d q c))"
  shows "within R (CheckCreateUser A d t)" "within R (CheckCreateItem A t)" "within R (CheckNewOrder A d t)"
  unfolding CheckCreateUser_def CheckCreateItem_def CheckNewOrder_def Let_def
  by (intro within_intros within_select assms)+

text \<open>
  C37: A change of this layer that is refused has only read: whatever no query alters is as before.
\<close>

theorem typed_refusal_reads_only:
  assumes "m \<in> {CreateUser_typed A d t, CreateItem_typed E A d t, UpdateItem_typed E A d t, CreateCustomer_typed A d t,
      CreateNewOrder E A d t}"
    and "m c = (Value ''bad_config'', c')" and "\<And>q c. p (snd (query_store d q c)) = p c"
  shows "p c' = p c"
proof -
  have R: "steady (\<lambda>c c'. p c' = p c)" by (rule within_intros)
  note chk = within_checks[OF R, of d, OF assms(3)]
  from assms(1) show ?thesis
  proof (elim insertE emptyE)
    assume m: "m = CreateUser_typed A d t"
    show ?thesis
      using assms(2)[unfolded m CreateUser_typed_def] chk(1)
      by (rule refusal_within) (intro never_bind never_ret; simp)
  next
    assume m: "m = CreateItem_typed E A d t"
    show ?thesis
      using assms(2)[unfolded m CreateItem_typed_def] chk(2)
      by (rule refusal_within) (intro never_bind never_ret; simp)
  next
    assume m: "m = UpdateItem_typed E A d t"
    show ?thesis
      using assms(2)[unfolded m UpdateItem_typed_def] chk(2)
      by (rule refusal_within) (intro never_bind never_ret; simp)
  next
    assume m: "m = CreateCustomer_typed A d t"
    have customer: "CreateCustomer_typed A d t =
      bindM (retM (CheckNewCustomer A t)) (\<lambda>ok. if \<not> ok then retM ''bad_config'' else typed_customer A d t)"
      by (simp add: bindM_retM CreateCustomer_typed_def typed_customer_def)
    show ?thesis
      using assms(2)[unfolded m customer] within_basic(1)[OF R]
      by (rule refusal_within) (unfold typed_customer_def, intro never_bind never_ret; simp)
  next
    assume m: "m = CreateNewOrder E A d t"
    show ?thesis
      using assms(2)[unfolded m CreateNewOrder_def] chk(3)
      by (rule refusal_within) (intro never_bind never_ret; simp)
  qed
qed

text \<open>A customer whose names are texts is refused.\<close>

definition field_api :: "env \<Rightarrow> conf_api" where
  "field_api E = \<lparr>
     CheckConfExistance = (\<lambda>t fs. list_all (\<lambda>(k, ty). holds (get_raw_ref t k) ty
       \<or> ty = VM_Number \<and> holds (get_raw_ref t k) VM_Int) fs),
     receive_string = (\<lambda>t k. case get_raw_string t k of Some s \<Rightarrow> Value s | None \<Rightarrow> Throw Exn_std),
     receive_int = (\<lambda>t k. case get_raw_int t k of Some i \<Rightarrow> Value i | None \<Rightarrow> Throw Exn_std),
     receive_number = (\<lambda>t k. case get_raw_number E t k of Some x \<Rightarrow> Value x | None \<Rightarrow> Throw Exn_std),
     receive_at = (\<lambda>t i. Value (get_raw_at t i)),
     int_of_double = ucast, time_of_double = sint,
     cell_is_int = (\<lambda>cell i. cell = Some (show_int (sint i))),
     cell_is_double = (\<lambda>cell x. cell = Some (number_format E x))\<rparr>"

theorem typed_refusal_reads_only_witness:
  "\<forall>E res. snd (CreateCustomer_typed (field_api E) (recording res) (LTable [(''name'', LString ''a'')] []) [''x'']) = [''x'']"
proof (intro allI)
  fix E res
  let ?t = "LTable [(''name'', LString ''a'')] []"
  let ?m = "CreateCustomer_typed (field_api E) (recording res) ?t"
  have refused: "?m [''x''] = (Value ''bad_config'', [''x''])"
    by (simp add: CreateCustomer_typed_def CheckNewCustomer_def field_api_def get_raw_ref_def holds_def retM_def)
  have "id (snd (?m [''x''])) = id [''x'']"
  proof (rule typed_refusal_reads_only[where E = E and A = "field_api E" and d = "recording res" and t = ?t and m = ?m
        and p = id and c = "[''x'']"])
    show "?m \<in> {CreateUser_typed (field_api E) (recording res) ?t, CreateItem_typed E (field_api E) (recording res) ?t,
      UpdateItem_typed E (field_api E) (recording res) ?t, CreateCustomer_typed (field_api E) (recording res) ?t,
      CreateNewOrder E (field_api E) (recording res) ?t}" by blast
    show "?m [''x''] = (Value ''bad_config'', snd (?m [''x'']))" by (simp add: refused)
  qed (simp add: recording_def)
  then show "snd (?m [''x'']) = [''x'']" by simp
qed

section \<open>What the checks look at\<close>

text \<open>The documented part of the interface: fields are read from the table they are asked from.\<close>

definition reads_fields :: "conf_api \<Rightarrow> bool" where
  "reads_fields A \<longleftrightarrow>
     (\<forall>t fs. CheckConfExistance A t fs \<longleftrightarrow> (\<forall>(k, ty) \<in> set fs. holds (get_raw_ref t k) ty
        \<or> ty = VM_Number \<and> holds (get_raw_ref t k) VM_Int)) \<and>
     (\<exists>g. \<forall>t k. receive_number A t k = g (get_raw_ref t k)) \<and>
     (\<forall>t i. receive_at A t i = Value (get_raw_at t i))"

lemma reads_fields_field_api: "reads_fields (field_api E)"
proof -
  have "\<exists>g. \<forall>t k. receive_number (field_api E) t k = g (get_raw_ref t k)"
    by (rule exI[of _ "\<lambda>v. case (case v of LNumber x \<Rightarrow> Some x | LInt i \<Rightarrow> int_as_number E i | _ \<Rightarrow> None) of
      Some x \<Rightarrow> Value x | None \<Rightarrow> Throw Exn_std"]) (simp add: field_api_def get_raw_number_def)
  then show ?thesis by (simp add: reads_fields_def) (simp add: field_api_def list_all_iff)
qed

definition item_line :: "lua \<Rightarrow> bool" where
  "item_line v \<longleftrightarrow> holds v VM_Table \<and> (\<forall>k \<in> {''item_id'', ''count''}.
     holds (get_raw_ref v k) VM_Number \<or> holds (get_raw_ref v k) VM_Int)"

lemma check_ordered_item_lines:
  assumes "reads_fields A" and "1 \<le> i" and "i \<le> length arr" and "item_line (arr ! (i - 1))"
  shows "check_ordered_item A (LTable fs arr) rows i =
     find_row (\<lambda>cell. bindM (receive (receive_number A (LTable fs arr) ''item_id'')) (\<lambda>n. retM (cell_is_double A cell n))) rows"
proof -
  have "receive_at A (LTable fs arr) i = Value (arr ! (i - 1))"
    using assms by (simp add: reads_fields_def get_raw_at_def)
  moreover have "CheckConfExistance A (arr ! (i - 1)) [(''item_id'', VM_Number), (''count'', VM_Number)]"
    using assms(1,4) by (auto simp: reads_fields_def item_line_def)
  ultimately show ?thesis
    using assms(4) by (simp add: check_ordered_item_def item_line_def receive_Value)
qed

lemma check_ordered_item_same:
  assumes "reads_fields A" and "length arr' = length arr" and "\<forall>v \<in> set arr \<union> set arr'. item_line v"
    and "1 \<le> i" and "i \<le> length arr"
  shows "check_ordered_item A (LTable fs arr') rows i = check_ordered_item A (LTable fs arr) rows i"
proof -
  obtain g where "\<And>t k. receive_number A t k = g (get_raw_ref t k)"
    using assms(1) by (auto simp: reads_fields_def)
  then have "receive_number A (LTable fs arr') k = receive_number A (LTable fs arr) k" for k
    by (simp add: get_raw_ref_def)
  moreover have "item_line (arr ! (i - 1))" "item_line (arr' ! (i - 1))"
    using assms by (auto intro!: bspec[OF assms(3)])
  ultimately show ?thesis
    using assms(2,4,5) by (simp add: check_ordered_item_lines[OF assms(1)])
qed

lemma check_ordered_items_same:
  assumes "reads_fields A" and "length arr' = length arr" and "\<forall>v \<in> set arr \<union> set arr'. item_line v"
    and "\<forall>i \<in> set is. 1 \<le> i \<and> i \<le> length arr"
  shows "check_ordered_items A (LTable fs arr') rows is = check_ordered_items A (LTable fs arr) rows is"
  using assms(4)
proof (induction "is")
  case (Cons i js)
  then show ?case by (simp add: check_ordered_item_same[OF assms(1-3)] cong: if_cong)
qed simp

lemma check_order_lines_same:
  assumes "reads_fields A" and "length arr' = length arr" and "\<forall>v \<in> set arr \<union> set arr'. item_line v"
  shows "check_ordered_items A (LTable fs arr') rows [1..<Suc (length arr)] =
     check_ordered_items A (LTable fs arr) rows [1..<Suc (length arr)]"
  by (rule check_ordered_items_same[OF assms]) auto

text \<open>
  The check of an order never looks at the item numbers of its lines: two orders with the same own fields
  and equally many lines are both accepted or both refused, whatever items the lines name.
\<close>

theorem CheckNewOrder_any_items:
  assumes "reads_fields A" and "length arr' = length arr" and "\<forall>v \<in> set arr \<union> set arr'. item_line v"
  shows "CheckNewOrder A d (LTable fs arr') = CheckNewOrder A d (LTable fs arr)"
proof -
  obtain g where g: "\<And>t k. receive_number A t k = g (get_raw_ref t k)"
    using assms(1) by (auto simp: reads_fields_def)
  have same: "get_raw_ref (LTable fs arr') k = get_raw_ref (LTable fs arr) k" for k
    by (simp add: get_raw_ref_def)
  then have "CheckConfExistance A (LTable fs arr') = CheckConfExistance A (LTable fs arr)"
    using assms(1) by (simp add: reads_fields_def fun_eq_iff)
  moreover have "receive_number A (LTable fs arr') k = receive_number A (LTable fs arr) k" for k
    by (simp add: g same)
  moreover have "get_length (LTable fs arr') = get_length (LTable fs arr)"
    using assms(2) by (simp add: get_length_def)
  ultimately show ?thesis
    unfolding CheckNewOrder_def get_length_def
    by (simp del: upt_Suc add: check_order_lines_same[OF assms, unfolded One_nat_def] cong: if_cong)
qed

theorem CheckNewOrder_any_items_witness:
  "\<forall>E d fs. CheckNewOrder (field_api E) d (LTable fs [LTable [(''item_id'', LInt 1), (''count'', LInt 2)] []]) =
     CheckNewOrder (field_api E) d (LTable fs [LTable [(''item_id'', LInt 99), (''count'', LInt 2)] []])"
  by (intro allI CheckNewOrder_any_items[OF reads_fields_field_api]) (simp_all add: item_line_def holds_def get_raw_ref_def)

text \<open>
  An update that says what its own check asks for, but carries no name, is refused by the check of
  a new item; a customer whose names are texts is refused.
\<close>

theorem UpdateItem_needs_name:
  assumes "reads_fields A" and "get_raw_ref item ''name'' = LNil"
  shows "UpdateItem_typed E A d item = retM ''bad_config''"
proof -
  have "\<not> CheckConfExistance A item [(''name'', VM_String), (''cost'', VM_Number), (''count'', VM_Number),
      (''distributor'', VM_String), (''description'', VM_String)]"
    using assms by (simp add: reads_fields_def holds_def)
  then show ?thesis by (simp add: UpdateItem_typed_def CheckCreateItem_def bindM_retM)
qed

theorem CreateCustomer_refuses_names:
  assumes "reads_fields A" and "get_raw_ref customer ''name'' = LString n"
  shows "CreateCustomer_typed A d customer = retM ''bad_config''"
  using assms by (simp add: CreateCustomer_typed_def CheckNewCustomer_def reads_fields_def holds_def)

end
