(* ===== verification/Test_Requests.thy ===== *)
theory Test_Requests
  imports Account_Exchange Report_Properties Order_Requests Order_Completion
begin

text \<open>
  The requests that \<open>client_func\<close> of pc_course_server/main.cpp holds to try the server out: completing
  the order of the seed data, then the late orders, the completed orders, the income and the statistics
  of a period. They are run as the server would, from the text, through the VM and the handlers, on the
  database that db.sql sets up.
\<close>

section \<open>The requests\<close>

record request_data =
  request_body :: string
  request_name :: string

definition test_user :: string where
  "test_user = ''user ={login = 'amogus',password = '80c5e536eec8387cccad28b8b17b933832244998d85918abf18cc9bada5d4fe9',rank = 'Admin'}''"

definition test_dates :: string where
  "test_dates = ''dates = {start_date = 0,end_date = 1800000000}''"

definition test_request :: "string \<Rightarrow> string \<Rightarrow> request_data" where
  "test_request name rest = \<lparr>request_body = ''request = '' @ [quote_char] @ name @ [quote_char] @ test_user @ rest @ CRLF,
     request_name = name\<rparr>"

definition test_requests :: "request_data list" where
  "test_requests = [test_request ''complete_order'' ''order_id = 1'', test_request ''get_expired_orders'' [],
     test_request ''get_completed_orders'' test_dates, test_request ''get_income'' test_dates,
     test_request ''get_statistics'' test_dates]"

text \<open>The message the server takes out of the \<open>i\<close>-th body.\<close>

definition test_message :: "nat \<Rightarrow> string" where
  "test_message i = fst (getline CR (request_body (test_requests ! i)))"

section \<open>How they are read\<close>

definition test_globals :: "nat \<Rightarrow> (string \<times> lua) list" where
  "test_globals i = [(''request'', LString (request_name (test_requests ! i))),
     (''user'', user_table ''amogus'' pwd_amogus ''Admin'')] @
     (if i = 0 then [(''order_id'', LInt 1)] else []) @
     (if 2 \<le> i then [(''dates'', LTable [(''start_date'', LInt 0), (''end_date'', LInt 1800000000)] [])] else [])"

definition user_tokens :: "token list" where
  "user_tokens = [T_name ''user'', T_assign, T_open, T_name ''login'', T_assign, T_str ''amogus'', T_comma,
     T_name ''password'', T_assign, T_str pwd_amogus, T_comma, T_name ''rank'', T_assign, T_str ''Admin'', T_close]"

definition dates_tokens :: "token list" where
  "dates_tokens = [T_name ''dates'', T_assign, T_open, T_name ''start_date'', T_assign, T_int 0, T_comma,
     T_name ''end_date'', T_assign, T_int 1800000000, T_close]"

lemma closed_test_user: "closed_text test_user user_tokens"
  by code_simp

lemma lexed_order: "lexed ''order_id = 1'' [T_name ''order_id'', T_assign, T_int 1]"
proof -
  have "lex_run L_start ''order_id = 1'' = Some ([T_name ''order_id'', T_assign], L_num False 1)" by code_simp
  then show ?thesis by (simp add: lexed_def lex_end_def int_token_def)
qed

lemma lexed_dates: "lexed test_dates dates_tokens"
proof -
  have "lexed (show_int 1800000000) [T_int 1800000000]" by (rule lexed_int) simp
  moreover have "char_of (48 :: nat) = CHR ''0''" "char_of (49 :: nat) = CHR ''1''" "char_of (56 :: nat) = CHR ''8''"
    by code_simp+
  ultimately have "lexed ''1800000000'' [T_int 1800000000]" by (simp add: show_int_def show_nat.simps digit_char_def)
  then have "closed_text (''1800000000'' @ CHR ''}'' # []) ([T_int 1800000000] @ [T_close])"
    by (rule lexed_closed_append) (simp_all add: closed_symbols closed_Nil)
  moreover have "closed_text ''dates = {start_date = 0,end_date = '' (take 9 dates_tokens)" by code_simp
  ultimately have "closed_text (''dates = {start_date = 0,end_date = '' @ ''1800000000}'') (take 9 dates_tokens @ [T_int 1800000000, T_close])"
    using closed_append by fastforce
  then show ?thesis
    by (simp add: closed_lexed test_dates_def dates_tokens_def)
qed

lemma lex_test:
  assumes "plain_text name" and "lexed rest ts"
  shows "lex (''request = '' @ [quote_char] @ name @ [quote_char] @ test_user @ rest) =
     Some ([T_name ''request'', T_assign, T_str name] @ user_tokens @ ts)"
proof -
  have "closed_text (''request'' @ '' = '' @ quote_char # name @ quote_char # [])
      (T_name ''request'' # T_assign # T_str name # [])"
    by (intro closed_assign closed_plain_text closed_Nil field_idents assms(1))
  from closed_lexed_append[OF closed_append[OF this closed_test_user] assms(2)] show ?thesis
    by (intro lexed_lex) simp
qed

lemma test_message_text:
  assumes "test_requests ! i = test_request name rest" and "plain_text name" and "one_line rest"
  shows "test_message i = ''request = '' @ [quote_char] @ name @ [quote_char] @ test_user @ rest"
proof -
  have "CR \<notin> set test_user" by code_simp
  then have "CR \<notin> set (''request = '' @ [quote_char] @ name @ [quote_char] @ test_user @ rest)"
    using assms(2,3) by (auto simp: plain_text_def one_line_def CR_def)
  from getline_CRLF[OF this] show ?thesis
    by (simp add: test_message_def assms(1) test_request_def)
qed

lemma one_line_rests: "one_line ''order_id = 1''" "one_line []" "one_line test_dates"
  by (simp_all add: one_line_def test_dates_def)

lemma plain_names:
  "plain_text ''complete_order''" "plain_text ''get_expired_orders''" "plain_text ''get_completed_orders''"
  "plain_text ''get_income''" "plain_text ''get_statistics''"
  by (simp_all add: plain_text_def one_line_def)

lemmas parse_steps = parse_token_def name_slot_def reserved_words_def value_token_def deliver_def put_value_def
  close_table_def after_value_def upd_field_def

lemma parse_user:
  "parse E_statement [(None, [(''request'', LString name)], [])] (user_tokens @ ts) =
     parse E_statement [(None, [(''request'', LString name), (''user'', user_table ''amogus'' pwd_amogus ''Admin'')], [])] ts"
  by (simp add: user_tokens_def user_table_def parse_steps)

lemma read_test:
  assumes "test_requests ! i = test_request name rest" and "plain_text name" and "one_line rest" and "lexed rest ts"
    and "parse E_statement [(None, [(''request'', LString name), (''user'', user_table ''amogus'' pwd_amogus ''Admin'')], [])] ts =
      Some (E_statement, [(None, fs, [])])"
  shows "read_chunk (test_message i) = Some fs"
proof -
  have "parse E_statement [(None, [], [])] ([T_name ''request'', T_assign, T_str name] @ user_tokens @ ts) =
      Some (E_statement, [(None, fs, [])])"
    using assms(5) parse_user[of name ts] by (simp add: parse_steps)
  then show ?thesis
    by (simp only: read_chunk_def test_message_text[OF assms(1-3)] lex_test[OF assms(2,4)] option.simps prod.simps
        expecting.simps list.simps)
qed

lemma test_read:
  assumes "i < 5"
  shows "read_chunk (test_message i) = Some (test_globals i)"
proof -
  have tests: "test_requests ! 0 = test_request ''complete_order'' ''order_id = 1''"
    "test_requests ! 1 = test_request ''get_expired_orders'' []"
    "test_requests ! 2 = test_request ''get_completed_orders'' test_dates"
    "test_requests ! 3 = test_request ''get_income'' test_dates"
    "test_requests ! 4 = test_request ''get_statistics'' test_dates"
    by (simp_all add: test_requests_def)
  note eval = test_globals_def test_request_def parse_steps dates_tokens_def
  have "read_chunk (test_message 0) = Some (test_globals 0)"
    by (rule read_test[OF tests(1) plain_names(1) one_line_rests(1) lexed_order]) (simp add: eval tests(1))
  moreover have "read_chunk (test_message 1) = Some (test_globals 1)"
    by (rule read_test[OF tests(2) plain_names(2) one_line_rests(2) lexed_Nil]) (simp add: eval tests(2)[unfolded One_nat_def])
  moreover have "read_chunk (test_message 2) = Some (test_globals 2)"
    by (rule read_test[OF tests(3) plain_names(3) one_line_rests(3) lexed_dates]) (simp add: eval tests(3))
  moreover have "read_chunk (test_message 3) = Some (test_globals 3)"
    by (rule read_test[OF tests(4) plain_names(4) one_line_rests(3) lexed_dates]) (simp add: eval tests(4))
  moreover have "read_chunk (test_message 4) = Some (test_globals 4)"
    by (rule read_test[OF tests(5) plain_names(5) one_line_rests(3) lexed_dates]) (simp add: eval tests(5))
  moreover have "i \<in> {0, 1, 2, 3, 4}" using assms by auto
  ultimately show ?thesis by blast
qed

lemma test_agrees:
  assumes "agrees config (LTable (test_globals i) [])" and "i < 5"
  shows "credentials config = Some (''amogus'', pwd_amogus, ''Admin'')"
    and "i = 0 \<Longrightarrow> get_raw_int config ''order_id'' = Some 1"
    and "2 \<le> i \<Longrightarrow> get_raw_int (get_raw_ref config ''dates'') ''start_date'' = Some 0"
    and "2 \<le> i \<Longrightarrow> get_raw_int (get_raw_ref config ''dates'') ''end_date'' = Some 1800000000"
proof -
  have "credentials (LTable (test_globals i) []) = Some (''amogus'', pwd_amogus, ''Admin'')"
    by (simp add: credentials_def test_globals_def user_table_def get_raw_of_ref holds_def Let_def)
  then show "credentials config = Some (''amogus'', pwd_amogus, ''Admin'')"
    by (simp add: credentials_agrees[OF assms(1)])
  show "get_raw_int config ''order_id'' = Some 1" if "i = 0"
    using that unfolding agrees_int[OF assms(1)] by (simp add: test_globals_def get_raw_of_ref)
  have dates: "get_raw_ref (LTable (test_globals i) []) ''dates'' =
      LTable [(''start_date'', LInt 0), (''end_date'', LInt 1800000000)] []" if "2 \<le> i"
    using that by (simp add: test_globals_def)
  show "get_raw_int (get_raw_ref config ''dates'') ''start_date'' = Some 0" if "2 \<le> i"
    unfolding agrees_int[OF agrees_ref[OF assms(1)]] dates[OF that] by (simp add: get_raw_of_ref)
  show "get_raw_int (get_raw_ref config ''dates'') ''end_date'' = Some 1800000000" if "2 \<le> i"
    unfolding agrees_int[OF agrees_ref[OF assms(1)]] dates[OF that] by (simp add: get_raw_of_ref)
qed

lemma test_safe:
  assumes "credentials config = Some (''amogus'', pwd_amogus, ''Admin'')"
  shows "safe_credentials config"
  using admin_safe[of "[]"] unfolding safe_credentials_def assms admin_credentials .

lemma test_authorised:
  assumes "credentials config = Some (''amogus'', pwd_amogus, ''Admin'')" and "''Admin'' \<in> set R"
    and "users db = users sample_db" and "ranks db = ranks sample_db"
  shows "authorised day_cfg config R db"
proof -
  have "CheckUserExists sample_cfg ''amogus'' pwd_amogus ''Admin'' db"
    using sample_admin_exists assms(3,4) by (simp add: CheckUserExists_def)
  then show ?thesis
    using assms(1,2) unfolding day_cfg_authorised by (simp add: authorised_def) (simp add: pwd_amogus_def)
qed

section \<open>The completed order\<close>

definition completed_db :: db where
  "completed_db = sample_db\<lparr>
     items := map2 (\<lambda>it k. it\<lparr>it_count := k\<rparr>) (items sample_db) [162, 46, 381],
     orders := map (\<lambda>ord. ord\<lparr>o_date_of_completion := Some 19675\<rparr>) (orders sample_db)\<rparr>"

lemma completed: "CompleteOrder day_cfg sample_now 1 sample_db = Inr completed_db"
  by (simp add: completion_evals day_cfg_def sample_db_eval completed_db_def)

lemma completed_ok: "db_inv day_cfg completed_db" "names_ok completed_db"
proof -
  have "db_inv day_cfg sample_db" using day_cfg_inv by simp
  then show "db_inv day_cfg completed_db"
    using CompleteOrder_inv[OF completed] by simp
  show "names_ok completed_db"
    using sample_names_ok by (simp add: names_ok_def completed_db_def)
qed

section \<open>The session\<close>

definition test_run ::
  "env \<Rightarrow> (sql_error \<Rightarrow> string) \<Rightarrow> (db \<Rightarrow> db \<Rightarrow> 64 word) \<Rightarrow> (string \<Rightarrow> lua option) \<Rightarrow> (string \<times> session handler) list \<Rightarrow>
     nat \<Rightarrow> session \<Rightarrow> string outcome \<times> session" where
  "test_run E other ins exec walk i = process_request E (session_driver day_cfg other ins) exec walk (test_message i)"

lemma test_run_handler:
  assumes "walk_of walk requests" and "server_vm_ok exec" and "i < 5"
    and "map_of requests (request_name (test_requests ! i)) = Some (h :: session handler)"
  obtains config where "agrees config (LTable (test_globals i) [])" and "safe_credentials config"
    and "\<And>R db. ''Admin'' \<in> set R \<Longrightarrow> users db = users sample_db \<Longrightarrow> ranks db = ranks sample_db \<Longrightarrow> authorised day_cfg config R db"
    and "test_run E other ins exec walk i s = h E (session_driver day_cfg other ins) config s"
proof -
  have "map_of requests (get_config_request (LTable (test_globals i) [])) = Some h"
    using assms(4) by (simp add: test_globals_def request_name)
  from process_text[OF assms(1,2) test_read[OF assms(3)] this, of E "session_driver day_cfg other ins" s]
  obtain config where config: "agrees config (LTable (test_globals i) [])"
    "test_run E other ins exec walk i s = h E (session_driver day_cfg other ins) config s"
    unfolding test_run_def by blast
  note cr = test_agrees(1)[OF config(1) assms(3)]
  show thesis
    using that[OF config(1) test_safe[OF cr] test_authorised[OF cr] config(2)] .
qed

lemma test_days: "day_of_unix day_cfg 0 = Some 0" "day_of_unix day_cfg 1800000000 = Some 20833"
  by (simp_all add: day_cfg_def sample_cfg_def)

lemma completed_db_users: "users completed_db = users sample_db" "ranks completed_db = ranks sample_db"
  by (simp_all add: completed_db_def)

lemma test_names:
  "map_of requests (request_name (test_requests ! 0)) = Some complete_order"
  "map_of requests (request_name (test_requests ! 1)) = Some get_expired_orders"
  "map_of requests (request_name (test_requests ! 2)) = Some get_completed_orders"
  "map_of requests (request_name (test_requests ! 3)) = Some get_income"
  "map_of requests (request_name (test_requests ! 4)) = Some get_statistics"
  by (simp_all add: test_requests_def test_request_def requests_def)

lemma completed_reports:
  "filter (order_expired day_cfg now) (orders completed_db) = []"
  "filter (completed_between (Some 0) (Some 20833)) (orders completed_db) = orders completed_db"
  "sold (Some 0) (Some 20833) completed_db = ordered_items sample_db"
  "length (sales_groups day_cfg (Some 0) (Some 20833) completed_db) = 3"
  by (simp_all add: completed_db_def sample_db_eval order_expired_def completed_between_def sold_def order_of_line_def
      sales_groups_def statistics_lines_def sold_lines_def day_cfg_def)

text \<open>Each request on its own.\<close>

lemma test_complete:
  assumes "walk_of walk requests" and "server_vm_ok exec"
  shows "\<exists>s'. test_run E other ins exec walk 0 sample_session = (Value success, s') \<and> s_db s' = completed_db"
proof -
  obtain config where c: "agrees config (LTable (test_globals 0) [])" "safe_credentials config"
    "authorised day_cfg config [''Employee'', ''Admin''] (s_db sample_session)"
    "test_run E other ins exec walk 0 sample_session = complete_order E (session_driver day_cfg other ins) config sample_session"
    by (rule test_run_handler[OF assms _ test_names(1), of E other ins sample_session]) simp_all
  have "sint (1 :: i64) = 1" "fits_int (1 :: i64)" by (simp_all add: fits_int_def int_max_def)
  then show ?thesis
    using session.complete_order_result[OF c(2,3) test_agrees(2)[OF c(1) _ refl] start_clock, of E other ins] completed
    by (auto simp: c(4))
qed

lemma test_expired:
  assumes "walk_of walk requests" and "server_vm_ok exec" and "order_ok E" and "s_db s = completed_db"
  shows "\<exists>s'. test_run E other ins exec walk 1 s = (Value (listing E ''expired_orders'' []), s') \<and> s_db s' = completed_db"
proof -
  obtain config where c: "safe_credentials config"
    "authorised day_cfg config [''Admin'', ''Employee'', ''Accountant''] (s_db s)"
    "test_run E other ins exec walk 1 s = get_expired_orders E (session_driver day_cfg other ins) config s"
    by (rule test_run_handler[OF assms(1,2) _ test_names(2), of E other ins s]) (simp_all add: assms(4) completed_db_users)
  show ?thesis
    using session.get_expired_orders_reply[OF assms(3) _ _ day_cfg_ok c(1,2) check_clock, of other ins] completed_ok
    by (auto simp: c(3)[unfolded One_nat_def] assms(4) completed_reports)
qed

lemma test_completed:
  assumes "walk_of walk requests" and "server_vm_ok exec" and "order_ok E" and "s_db s = completed_db"
  shows "\<exists>its s'. test_run E other ins exec walk 2 s = (Value (listing E ''completed_orders'' its), s') \<and>
     s_db s' = completed_db \<and>
     list_all2 (shows_order day_cfg) its (map (\<lambda>ord. (ord, customer_of completed_db ord)) (orders completed_db))"
proof -
  obtain config where c: "agrees config (LTable (test_globals 2) [])"
    "test_run E other ins exec walk 2 s = get_completed_orders E (session_driver day_cfg other ins) config s"
    by (rule test_run_handler[OF assms(1,2) _ test_names(3), of E other ins s]) simp_all
  show ?thesis
    using session.get_completed_orders_reply[OF assms(3) _ _ day_cfg_ok test_agrees(3,4)[OF c(1)], of s other ins] completed_ok
    by (auto simp: c(2) assms(4) test_days completed_reports)
qed

lemma test_income:
  assumes "walk_of walk requests" and "server_vm_ok exec" and "reads_numbers E day_cfg" and "s_db s = completed_db"
  shows "\<exists>s'. test_run E other ins exec walk 3 s = (Value (success @ LuaConfSerialize E (amount E
     (income_text day_cfg completed_db (ordered_items sample_db))) ''income'' 0), s') \<and> s_db s' = completed_db"
proof -
  obtain config where c: "agrees config (LTable (test_globals 3) [])"
    "test_run E other ins exec walk 3 s = get_income E (session_driver day_cfg other ins) config s"
    by (rule test_run_handler[OF assms(1,2) _ test_names(4), of E other ins s]) simp_all
  show ?thesis
    using session.get_income_reply[OF assms(3) _ test_agrees(3,4)[OF c(1)], of s other ins] completed_ok
    by (auto simp: c(2) assms(4) test_days completed_reports)
qed

lemma test_statistics:
  assumes "walk_of walk requests" and "server_vm_ok exec" and "order_ok E" and "reads_numbers E day_cfg"
    and "s_db s = completed_db"
  shows "\<exists>sales s'. test_run E other ins exec walk 4 s = (Value (listing E ''statistics'' sales), s') \<and>
     s_db s' = completed_db \<and> length sales = 3"
proof -
  obtain config where c: "agrees config (LTable (test_globals 4) [])"
    "test_run E other ins exec walk 4 s = get_statistics E (session_driver day_cfg other ins) config s"
    by (rule test_run_handler[OF assms(1,2) _ test_names(5), of E other ins s]) simp_all
  show ?thesis
    using session.get_statistics_reply[OF assms(3,4) _ test_agrees(3,4)[OF c(1)], of s other ins] completed_ok
    by (auto simp: c(2) assms(5) test_days completed_reports dest!: list_all2_lengthD)
qed

text \<open>
  C18: The test requests on the database of db.sql: the first one takes the ordered counts from the stock and
  completes the order on the day of the request; after it no order is late, the listing shows the one
  order, the income is the price of its four lines, and the statistics have one entry per distributor.
\<close>

theorem test_requests_served:
  assumes "walk_of walk requests" and "server_vm_ok exec" and "order_ok E" and "reads_numbers E day_cfg"
  shows "\<exists>s1 s2 s3 s4 s5 its sales.
     test_run E other ins exec walk 0 sample_session = (Value success, s1) \<and> s_db s1 = completed_db \<and>
     test_run E other ins exec walk 1 s1 = (Value (listing E ''expired_orders'' []), s2) \<and>
     test_run E other ins exec walk 2 s2 = (Value (listing E ''completed_orders'' its), s3) \<and>
     list_all2 (shows_order day_cfg) its (map (\<lambda>ord. (ord, customer_of completed_db ord)) (orders completed_db)) \<and>
     test_run E other ins exec walk 3 s3 = (Value (success @ LuaConfSerialize E (amount E (income_text day_cfg completed_db
       (ordered_items sample_db))) ''income'' 0), s4) \<and>
     test_run E other ins exec walk 4 s4 = (Value (listing E ''statistics'' sales), s5) \<and> length sales = 3 \<and>
     s_db s5 = completed_db"
proof -
  obtain s1 where s1: "test_run E other ins exec walk 0 sample_session = (Value success, s1)" "s_db s1 = completed_db"
    using test_complete[OF assms(1,2)] by blast
  then obtain s2 where s2: "test_run E other ins exec walk 1 s1 = (Value (listing E ''expired_orders'' []), s2)"
      "s_db s2 = completed_db"
    using test_expired[OF assms(1-3)] by blast
  obtain its s3 where s3: "test_run E other ins exec walk 2 s2 = (Value (listing E ''completed_orders'' its), s3)"
      "s_db s3 = completed_db"
      "list_all2 (shows_order day_cfg) its (map (\<lambda>ord. (ord, customer_of completed_db ord)) (orders completed_db))"
    using test_completed[OF assms(1-3) s2(2)] by blast
  obtain s4 where s4: "test_run E other ins exec walk 3 s3 = (Value (success @ LuaConfSerialize E (amount E
      (income_text day_cfg completed_db (ordered_items sample_db))) ''income'' 0), s4)" "s_db s4 = completed_db"
    using test_income[OF assms(1,2,4) s3(2)] by blast
  from test_statistics[OF assms s4(2)] s1 s2 s3 s4 show ?thesis by blast
qed

theorem test_requests_served_witness:
  "\<exists>s1. test_run sample_env sample_other no_id sample_server_vm requests 0 sample_session = (Value success, s1) \<and>
     s_db s1 = completed_db"
  using test_requests_served[OF _ sample_vms_ok(1) sample_order_ok sample_reads, of requests sample_other no_id]
  by (auto simp: walk_of_def request_set_requests)

end
