(* ===== verification/Test_Client.thy ===== *)
theory Test_Client
  imports Connection_Properties Client_Requests "HOL-Library.Sublist"
begin

text \<open>
  The socket calls of \<open>client_func\<close> (pc_course_server/main.cpp) against a connection of the server. The
  requests it holds are not sent: their loop is commented out (Test_Requests runs them through the server).
  What it sends instead are the seven bytes of \<open>buffer("hello!")\<close>, the terminating zero among them.
\<close>

section \<open>The calls of the client\<close>

datatype test_phase = At_connect | At_write | At_read | At_end | Thrown

text \<open>\<open>accepted\<close> is the connection the server made, \<open>wire\<close> what the client has written to it.\<close>

record test_client =
  phase :: test_phase
  wire :: string
  console :: "string list"
  accepted :: "connection option"

definition hello :: string where
  "hello = ''hello!'' @ [CHR 0x00]"

text \<open>\<open>connect\<close> and \<open>write\<close> without an error code throw; \<open>read_until\<close> reports its error, which is printed.\<close>

inductive client_func :: "test_client \<Rightarrow> test_client \<Rightarrow> bool" where
  connected: "phase t = At_connect \<Longrightarrow> client_func t (t\<lparr>phase := At_write, accepted := Some (Start Create)\<rparr>)"
| refused: "phase t = At_connect \<Longrightarrow> client_func t (t\<lparr>phase := Thrown\<rparr>)"
| hello_written: "phase t = At_write \<Longrightarrow> client_func t (t\<lparr>phase := At_read, wire := wire t @ hello\<rparr>)"
| write_throws: "phase t = At_write \<Longrightarrow> prefix part hello \<Longrightarrow>
     client_func t (t\<lparr>phase := Thrown, wire := wire t @ part\<rparr>)"
| reply_read: "phase t = At_read \<Longrightarrow> accepted t = Some c \<Longrightarrow>
     holds_marker CRLF (concat (replies c) @ part) \<Longrightarrow> (\<exists>s. prefix part s \<and> s \<in> set (pending (io c))) \<or> part = [] \<Longrightarrow>
     client_func t (t\<lparr>phase := At_end\<rparr>)"
| read_failed: "phase t = At_read \<Longrightarrow> client_func t (t\<lparr>phase := At_end, console := console t @ [code_message]\<rparr>)"

text \<open>A read of the server completes with what has arrived, which is a beginning of what was written.\<close>

inductive test_step :: "(string \<Rightarrow> string) \<Rightarrow> string \<Rightarrow> test_client \<Rightarrow> test_client \<Rightarrow> bool" for process marker where
  client: "client_func t t' \<Longrightarrow> test_step process marker t t'"
| server: "accepted t = Some c \<Longrightarrow> threaded_step process marker c c' \<Longrightarrow>
     (io c = IO_reading \<and> io c' = IO_read (Inr ()) \<longrightarrow> prefix (input_buf c') (wire t)) \<Longrightarrow>
     test_step process marker t (t\<lparr>accepted := Some c'\<rparr>)"

inductive_cases client_funcE: "client_func t t'"
inductive_cases test_stepE: "test_step process marker t t'"

definition test_start :: test_client where
  "test_start = \<lparr>phase = At_connect, wire = [], console = [], accepted = None\<rparr>"

section \<open>No message, no reply\<close>

text \<open>The connection has taken no message: it waits, or its read was not one of data.\<close>

definition silent :: "connection \<Rightarrow> bool" where
  "silent c \<longleftrightarrow> served c = [] \<and> replies c = [] \<and>
     (io c = IO_reading \<or> io c = IO_ended \<or> (\<exists>e. io c = IO_read (Inl e)))"

lemma silent_start: "silent (Start Create)"
  by (simp add: silent_def Start_def Create_def ReadRequest_def)

lemma silent_step:
  assumes "threaded_step process marker c c'" and "silent c"
    and "\<not> (io c = IO_reading \<and> io c' = IO_read (Inr ()))"
  shows "silent c'"
  using assms
  by (elim threaded_stepE completionE io_stepE)
    (auto simp: silent_def connection_defs split: sum.splits read_error.splits io_state.splits prod.splits)

lemma data_holds_marker:
  assumes "threaded_step process marker c c'" and "io c = IO_reading" and "io c' = IO_read (Inr ())"
  shows "holds_marker marker (input_buf c')"
  using assms
  by (elim threaded_stepE completionE io_stepE) (auto simp: connection_defs split: if_splits)

lemma marker_in_prefix:
  assumes "holds_marker marker buf" and "prefix buf s" shows "set marker \<subseteq> set s"
proof -
  obtain i where "take (length marker) (drop i buf) = marker"
    using assms(1) by (auto simp: holds_marker_def list_ex_iff)
  then have "set marker \<subseteq> set buf" by (metis order_trans set_drop_subset set_take_subset)
  with set_mono_prefix[OF assms(2)] show ?thesis by blast
qed

definition test_inv :: "test_client \<Rightarrow> bool" where
  "test_inv t \<longleftrightarrow> set (wire t) \<subseteq> set hello \<and> (\<forall>c. accepted t = Some c \<longrightarrow> silent c) \<and>
     length (console t) = (if phase t = At_end then 1 else 0)"

lemma CR_not_hello: "CR \<notin> set hello"
  by (simp add: hello_def CR_def)

lemma silent_pending: "silent c \<Longrightarrow> pending (io c) = []"
  by (auto simp: silent_def pending_def)

lemma no_marker_in_nothing: "\<not> holds_marker CRLF []"
  by (simp add: holds_marker_def CRLF_def)

lemma client_inv:
  assumes "client_func t t'" and "test_inv t" shows "test_inv t'"
  using assms(1)
proof (cases rule: client_func.cases)
  case (write_throws part)
  then show ?thesis using assms(2) set_mono_prefix[of part hello] by (auto simp: test_inv_def)
next
  case (reply_read c part)
  then have "silent c" using assms(2) by (simp add: test_inv_def)
  with reply_read have "part = []" "replies c = []" by (auto simp: silent_pending silent_def)
  with reply_read show ?thesis by (simp add: no_marker_in_nothing)
qed (use assms(2) in \<open>auto simp: test_inv_def silent_start\<close>)

lemma test_step_inv:
  assumes "test_step process marker t t'" and "test_inv t" and "CR \<in> set marker" shows "test_inv t'"
  using assms(1)
proof (cases rule: test_step.cases)
  case client
  then show ?thesis using assms(2) by (rule client_inv)
next
  case (server c c')
  have "\<not> (io c = IO_reading \<and> io c' = IO_read (Inr ()))"
    using server data_holds_marker[OF server(3)] marker_in_prefix[of marker "input_buf c'" "wire t"]
      assms(2,3) CR_not_hello by (auto simp: test_inv_def)
  with silent_step[OF server(3)] server assms(2) show ?thesis by (auto simp: test_inv_def)
qed

text \<open>The invariant for every marker that has a carriage return somewhere.\<close>

interpretation trial: invariant_system "\<lambda>t. t = test_start" "test_step process (m1 @ CR # m2)" test_inv
  for process m1 m2
proof unfold_locales
  show "test_inv t" if "t = test_start" for t
    using that by (simp add: test_inv_def test_start_def)
  show "test_inv t'" if "test_step process (m1 @ CR # m2) t t'" "test_inv t" for t t'
    using that by (rule test_step_inv) simp
qed

text \<open>
  Whatever the network, the clock and the threads of the server do, and whatever a message would be answered: with
  an end marker that has a carriage return, as both the default of main and the marker of the clients have, the server
  takes no message of \<open>client_func\<close> and sends it nothing. \<open>client_func\<close> can only end by an exception or by
  printing the error of its read.
\<close>

theorem test_client_unanswered:
  assumes "(test_step process marker)\<^sup>*\<^sup>* test_start t" and "CR \<in> set marker"
  shows "(\<forall>c. accepted t = Some c \<longrightarrow> served c = [] \<and> replies c = [] \<and> \<not> busy (io c)) \<and>
     (phase t = At_end \<longrightarrow> (\<exists>message. console t = [message]))"
proof -
  obtain m1 m2 where "marker = m1 @ CR # m2" using assms(2) by (meson split_list)
  with assms(1) have "test_inv t" using trial.reachable_inv by blast
  then show ?thesis
    by (auto simp: test_inv_def silent_def busy_def length_Suc_conv)
qed

theorem test_client_unanswered_witness:
  "\<exists>t c. (test_step reply_of CRLF)\<^sup>*\<^sup>* test_start t \<and> accepted t = Some c \<and> wire t = hello \<and> replies c = [] \<and>
     (\<exists>message. console t = [message])"
proof -
  let ?t1 = "test_start\<lparr>phase := At_write, accepted := Some (Start Create)\<rparr>"
  let ?t2 = "?t1\<lparr>phase := At_read, wire := wire ?t1 @ hello\<rparr>"
  let ?c = "(Start Create)\<lparr>io := IO_read (Inl Read_eof)\<rparr>"
  let ?t3 = "?t2\<lparr>accepted := Some ?c\<rparr>"
  let ?t4 = "?t3\<lparr>phase := At_end, console := console ?t3 @ [''End of file'']\<rparr>"
  have "test_step reply_of CRLF test_start ?t1"
    by (intro test_step.client client_func.connected) (simp add: test_start_def)
  moreover have "test_step reply_of CRLF ?t1 ?t2"
    by (intro test_step.client client_func.hello_written) simp
  moreover have "test_step reply_of CRLF ?t2 ?t3"
    by (rule test_step.server[where c = "Start Create"])
      (simp_all add: threaded_step.completion completion.read_fails)
  moreover have "test_step reply_of CRLF ?t3 ?t4"
    by (intro test_step.client client_func.read_failed) simp
  ultimately have run: "(test_step reply_of CRLF)\<^sup>*\<^sup>* test_start ?t4"
    by (meson rtranclp.rtrancl_into_rtrancl rtranclp.rtrancl_refl)
  have "CR \<in> set CRLF" by (simp add: CR_def CRLF_def)
  from test_client_unanswered[OF run this] run show ?thesis
    by (intro exI[of _ ?t4] exI[of _ ?c]) (simp add: test_start_def)
qed

end
