(* ===== verification/Lua_Stack.thy ===== *)
theory Lua_Stack
  imports Lua_Value
begin

text \<open>
  The adapters of the texts of both programs to the stack of the Lua VM (pc_course_server/AsioDefs.hpp,
  pc_course_client/Utils/LuaConf.hpp: the specialisations of \<open>LuaWay::Stack\<close>). The C API of Lua is a
  parameter, with what its manual says of the three functions as the hypothesis \<open>lua_api_ok\<close>. A
  text is the list of its bytes; a pointer without a length is the list of the bytes from there on.
\<close>

section \<open>The C API\<close>

record 'l lua_api =
  lua_pushlstring :: "string \<Rightarrow> 'l \<Rightarrow> 'l"
  lua_pushstring :: "string \<Rightarrow> 'l \<Rightarrow> 'l"
  lua_tolstring :: "int \<Rightarrow> 'l \<Rightarrow> string option \<times> 'l"

text \<open>Positions count from the bottom, from 1 on, or from the top, from -1 on.\<close>

definition stack_index :: "'a list \<Rightarrow> int \<Rightarrow> nat option" where
  "stack_index st pos =
     (if 1 \<le> pos \<and> pos \<le> int (length st) then Some (nat (pos - 1))
      else if - int (length st) \<le> pos \<and> pos \<le> -1 then Some (nat (int (length st) + pos))
      else None)"

definition NUL :: char where "NUL = CHR 0x00"

text \<open>
  \<open>lua_pushlstring\<close> pushes the bytes, zeros among them; \<open>lua_pushstring\<close> those before the first zero.
  \<open>lua_tolstring\<close> yields the bytes of a string, the text of a number, which then stands on the stack in
  the place of the number, and a null pointer for everything else.
\<close>

definition lua_api_ok :: "'l lua_api \<Rightarrow> ('l \<Rightarrow> lua list) \<Rightarrow> (lua \<Rightarrow> string) \<Rightarrow> bool" where
  "lua_api_ok api stack number_text \<longleftrightarrow>
     (\<forall>s l. stack (lua_pushlstring api s l) = stack l @ [LString s]) \<and>
     (\<forall>s l. NUL \<in> set s \<longrightarrow> stack (lua_pushstring api s l) = stack l @ [LString (takeWhile (\<lambda>c. c \<noteq> NUL) s)]) \<and>
     (\<forall>pos l i. stack_index (stack l) pos = Some i \<longrightarrow>
        (case lua_tolstring api pos l of (r, l') \<Rightarrow>
          (case stack l ! i of
             LString s \<Rightarrow> r = Some s \<and> stack l' = stack l
           | LInt _ \<Rightarrow> r = Some (number_text (stack l ! i)) \<and> stack l' = (stack l)[i := LString (number_text (stack l ! i))]
           | LNumber _ \<Rightarrow> r = Some (number_text (stack l ! i)) \<and> stack l' = (stack l)[i := LString (number_text (stack l ! i))]
           | _ \<Rightarrow> r = None \<and> stack l' = stack l)))"

section \<open>The adapters of the server\<close>

definition Push_char_array :: "'l lua_api \<Rightarrow> string \<Rightarrow> 'l \<Rightarrow> 'l" where
  "Push_char_array api value state = lua_pushstring api value state"

definition Push_const_char :: "'l lua_api \<Rightarrow> string \<Rightarrow> 'l \<Rightarrow> 'l" where
  "Push_const_char api value state = lua_pushstring api value state"

definition Push_string_view :: "'l lua_api \<Rightarrow> string \<Rightarrow> 'l \<Rightarrow> 'l" where
  "Push_string_view api value state = lua_pushlstring api value state"

definition Push_mysqlpp_String :: "'l lua_api \<Rightarrow> string \<Rightarrow> 'l \<Rightarrow> 'l" where
  "Push_mysqlpp_String api value state = lua_pushlstring api value state"

text \<open>\<open>of_buffer\<close> is the constructor of \<open>mysqlpp::String\<close> from a pointer, which can be null, and a length.\<close>

definition Receive_mysqlpp_String :: "'l lua_api \<Rightarrow> (string option \<Rightarrow> 'm) \<Rightarrow> int \<Rightarrow> 'l \<Rightarrow> 'm \<times> 'l" where
  "Receive_mysqlpp_String api of_buffer pos state =
     (case lua_tolstring api pos state of (ptr, state') \<Rightarrow> (of_buffer ptr, state'))"

section \<open>The adapters of the client\<close>

definition Push_client_string_view :: "'l lua_api \<Rightarrow> string \<Rightarrow> 'l \<Rightarrow> 'l" where
  "Push_client_string_view api value state = lua_pushlstring api value state"

definition Push_QByteArray :: "'l lua_api \<Rightarrow> string \<Rightarrow> 'l \<Rightarrow> 'l" where
  "Push_QByteArray api value state = lua_pushlstring api value state"

text \<open>\<open>QByteArray\<close> of a null pointer is the empty one.\<close>

definition Receive_QByteArray :: "'l lua_api \<Rightarrow> int \<Rightarrow> 'l \<Rightarrow> string \<times> 'l" where
  "Receive_QByteArray api pos state =
     (case lua_tolstring api pos state of (str, state') \<Rightarrow> (case str of None \<Rightarrow> [] | Some bytes \<Rightarrow> bytes, state'))"

text \<open>
  \<open>to_utf\<close> and \<open>from_utf\<close> are \<open>QString::toUtf8\<close> and \<open>QString::fromUtf8\<close>, which is also the implicit conversion of a
  \<open>QByteArray\<close>. In \<open>Push\<close> the name \<open>Stack\<close> stands for the class it is a member of, the adapter of \<open>QString\<close>: the
  call is to \<open>Push\<close> itself, with the bytes converted back.
\<close>

partial_function (option) Push_QString :: "('q \<Rightarrow> string) \<Rightarrow> (string \<Rightarrow> 'q) \<Rightarrow> 'q \<Rightarrow> 'l \<Rightarrow> 'l option" where
  "Push_QString to_utf from_utf value state = Push_QString to_utf from_utf (from_utf (to_utf value)) state"

definition Receive_QString :: "'l lua_api \<Rightarrow> (string \<Rightarrow> 'q) \<Rightarrow> int \<Rightarrow> 'l \<Rightarrow> 'q \<times> 'l" where
  "Receive_QString api from_utf pos state =
     (case Receive_QByteArray api pos state of (bytes, state') \<Rightarrow> (from_utf bytes, state'))"

text \<open>\<open>ConvertibleFromVM\<close>: from which types of the VM \<open>LuaWay\<close> lets a value be received.\<close>

datatype adapter = Char_array | Const_char | String_view | Mysqlpp_String | Client_string_view | Q_byte_array | Q_string

fun ConvertibleFromVM :: "adapter \<Rightarrow> vm_type \<Rightarrow> bool" where
  "ConvertibleFromVM Client_string_view t = False"
| "ConvertibleFromVM _ t = (t = VM_String)"

section \<open>What the stack holds\<close>

lemma stack_index_top: "stack_index (st @ [v]) (-1) = Some (length st)"
  by (simp add: stack_index_def)

lemma stack_index_bound: "stack_index st pos = Some i \<Longrightarrow> i < length st"
  by (auto simp: stack_index_def split: if_splits)

lemma pushlstring_stack: "lua_api_ok api stack txt \<Longrightarrow> stack (lua_pushlstring api s l) = stack l @ [LString s]"
  by (simp add: lua_api_ok_def)

lemma pushstring_stack:
  "lua_api_ok api stack txt \<Longrightarrow> NUL \<in> set s \<Longrightarrow>
     stack (lua_pushstring api s l) = stack l @ [LString (takeWhile (\<lambda>c. c \<noteq> NUL) s)]"
  by (simp add: lua_api_ok_def)

lemma tolstring_string:
  assumes "lua_api_ok api stack txt" and "stack_index (stack l) pos = Some i" and "stack l ! i = LString s"
  obtains l' where "lua_tolstring api pos l = (Some s, l')" and "stack l' = stack l"
proof -
  have "case lua_tolstring api pos l of (r, l') \<Rightarrow> r = Some s \<and> stack l' = stack l"
    using assms unfolding lua_api_ok_def by (auto split: prod.splits) force+
  with that show thesis by (auto split: prod.splits)
qed

text \<open>
  What the adapters push they receive again, byte for byte, with zeros among them, and the stack has grown
  by that one text. A text of Qt is received from the bytes the server or the VM pushed.
\<close>

theorem stack_text_roundtrip:
  assumes "lua_api_ok api stack txt"
  shows "\<exists>l1 l2 l3.
     Receive_mysqlpp_String api of_buffer (-1) (Push_mysqlpp_String api s l) = (of_buffer (Some s), l1) \<and>
     Receive_QByteArray api (-1) (Push_QByteArray api s l) = (s, l2) \<and>
     Receive_QString api from_utf (-1) (Push_client_string_view api s l) = (from_utf s, l3) \<and>
     stack l1 = stack l @ [LString s] \<and> stack l2 = stack l @ [LString s] \<and> stack l3 = stack l @ [LString s]"
proof -
  note pushed = pushlstring_stack[OF assms, of s l]
  obtain l' where "lua_tolstring api (-1) (lua_pushlstring api s l) = (Some s, l')"
    "stack l' = stack (lua_pushlstring api s l)"
    by (rule tolstring_string[OF assms, of "lua_pushlstring api s l" "-1" "length (stack l)" s])
      (simp_all add: pushed stack_index_top)
  then show ?thesis
    by (simp add: pushed Receive_mysqlpp_String_def Push_mysqlpp_String_def Receive_QByteArray_def
        Push_QByteArray_def Receive_QString_def Push_client_string_view_def)
qed

text \<open>Pushing a text of Qt never returns, whatever the text and the conversions.\<close>

lemma no_push: "Push_QString to_utf from_utf value state = Some l \<Longrightarrow> False"
  by (rule Push_QString.raw_induct[where P = "\<lambda>a b c d e. False"])

theorem Push_QString_never: "Push_QString to_utf from_utf value state = None"
  using no_push[of to_utf from_utf "value" state] by (cases "Push_QString to_utf from_utf value state") simp_all

text \<open>A stack of the kind the manual describes.\<close>

definition list_api :: "(lua \<Rightarrow> string) \<Rightarrow> lua list lua_api" where
  "list_api number_text = \<lparr>lua_pushlstring = (\<lambda>s l. l @ [LString s]),
     lua_pushstring = (\<lambda>s l. l @ [LString (takeWhile (\<lambda>c. c \<noteq> NUL) s)]),
     lua_tolstring = (\<lambda>pos l. case stack_index l pos of None \<Rightarrow> (None, l)
       | Some i \<Rightarrow> (case l ! i of LString s \<Rightarrow> (Some s, l)
         | LInt _ \<Rightarrow> (Some (number_text (l ! i)), l[i := LString (number_text (l ! i))])
         | LNumber _ \<Rightarrow> (Some (number_text (l ! i)), l[i := LString (number_text (l ! i))])
         | _ \<Rightarrow> (None, l)))\<rparr>"

lemma list_api_ok: "lua_api_ok (list_api txt) (\<lambda>l. l) txt"
  by (simp add: lua_api_ok_def list_api_def split: prod.split lua.split)

theorem stack_text_roundtrip_witness:
  "\<exists>l. Receive_QByteArray (list_api (\<lambda>v. [])) (-1) (Push_QByteArray (list_api (\<lambda>v. [])) [CHR ''a'', NUL, CHR ''b''] [LNil]) =
     ([CHR ''a'', NUL, CHR ''b''], l) \<and> l = [LNil, LString [CHR ''a'', NUL, CHR ''b'']]"
  using stack_text_roundtrip[OF list_api_ok[of "\<lambda>v. []"], where from_utf = "\<lambda>s. s"
      and s = "[CHR ''a'', NUL, CHR ''b'']" and l = "[LNil]" and of_buffer = "\<lambda>b. b"]
  by auto

text \<open>
  A text given by a pointer arrives as far as its first zero: exactly what a \<open>string_view\<close> of the same bytes
  would push when it has none inside.
\<close>

theorem pointer_text_cut:
  assumes "lua_api_ok api stack txt"
  shows "stack (Push_const_char api (s @ [NUL]) l) = stack (Push_string_view api s l) \<longleftrightarrow> NUL \<notin> set s"
    and "stack (Push_char_array api (s @ [NUL]) l) = stack (Push_const_char api (s @ [NUL]) l)"
proof -
  have "takeWhile (\<lambda>c. c \<noteq> NUL) (s @ [NUL]) = s \<longleftrightarrow> NUL \<notin> set s"
    by (induction s) auto
  then show "stack (Push_const_char api (s @ [NUL]) l) = stack (Push_string_view api s l) \<longleftrightarrow> NUL \<notin> set s"
    using pushlstring_stack[OF assms, of s l] pushstring_stack[OF assms, of "s @ [NUL]" l]
    by (simp add: Push_const_char_def Push_string_view_def)
  show "stack (Push_char_array api (s @ [NUL]) l) = stack (Push_const_char api (s @ [NUL]) l)"
    by (simp add: Push_char_array_def Push_const_char_def)
qed

text \<open>
  \<open>Receive\<close> on a value whose type \<open>ConvertibleFromVM\<close> admits leaves the stack as it is; on a number it would
  not: the text takes the place of the number.
\<close>

theorem receive_keeps_stack:
  assumes "lua_api_ok api stack txt" and "stack_index (stack l) pos = Some i"
    and "ConvertibleFromVM a (type_of (stack l ! i))"
  shows "stack (snd (Receive_QByteArray api pos l)) = stack l \<and> stack (snd (Receive_mysqlpp_String api of_buffer pos l)) = stack l \<and>
     (\<exists>s. stack l ! i = LString s \<and> fst (Receive_QByteArray api pos l) = s)"
proof -
  have "type_of (stack l ! i) = VM_String" using assms(3) by (cases a) simp_all
  then obtain s where s: "stack l ! i = LString s" by (cases "stack l ! i") simp_all
  obtain l' where "lua_tolstring api pos l = (Some s, l')" "stack l' = stack l"
    by (rule tolstring_string[OF assms(1,2) s])
  with s show ?thesis by (simp add: Receive_QByteArray_def Receive_mysqlpp_String_def)
qed

lemma receive_number:
  assumes "lua_api_ok api stack txt" and "stack_index (stack l) pos = Some i" and "stack l ! i = LInt n"
  shows "stack (snd (Receive_QByteArray api pos l)) = (stack l)[i := LString (txt (LInt n))]"
proof -
  have "case lua_tolstring api pos l of (r, l') \<Rightarrow> r = Some (txt (LInt n)) \<and> stack l' = (stack l)[i := LString (txt (LInt n))]"
    using assms unfolding lua_api_ok_def by (auto split: prod.splits) force+
  then show ?thesis by (auto simp: Receive_QByteArray_def split: prod.splits)
qed

end
