(* ===== verification/Client_Application.thy ===== *)
theory Client_Application
  imports Client_Windows Database_Invariant
begin

text \<open>
  The windows of the client as a whole (pc_course_client/main.cpp, LoginWindow.cpp and the \<open>closeEvent\<close> of
  the panels): which windows exist, what opens and closes them, and when the application ends. A reply
  of the server and an error of a connection may come at any time while the window that waits for it
  exists. A message box is a step of its own kind only as an entry in the list of boxes.
\<close>

section \<open>The state\<close>

text \<open>
  The first login window is a local variable of \<open>main\<close> and lives on when it is closed; those that
  the panels open have \<open>WA_DeleteOnClose\<close>. A window's requests are its children and go with it.
\<close>

record login_entry =
  le_window :: login_window
  le_delete_on_close :: bool

record client_app =
  app_logins :: "login_entry list"
  app_panels :: "panel list"
  app_user :: user_login
  app_host :: string
  app_port :: "16 word"
  app_running :: bool

definition Start_client :: client_app where
  "Start_client = \<lparr>app_logins = [\<lparr>le_window = LoginWindow, le_delete_on_close = False\<rparr>], app_panels = [],
     app_user = lw_user LoginWindow, app_host = ''127.0.0.1'', app_port = 2028, app_running = True\<rparr>"

definition window_visible :: "login_entry \<Rightarrow> bool" where
  "window_visible e \<longleftrightarrow> \<not> lw_closed (le_window e)"

definition visible_windows :: "client_app \<Rightarrow> nat" where
  "visible_windows a = length (filter window_visible (app_logins a)) + length (app_panels a)"

text \<open>\<open>quitOnLastWindowClosed\<close>: \<open>QApplication::exec\<close> returns when no window is left.\<close>

definition last_window_check :: "client_app \<Rightarrow> client_app" where
  "last_window_check a = (if visible_windows a = 0 then a\<lparr>app_running := False\<rparr> else a)"

definition put_window :: "nat \<Rightarrow> login_window \<Rightarrow> client_app \<Rightarrow> client_app" where
  "put_window i w a =
     (let e = (app_logins a ! i)\<lparr>le_window := w\<rparr>;
          rest = (if lw_closed w \<and> le_delete_on_close e then take i (app_logins a) @ drop (Suc i) (app_logins a)
            else (app_logins a)[i := e])
      in a\<lparr>app_logins := rest\<rparr>)"

section \<open>The steps\<close>

text \<open>The request that is answered is no longer in flight; its connection is deleted in the slot.\<close>

definition answered_window :: "nat \<Rightarrow> login_window \<Rightarrow> login_window" where
  "answered_window k w = w\<lparr>lw_pending := take k (lw_pending w) @ drop (Suc k) (lw_pending w)\<rparr>"

definition login_reply ::
  "(string \<Rightarrow> lua) \<Rightarrow> (string \<Rightarrow> string) \<Rightarrow> nat \<Rightarrow> nat \<Rightarrow> string \<Rightarrow> client_app \<Rightarrow> client_app outcome" where
  "login_reply exec hash i k message a =
     (let w = answered_window k (le_window (app_logins a ! i)) in
      case receive_user_existance exec hash message w of
        Value w' \<Rightarrow> Value (last_window_check (put_window i w'
          (a\<lparr>app_panels := app_panels a @ drop (length (lw_panels w)) (lw_panels w'), app_user := lw_user w'\<rparr>)))
      | Throw e \<Rightarrow> Throw e | Abort \<Rightarrow> Abort | Diverge \<Rightarrow> Diverge)"

text \<open>\<open>closeEvent\<close> of the administrator's and the employee's panel; the accountant's has none.\<close>

definition panel_closed :: "nat \<Rightarrow> client_app \<Rightarrow> client_app" where
  "panel_closed k a =
     (let rest = take k (app_panels a) @ drop (Suc k) (app_panels a);
          fresh = \<lparr>le_window = LoginWindow\<lparr>lw_user := app_user a\<rparr>, le_delete_on_close = True\<rparr>
      in last_window_check (a\<lparr>app_panels := rest, app_logins :=
        (if app_panels a ! k = Accountant_panel then app_logins a else app_logins a @ [fresh])\<rparr>))"

definition login_closed :: "nat \<Rightarrow> client_app \<Rightarrow> client_app" where
  "login_closed i a = last_window_check (put_window i ((le_window (app_logins a ! i))\<lparr>lw_closed := True\<rparr>) a)"

record client_setup =
  cs_arg :: q_arg
  cs_hash :: "string \<Rightarrow> string"
  cs_exec :: "string \<Rightarrow> lua"

text \<open>\<open>careful\<close> restricts the user: the button is not pressed again while a request is in flight.\<close>

inductive client_step :: "bool \<Rightarrow> client_setup \<Rightarrow> client_app \<Rightarrow> client_app \<Rightarrow> bool" for careful P where
  typed: "app_running a \<Longrightarrow> i < length (app_logins a) \<Longrightarrow> window_visible (app_logins a ! i) \<Longrightarrow> r \<in> set rank_choices \<Longrightarrow>
     client_step careful P a (put_window i ((le_window (app_logins a ! i))\<lparr>lw_login := l, lw_password := p, lw_rank := r\<rparr>) a)"
| enter: "app_running a \<Longrightarrow> i < length (app_logins a) \<Longrightarrow> window_visible (app_logins a ! i) \<Longrightarrow>
     careful \<longrightarrow> lw_pending (le_window (app_logins a ! i)) = [] \<Longrightarrow>
     client_step careful P a (put_window i (login_CheckUserExists (cs_arg P) (cs_hash P) (le_window (app_logins a ! i))) a)"
| reply: "app_running a \<Longrightarrow> i < length (app_logins a) \<Longrightarrow> k < length (lw_pending (le_window (app_logins a ! i))) \<Longrightarrow>
     login_reply (cs_exec P) (cs_hash P) i k message a = Value a' \<Longrightarrow> client_step careful P a a'"
| failed: "app_running a \<Longrightarrow> i < length (app_logins a) \<Longrightarrow> k < length (lw_pending (le_window (app_logins a ! i))) \<Longrightarrow>
     client_step careful P a (put_window i (login_error e (answered_window k (le_window (app_logins a ! i)))) a)"
| close_login: "app_running a \<Longrightarrow> i < length (app_logins a) \<Longrightarrow> window_visible (app_logins a ! i) \<Longrightarrow>
     client_step careful P a (login_closed i a)"
| close_panel: "app_running a \<Longrightarrow> k < length (app_panels a) \<Longrightarrow> client_step careful P a (panel_closed k a)"

inductive_cases client_stepE: "client_step careful P a a'"

section \<open>Counting windows\<close>

lemma filter_without:
  "i < length xs \<Longrightarrow> length (filter Q (take i xs @ drop (Suc i) xs)) + of_bool (Q (xs ! i)) = length (filter Q xs)"
  by (subst (5) id_take_nth_drop[of i]) simp_all

lemma filter_update:
  "i < length xs \<Longrightarrow> length (filter Q (xs[i := y])) + of_bool (Q (xs ! i)) = length (filter Q xs) + of_bool (Q y)"
  by (subst (3) id_take_nth_drop[of i]) (simp_all add: upd_conv_take_nth_drop)

lemma visible_put:
  assumes "i < length (app_logins a)"
  shows "visible_windows (put_window i w a) + of_bool (window_visible (app_logins a ! i)) =
     visible_windows a + of_bool (\<not> lw_closed w)"
  using filter_without[OF assms, of window_visible]
    filter_update[OF assms, of window_visible "(app_logins a ! i)\<lparr>le_window := w\<rparr>"]
  by (simp add: visible_windows_def put_window_def Let_def window_visible_def)

lemma put_window_in:
  assumes "i < length (app_logins a)" and "e \<in> set (app_logins (put_window i w a))"
  shows "e \<in> set (app_logins a) \<or> le_window e = w"
  using assms by (auto simp: put_window_def Let_def split: if_splits
      dest: in_set_takeD in_set_dropD subsetD[OF set_update_subset_insert])

lemma put_window_fields [simp]:
  "app_panels (put_window i w a) = app_panels a" "app_running (put_window i w a) = app_running a"
  by (simp_all add: put_window_def Let_def)

lemma last_window_fields [simp]:
  "app_logins (last_window_check a) = app_logins a" "app_panels (last_window_check a) = app_panels a"
  "visible_windows (last_window_check a) = visible_windows a"
  "app_running (last_window_check a) \<longleftrightarrow> app_running a \<and> visible_windows a \<noteq> 0"
  by (simp_all add: last_window_check_def visible_windows_def)

lemma visible_panels: "visible_windows (a\<lparr>app_panels := ps, app_user := u\<rparr>) = visible_windows a - length (app_panels a) + length ps"
  by (simp add: visible_windows_def)

section \<open>The rank of a login\<close>

definition ranks_chosen :: "client_app \<Rightarrow> bool" where
  "ranks_chosen a \<longleftrightarrow> (\<forall>e \<in> set (app_logins a). lw_rank (le_window e) \<in> set rank_choices)"

lemma receive_cases:
  assumes "lw_rank w \<in> set rank_choices"
  obtains (box) b u where "receive_user_existance exec hash message w = Value (w\<lparr>lw_user := u, lw_boxes := lw_boxes w @ [b]\<rparr>)"
  | (opened) p u where "receive_user_existance exec hash message w =
      Value (w\<lparr>lw_user := u, lw_panels := lw_panels w @ [p], lw_closed := True\<rparr>)"
proof (cases "ParseAndGetResponse exec message")
  case None
  then show thesis
    using box[where u = "lw_user w" and b = "Lua_config_box []"] by (simp add: receive_user_existance_def)
next
  case (Some r)
  show thesis
  proof (cases "snd r = ''success''")
    case True
    obtain p where "panel_of (lw_rank w) = Some p" using assms by (auto simp: rank_choices_def panel_of_def)
    with Some True show thesis
      using opened[where u = "field_login hash w" and p = p] by (cases r) (simp add: receive_user_existance_def Let_def field_login_def)
  next
    case False
    with Some show thesis
      using box[where u = "field_login hash w" and b = Bad_info_box] by (cases r) (simp add: receive_user_existance_def Let_def)
  qed
qed

lemma put_ranks:
  "ranks_chosen a \<Longrightarrow> i < length (app_logins a) \<Longrightarrow> lw_rank w \<in> set rank_choices \<Longrightarrow> ranks_chosen (put_window i w a)"
  using put_window_in by (fastforce simp: ranks_chosen_def)

lemma ranks_chosen_same [simp]:
  "ranks_chosen (last_window_check a) = ranks_chosen a" "ranks_chosen (a\<lparr>app_user := u\<rparr>) = ranks_chosen a"
  "ranks_chosen (a\<lparr>app_panels := ps\<rparr>) = ranks_chosen a"
  by (simp_all add: ranks_chosen_def)

lemma chosen_rank: "ranks_chosen a \<Longrightarrow> i < length (app_logins a) \<Longrightarrow> lw_rank (le_window (app_logins a ! i)) \<in> set rank_choices"
  by (simp add: ranks_chosen_def)

lemma login_reply_cases:
  assumes "ranks_chosen a" and "i < length (app_logins a)"
  obtains (box) b u where "login_reply exec hash i k message a = Value (last_window_check (put_window i
      ((answered_window k (le_window (app_logins a ! i)))\<lparr>lw_user := u, lw_boxes := lw_boxes (le_window (app_logins a ! i)) @ [b]\<rparr>)
      (a\<lparr>app_user := u\<rparr>)))"
  | (opened) p u where "login_reply exec hash i k message a = Value (last_window_check (put_window i
      ((answered_window k (le_window (app_logins a ! i)))\<lparr>lw_user := u,
        lw_panels := lw_panels (le_window (app_logins a ! i)) @ [p], lw_closed := True\<rparr>)
      (a\<lparr>app_panels := app_panels a @ [p], app_user := u\<rparr>)))"
proof -
  let ?w = "answered_window k (le_window (app_logins a ! i))"
  have "lw_rank ?w \<in> set rank_choices" using chosen_rank[OF assms] by (simp add: answered_window_def)
  then show thesis
  proof (cases rule: receive_cases[of ?w exec hash message])
    case (box b u)
    then show thesis using that(1)[where u = u and b = b] by (simp add: login_reply_def Let_def answered_window_def)
  next
    case (opened p u)
    then show thesis using that(2)[where u = u and p = p] by (simp add: login_reply_def Let_def answered_window_def)
  qed
qed

lemma client_step_ranks:
  assumes "client_step careful P a a'" and "ranks_chosen a"
  shows "ranks_chosen a'"
  using assms(1)
proof cases
  case (reply i k message)
  have rank: "lw_rank (le_window (app_logins a ! i)) \<in> set rank_choices" by (rule chosen_rank[OF assms(2) reply(2)])
  from assms(2) reply(2) show ?thesis
  proof (cases rule: login_reply_cases[of a i "cs_exec P" "cs_hash P" k message])
    case (box b u)
    with reply(4) have a': "a' = last_window_check (put_window i
      ((answered_window k (le_window (app_logins a ! i)))\<lparr>lw_user := u, lw_boxes := lw_boxes (le_window (app_logins a ! i)) @ [b]\<rparr>)
      (a\<lparr>app_user := u\<rparr>))" by simp
    show ?thesis
      unfolding a' ranks_chosen_same using assms(2) reply(2) rank by (intro put_ranks) (simp_all add: answered_window_def)
  next
    case (opened p u)
    with reply(4) have a': "a' = last_window_check (put_window i
      ((answered_window k (le_window (app_logins a ! i)))\<lparr>lw_user := u,
        lw_panels := lw_panels (le_window (app_logins a ! i)) @ [p], lw_closed := True\<rparr>)
      (a\<lparr>app_panels := app_panels a @ [p], app_user := u\<rparr>))" by simp
    show ?thesis
      unfolding a' ranks_chosen_same using assms(2) reply(2) rank by (intro put_ranks) (simp_all add: answered_window_def)
  qed
next
  case (close_panel k)
  then show ?thesis
    using assms(2) by (auto simp: panel_closed_def Let_def ranks_chosen_def LoginWindow_def rank_choices_def)
qed (use assms(2) chosen_rank[OF assms(2)] in \<open>auto simp: login_CheckUserExists_def login_error_def answered_window_def
    login_closed_def intro!: put_ranks\<close>)

lemma start_ranks: "ranks_chosen Start_client"
  by (simp add: ranks_chosen_def Start_client_def LoginWindow_def rank_choices_def)

text \<open>No reply, whatever it says, and whenever it comes, reaches the failed assertion of the login slot.\<close>

interpretation any_user: invariant_system "\<lambda>a. a = Start_client" "client_step careful P" ranks_chosen for careful P
  by unfold_locales (auto simp: start_ranks intro: client_step_ranks)

theorem login_never_aborts:
  assumes "(client_step careful P)\<^sup>*\<^sup>* Start_client a" and "i < length (app_logins a)"
  shows "\<exists>a'. login_reply (cs_exec P) (cs_hash P) i k message a = Value a'"
proof -
  from any_user.reachable_inv[OF refl assms(1)] assms(2) show ?thesis
    by (cases rule: login_reply_cases[of a i "cs_exec P" "cs_hash P" k message]) blast+
qed

section \<open>One window at a time\<close>

text \<open>A careful user has at most one request in flight, and none for a window that is closed.\<close>

definition entry_ok :: "login_entry \<Rightarrow> bool" where
  "entry_ok e \<longleftrightarrow> length (lw_pending (le_window e)) \<le> of_bool (window_visible e)"

definition one_window :: "client_app \<Rightarrow> bool" where
  "one_window a \<longleftrightarrow> ranks_chosen a \<and> visible_windows a = of_bool (app_running a) \<and>
     (app_running a \<longrightarrow> (\<forall>e \<in> set (app_logins a). entry_ok e))"

lemma entry_ok_put:
  assumes "\<forall>e \<in> set (app_logins a). entry_ok e" and "i < length (app_logins a)"
    and "length (lw_pending w) \<le> of_bool (\<not> lw_closed w)"
  shows "\<forall>e \<in> set (app_logins (put_window i w a)). entry_ok e"
  using put_window_in[OF assms(2)] assms(1,3) by (fastforce simp: entry_ok_def window_visible_def)

lemma one_window_put:
  assumes "one_window a" and "app_running a" and "i < length (app_logins a)" and "window_visible (app_logins a ! i)"
    and "\<not> lw_closed w" and "lw_rank w \<in> set rank_choices" and "length (lw_pending w) \<le> 1"
  shows "one_window (put_window i w a)"
proof -
  have "visible_windows (put_window i w a) = 1"
    using visible_put[OF assms(3), of w] assms(1,2,4,5) by (simp add: one_window_def)
  moreover have "\<forall>e \<in> set (app_logins (put_window i w a)). entry_ok e"
    using assms(1,2,3,5,7) by (intro entry_ok_put) (auto simp: one_window_def)
  ultimately show ?thesis
    using assms(1,2,3,6) put_ranks by (simp add: one_window_def)
qed

lemma one_window_entry:
  assumes "one_window a" and "app_running a" and "i < length (app_logins a)"
  shows "entry_ok (app_logins a ! i)"
  using assms by (simp add: one_window_def)

lemma pending_visible:
  assumes "one_window a" and "app_running a" and "i < length (app_logins a)" and "k < length (lw_pending (le_window (app_logins a ! i)))"
  shows "window_visible (app_logins a ! i)" and "lw_pending (answered_window k (le_window (app_logins a ! i))) = []"
proof -
  have "length (lw_pending (le_window (app_logins a ! i))) \<le> of_bool (window_visible (app_logins a ! i))"
    using one_window_entry[OF assms(1-3)] by (simp add: entry_ok_def)
  with assms(4) show "window_visible (app_logins a ! i)" "lw_pending (answered_window k (le_window (app_logins a ! i))) = []"
    by (cases "window_visible (app_logins a ! i)"; simp add: answered_window_def)+
qed

lemma one_window_reply:
  assumes "one_window a" and "app_running a" and "i < length (app_logins a)"
    and "k < length (lw_pending (le_window (app_logins a ! i)))" and "login_reply exec hash i k message a = Value a'"
  shows "one_window a'"
proof -
  let ?w = "answered_window k (le_window (app_logins a ! i))"
  note pending = pending_visible[OF assms(1-4)]
  have a: "ranks_chosen a" "visible_windows a = 1" "\<forall>e \<in> set (app_logins a). entry_ok e"
    using assms(1,2) by (simp_all add: one_window_def)
  have rank: "lw_rank ?w \<in> set rank_choices" using chosen_rank[OF a(1) assms(3)] by (simp add: answered_window_def)
  from a(1) assms(3) show ?thesis
  proof (cases rule: login_reply_cases[of a i exec hash k message])
    case (box b u)
    let ?w' = "?w\<lparr>lw_user := u, lw_boxes := lw_boxes (le_window (app_logins a ! i)) @ [b]\<rparr>"
    have "one_window (put_window i ?w' (a\<lparr>app_user := u\<rparr>))"
      using assms(1-3) pending rank by (intro one_window_put) (auto simp: one_window_def visible_windows_def
          answered_window_def window_visible_def)
    then show ?thesis
      using box assms(2,5) by (auto simp: one_window_def)
  next
    case (opened p u)
    let ?w' = "?w\<lparr>lw_user := u, lw_panels := lw_panels (le_window (app_logins a ! i)) @ [p], lw_closed := True\<rparr>"
    let ?b = "a\<lparr>app_panels := app_panels a @ [p], app_user := u\<rparr>"
    have "visible_windows ?b = Suc (visible_windows a)" by (simp add: visible_windows_def)
    then have "visible_windows (put_window i ?w' ?b) = 1"
      using visible_put[of i ?b ?w'] assms(3) pending(1) a(2) by simp
    moreover have "\<forall>e \<in> set (app_logins (put_window i ?w' ?b)). entry_ok e"
      using a(3) assms(3) pending(2) by (intro entry_ok_put) simp_all
    moreover have "ranks_chosen (put_window i ?w' ?b)"
      using a(1) assms(3) rank by (intro put_ranks) simp_all
    ultimately show ?thesis
      using opened assms(2,5) by (auto simp: one_window_def)
  qed
qed

lemma one_window_panel:
  assumes "one_window a" and "app_running a" and "k < length (app_panels a)"
  shows "one_window (panel_closed k a)"
proof -
  have "length (filter window_visible (app_logins a)) + length (app_panels a) = 1"
    using assms(1,2) by (simp add: one_window_def visible_windows_def)
  with assms(3) have none: "length (filter window_visible (app_logins a)) = 0" "length (app_panels a) = 1"
    by linarith+
  then have "visible_windows (panel_closed k a) = of_bool (app_panels a ! k \<noteq> Accountant_panel)"
    using assms(3) by (simp add: panel_closed_def Let_def) (simp add: visible_windows_def window_visible_def LoginWindow_def)
  moreover from this have "app_running (panel_closed k a) \<longleftrightarrow> app_panels a ! k \<noteq> Accountant_panel"
    using assms(2) by (simp add: panel_closed_def Let_def)
  moreover have "\<forall>e \<in> set (app_logins (panel_closed k a)). entry_ok e"
    using assms(1,2) by (auto simp: one_window_def panel_closed_def Let_def entry_ok_def LoginWindow_def)
  moreover have "ranks_chosen (panel_closed k a)"
    using assms(1) by (auto simp: one_window_def panel_closed_def Let_def ranks_chosen_def LoginWindow_def rank_choices_def)
  ultimately show ?thesis by (simp add: one_window_def)
qed

lemma one_window_close:
  assumes "one_window a" and "app_running a" and "i < length (app_logins a)" and "window_visible (app_logins a ! i)"
  shows "one_window (login_closed i a)"
proof -
  let ?w = "(le_window (app_logins a ! i))\<lparr>lw_closed := True\<rparr>"
  have "visible_windows (put_window i ?w a) = 0"
    using visible_put[OF assms(3), of ?w] assms by (simp add: one_window_def)
  moreover have "ranks_chosen (put_window i ?w a)"
    using assms(1,3) chosen_rank by (intro put_ranks) (auto simp: one_window_def)
  ultimately show ?thesis by (simp add: login_closed_def one_window_def)
qed

lemma client_step_one_window:
  assumes "client_step True P a a'" and "one_window a"
  shows "one_window a'"
  using assms(1)
proof cases
  case (typed i r l p)
  then show ?thesis
    using one_window_entry[OF assms(2) typed(2,3)] assms(2)
    by (auto simp: entry_ok_def window_visible_def intro!: one_window_put)
next
  case (enter i)
  then have "lw_rank (le_window (app_logins a ! i)) \<in> set rank_choices"
    using assms(2) chosen_rank by (simp add: one_window_def)
  with enter show ?thesis
    using assms(2) by (auto simp: login_CheckUserExists_def window_visible_def intro!: one_window_put)
next
  case (failed i k e)
  note pending = pending_visible[OF assms(2) failed(2-4)]
  have "lw_rank (le_window (app_logins a ! i)) \<in> set rank_choices"
    using failed assms(2) chosen_rank by (simp add: one_window_def)
  with failed pending show ?thesis
    using assms(2) by (auto simp: login_error_def answered_window_def window_visible_def intro!: one_window_put)
qed (use assms(2) one_window_reply one_window_close one_window_panel in simp_all)

lemma start_one_window: "one_window Start_client"
  using start_ranks by (simp add: one_window_def entry_ok_def visible_windows_def window_visible_def Start_client_def LoginWindow_def)

interpretation careful_user: invariant_system "\<lambda>a. a = Start_client" "client_step True P" one_window for P
  by unfold_locales (auto simp: start_one_window intro: client_step_one_window)

text \<open>
  C31: With a user who waits for the answer to a login, the client shows one window at any time, the login
  or the panel it opened, whatever the server answers, in every order of replies and errors; and it ends
  exactly when that window is closed and opens no other.
\<close>

theorem client_one_window:
  assumes "(client_step True P)\<^sup>*\<^sup>* Start_client a"
  shows "visible_windows a = (if app_running a then 1 else 0)"
  using careful_user.reachable_inv[OF refl assms] by (simp add: one_window_def)

section \<open>Pressing the button twice\<close>

definition sample_client :: client_setup where
  "sample_client = \<lparr>cs_arg = qarg, cs_hash = (\<lambda>p. p), cs_exec = echo\<rparr>"

definition typed_client :: client_app where
  "typed_client = Start_client\<lparr>app_logins := [\<lparr>le_window = LoginWindow\<lparr>lw_login := ''a'', lw_password := ''b'', lw_rank := ''Admin''\<rparr>,
     le_delete_on_close = False\<rparr>]\<rparr>"

lemma typed_client_step: "client_step careful P Start_client typed_client"
proof -
  have "client_step careful P Start_client (put_window 0 ((le_window (app_logins Start_client ! 0))
      \<lparr>lw_login := ''a'', lw_password := ''b'', lw_rank := ''Admin''\<rparr>) Start_client)"
    by (rule client_step.typed) (simp_all add: Start_client_def window_visible_def LoginWindow_def rank_choices_def)
  then show ?thesis by (simp add: typed_client_def Start_client_def put_window_def LoginWindow_def Let_def)
qed

definition entered_client :: "client_setup \<Rightarrow> nat \<Rightarrow> panel list \<Rightarrow> client_app" where
  "entered_client P n ps =
     (let w = LoginWindow\<lparr>lw_login := ''a'', lw_password := ''b'', lw_rank := ''Admin''\<rparr>; usr = field_login (cs_hash P) w
      in typed_client\<lparr>app_logins := [\<lparr>le_window = w\<lparr>lw_pending := replicate n (Auth (cs_arg P) usr),
          lw_user := (if ps = [] then lw_user w else usr), lw_panels := ps, lw_closed := ps \<noteq> []\<rparr>, le_delete_on_close = False\<rparr>],
        app_panels := ps, app_user := (if ps = [] then lw_user w else usr)\<rparr>)"

lemma entered_start: "entered_client P 0 [] = typed_client"
  by (simp add: entered_client_def Let_def typed_client_def Start_client_def LoginWindow_def)

lemma entered_again:
  assumes "careful \<longrightarrow> n = 0"
  shows "client_step careful P (entered_client P n []) (entered_client P (Suc n) [])"
proof -
  have "client_step careful P (entered_client P n []) (put_window 0 (login_CheckUserExists (cs_arg P) (cs_hash P)
      (le_window (app_logins (entered_client P n []) ! 0))) (entered_client P n []))"
    by (rule client_step.enter)
      (use assms in \<open>simp_all add: entered_client_def Let_def typed_client_def Start_client_def window_visible_def
        LoginWindow_def\<close>)
  then show ?thesis
    by (simp add: entered_client_def Let_def typed_client_def Start_client_def put_window_def login_CheckUserExists_def LoginWindow_def
        field_login_def replicate_append_same)
qed

lemma entered_reply:
  assumes "ParseAndGetResponse (cs_exec P) message = Some (fenv, ''success'')"
  shows "client_step careful P (entered_client P (Suc n) ps) (entered_client P n (ps @ [Admin_panel]))"
proof (rule client_step.reply)
  show "login_reply (cs_exec P) (cs_hash P) 0 0 message (entered_client P (Suc n) ps) =
      Value (entered_client P n (ps @ [Admin_panel]))"
    by (simp add: login_reply_def entered_client_def Let_def typed_client_def answered_window_def receive_user_existance_def
        assms field_login_def panel_of_def put_window_def last_window_check_def visible_windows_def LoginWindow_def)
qed (simp_all add: entered_client_def Let_def typed_client_def Start_client_def)

text \<open>
  A user who presses the button twice before the server answers gets two panels: the first answer closes
  the window, the second one is still delivered to it.
\<close>

theorem double_enter_two_panels:
  assumes "ParseAndGetResponse (cs_exec P) message = Some (fenv, ''success'')"
  shows "\<exists>a. (client_step False P)\<^sup>*\<^sup>* Start_client a \<and> app_panels a = [Admin_panel, Admin_panel] \<and> visible_windows a = 2"
proof -
  have "client_step False P Start_client (entered_client P 0 [])"
    unfolding entered_start by (rule typed_client_step)
  moreover note entered_again[of False 0 P] entered_again[of False 1 P, folded Suc_1]
  moreover have "client_step False P (entered_client P 2 []) (entered_client P 1 [Admin_panel])"
    "client_step False P (entered_client P 1 [Admin_panel]) (entered_client P 0 [Admin_panel, Admin_panel])"
    using entered_reply[OF assms, of False 1 "[]"] entered_reply[OF assms, of False 0 "[Admin_panel]"] by (simp_all add: numeral_2_eq_2)
  ultimately have "(client_step False P)\<^sup>*\<^sup>* Start_client (entered_client P 0 [Admin_panel, Admin_panel])"
    by (metis (no_types, lifting) One_nat_def Suc_1 converse_rtranclp_into_rtranclp rtranclp.rtrancl_refl)
  then show ?thesis
    by (intro exI[of _ "entered_client P 0 [Admin_panel, Admin_panel]"])
      (simp add: entered_client_def Let_def visible_windows_def window_visible_def)
qed

theorem double_enter_two_panels_witness:
  "\<exists>a. (client_step False sample_client)\<^sup>*\<^sup>* Start_client a \<and> visible_windows a = 2"
  using double_enter_two_panels[of sample_client "''success''" "echo ''success''"] by (auto simp: sample_client_def)

text \<open>A login of a careful user.\<close>

theorem client_one_window_witness:
  "\<exists>a. app_running a \<and> app_panels a = [Admin_panel] \<and> visible_windows a = 1"
proof -
  let ?a = "entered_client sample_client 0 [Admin_panel]"
  have "ParseAndGetResponse (cs_exec sample_client) ''success'' = Some (echo ''success'', ''success'')"
    by (simp add: sample_client_def)
  from entered_reply[OF this, of True 0 "[]"]
  have "client_step True sample_client (entered_client sample_client 1 []) ?a" by simp
  moreover have "client_step True sample_client (entered_client sample_client 0 []) (entered_client sample_client 1 [])"
    using entered_again[of True 0 sample_client] by simp
  ultimately have "(client_step True sample_client)\<^sup>*\<^sup>* Start_client ?a"
    using typed_client_step[of True sample_client] unfolding entered_start
    by (meson converse_rtranclp_into_rtranclp r_into_rtranclp)
  moreover have "app_running ?a" "app_panels ?a = [Admin_panel]"
    by (simp_all add: entered_client_def Let_def typed_client_def Start_client_def)
  ultimately show ?thesis
    using client_one_window[of sample_client ?a] by auto
qed

end
