(* ===== verification/Client_Socket.thy ===== *)
theory Client_Socket
  imports Wire_Exchange
begin

text \<open>
  The remaining operations of \<open>ServerConnection\<close> (pc_course_client/Utils/ServerConnection.cpp): connecting, waiting,
  disconnecting and the variants of writing and reading that connect first; and what becomes of a request whose
  connection does not come about. \<open>QTcpSocket\<close> is a parameter, with its documented behaviour as \<open>tcp_ok\<close>.
\<close>

section \<open>The socket\<close>

record ('a, 's) tcp_api =
  connectToHost :: "'a \<Rightarrow> 16 word \<Rightarrow> 's \<Rightarrow> 's"
  disconnectFromHost :: "'s \<Rightarrow> 's"
  isOpen :: "'s \<Rightarrow> bool"
  waitForConnected :: "int \<Rightarrow> 's \<Rightarrow> bool \<times> 's"
  tcp_write :: "string \<Rightarrow> 's \<Rightarrow> int \<times> 's"

text \<open>
  \<open>online\<close> tells whether the socket is connected, \<open>sent\<close> what it has taken. A wait reports whether the socket
  is connected then. A write on a connected socket fails or takes a part of the bytes, on another one
  it fails and takes nothing.
\<close>

definition tcp_ok :: "('a, 's) tcp_api \<Rightarrow> ('s \<Rightarrow> bool) \<Rightarrow> ('s \<Rightarrow> string) \<Rightarrow> bool" where
  "tcp_ok api online sent \<longleftrightarrow>
     (\<forall>a port s. sent (connectToHost api a port s) = sent s) \<and>
     (\<forall>t s. fst (waitForConnected api t s) = online (snd (waitForConnected api t s)) \<and>
        sent (snd (waitForConnected api t s)) = sent s) \<and>
     sink_ok (tcp_write api) sent \<and>
     (\<forall>bytes s. \<not> online s \<longrightarrow> fst (tcp_write api bytes s) = -1 \<and> sent (snd (tcp_write api bytes s)) = sent s)"

section \<open>The operations\<close>

definition Connect :: "('a, 's) tcp_api \<Rightarrow> 'a \<Rightarrow> 16 word \<Rightarrow> 's \<Rightarrow> 's" where
  "Connect api addr host s = connectToHost api addr host s"

definition IsConnected :: "('a, 's) tcp_api \<Rightarrow> 's \<Rightarrow> bool" where
  "IsConnected api s = isOpen api s"

definition Disconnect :: "('a, 's) tcp_api \<Rightarrow> 's \<Rightarrow> 's" where
  "Disconnect api s = disconnectFromHost api s"

definition WaitForConnected :: "('a, 's) tcp_api \<Rightarrow> int \<Rightarrow> 's \<Rightarrow> bool \<times> 's" where
  "WaitForConnected api timeout_msec s = waitForConnected api timeout_msec s"

text \<open>The result says whether \<open>MessageCarried\<close> is emitted.\<close>

definition Write_to ::
  "('a, 's) tcp_api \<Rightarrow> string \<Rightarrow> 'a \<Rightarrow> 16 word \<Rightarrow> int \<Rightarrow> 's \<Rightarrow> (bool \<times> 's) option" where
  "Write_to api message addr host timeout_msec s =
     (case WaitForConnected api timeout_msec (Connect api addr host s) of (res, s') \<Rightarrow>
        if \<not> res then Some (False, s') else Write_request (tcp_write api) message s')"

text \<open>Reading begins only on a connected socket; otherwise the object stays as it was.\<close>

definition Read_to ::
  "('a, 's) tcp_api \<Rightarrow> 'a \<Rightarrow> 16 word \<Rightarrow> int \<Rightarrow> client_connection \<Rightarrow> 's \<Rightarrow> client_connection \<times> 's" where
  "Read_to api addr host timeout_msec c s =
     (case WaitForConnected api timeout_msec (Connect api addr host s) of (res, s') \<Rightarrow>
        (if \<not> res then c else c\<lparr>listening := True\<rparr>, s'))"

text \<open>\<open>ServerConnectionComplex\<close> from the constructor on, which connects to the address of the settings.\<close>

definition Request_to ::
  "('a, 's) tcp_api \<Rightarrow> 'a \<Rightarrow> 16 word \<Rightarrow> int \<Rightarrow> string \<Rightarrow> 's \<Rightarrow> (exchange \<times> 's) option" where
  "Request_to api addr host timeout_msec request s =
     (case WaitForConnected api timeout_msec (Connect api addr host s) of (wait_res, s') \<Rightarrow>
        ServerConnectionComplex (tcp_write api) wait_res request s')"

section \<open>What is sent\<close>

lemma waited:
  assumes "tcp_ok api online sent"
  obtains s' where "WaitForConnected api t (Connect api a port s) = (online s', s')" and "sent s' = sent s"
proof -
  obtain b s' where w: "waitForConnected api t (connectToHost api a port s) = (b, s')" by force
  with assms have "b = online s'" "sent s' = sent s"
    unfolding tcp_ok_def by (metis fst_conv snd_conv)+
  then show thesis using that[of s'] w by (simp add: WaitForConnected_def Connect_def)
qed

lemma write_offline:
  assumes "tcp_ok api online sent" and "\<not> online s"
  shows "\<exists>s'. Write_request (tcp_write api) message s = Some (message = [], s') \<and> sent s' = sent s"
proof -
  obtain res s' where w: "tcp_write api message s = (res, s')" by force
  with assms have "res = -1" "sent s' = sent s"
    unfolding tcp_ok_def by (metis fst_conv snd_conv)+
  then show ?thesis
    unfolding Write_request_def by (subst write_loop.simps) (simp add: w)
qed

lemma write_online:
  assumes "tcp_ok api online sent"
  shows "\<exists>b s' k. Write_request (tcp_write api) message s = Some (b, s') \<and> k \<le> length message \<and>
     (b \<longleftrightarrow> k = length message) \<and> sent s' = sent s @ take k message"
  using write_loop_delivers[of "tcp_write api" sent 0 "length message" message s] assms
  unfolding Write_request_def tcp_ok_def by auto


text \<open>A socket whose state says whether the host answers, and what has been sent.\<close>

definition slow_tcp :: "(string, bool \<times> string) tcp_api" where
  "slow_tcp = \<lparr>connectToHost = (\<lambda>a port s. s), disconnectFromHost = (\<lambda>s. (False, snd s)), isOpen = fst,
     waitForConnected = (\<lambda>t s. (fst s, s)),
     tcp_write = (\<lambda>bytes s. if fst s then (int (min 3 (length bytes)), (True, snd s @ take 3 bytes)) else (-1, s))\<rparr>"

lemma slow_tcp_ok: "tcp_ok slow_tcp fst snd"
  by (auto simp: tcp_ok_def slow_tcp_def sink_ok_def Suc_le_eq min_def)


end
