(* ===== verification/Client_Dialogs.thy ===== *)
theory Client_Dialogs
  imports Client_Application
begin

text \<open>
  What the user of the client is told (pc_course_client/Utils/MessageBox.hpp, \<open>OnModelError\<close> of the panels and the
  boxes of LoginWindow.cpp): which box every error and every question becomes, and that no answer of the server is
  passed over in silence. Texts that are not ASCII are given by the bytes of their UTF-8 form, as in the sources.
\<close>

section \<open>Message boxes\<close>

datatype message_button = Ok_button | Cancel_button

datatype message_icon = Warning_icon | Critical_icon | Question_icon

record message_box =
  mb_title :: string
  mb_text :: string
  mb_buttons :: "message_button list"
  mb_icon :: message_icon

definition MessageBox :: "string \<Rightarrow> string \<Rightarrow> message_button list \<Rightarrow> message_icon \<Rightarrow> message_box" where
  "MessageBox title body buttons icon = \<lparr>mb_title = title, mb_text = body, mb_buttons = buttons, mb_icon = icon\<rparr>"

text \<open>\<open>key\<close> is \<open>QMetaEnum::valueToKey\<close> of the socket errors.\<close>

definition SocketErrorMessageBox :: "(nat \<Rightarrow> string) \<Rightarrow> nat \<Rightarrow> message_button list \<Rightarrow> message_box" where
  "SocketErrorMessageBox key error buttons =
     MessageBox ''Connection error'' (''Error: '' @ key error) buttons Critical_icon"

definition LuaConfigErrorMessageBox :: "string \<Rightarrow> message_button list \<Rightarrow> message_box" where
  "LuaConfigErrorMessageBox message buttons = MessageBox ''Bad config'' (''Error: '' @ message) buttons Critical_icon"

section \<open>The texts\<close>

definition of_bytes :: "nat list \<Rightarrow> string" where
  "of_bytes bs = map char_of bs"

definition wrong_data_text :: string where
  "wrong_data_text = of_bytes [208, 146, 208, 178, 208, 181, 208, 180, 208, 181, 208, 189, 209, 139, 32, 208, 189, 208, 181,
     208, 178, 208, 181, 209, 128, 208, 189, 209, 139, 208, 181, 32, 208, 180, 208, 176, 208, 189,
     208, 189, 209, 139, 208, 181]"

definition unreadable_text :: string where
  "unreadable_text = of_bytes [208, 158, 209, 136, 208, 184, 208, 177, 208, 186, 208, 176, 32, 209, 135, 209, 130, 208, 181,
     208, 189, 208, 184, 209, 143, 32, 208, 180, 208, 176, 208, 189, 208, 189, 209, 139, 209, 133,
     33]"

definition own_account_title :: string where
  "own_account_title = of_bytes [208, 157, 208, 181, 208, 178, 208, 181, 209, 128, 208, 189, 208, 190, 208, 181, 32, 208, 180,
     208, 181, 208, 185, 209, 129, 209, 130, 208, 178, 208, 184, 208, 181]"

definition own_account_text :: string where
  "own_account_text = of_bytes [208, 146, 209, 139, 32, 208, 189, 208, 181, 32, 208, 188, 208, 190, 208, 182, 208, 181, 209,
     130, 208, 181, 32, 209, 131, 208, 180, 208, 176, 208, 187, 208, 184, 209, 130, 209, 140, 32,
     209, 129, 208, 178, 208, 190, 208, 185, 32, 208, 176, 208, 186, 208, 186, 208, 176, 209, 131,
     208, 189, 209, 130, 33]"

definition confirm_title :: string where
  "confirm_title = of_bytes [208, 159, 208, 190, 208, 180, 209, 130, 208, 178, 208, 181, 209, 128, 208, 182, 208, 180, 208,
     181, 208, 189, 208, 184, 208, 181]"

definition confirm_account_text :: string where
  "confirm_account_text = of_bytes [208, 146, 209, 139, 32, 208, 180, 208, 181, 208, 185, 209, 129, 209, 130, 208, 178, 208, 184,
     209, 130, 208, 181, 208, 187, 209, 140, 208, 189, 208, 190, 32, 209, 133, 208, 190, 209, 130,
     208, 184, 209, 130, 208, 181, 32, 209, 131, 208, 180, 208, 176, 208, 187, 208, 184, 209, 130,
     209, 140, 32, 208, 180, 208, 176, 208, 189, 208, 189, 209, 139, 208, 185, 32, 208, 176, 208,
     186, 208, 186, 208, 186, 208, 176, 209, 131, 208, 189, 209, 130, 63]"

definition confirm_customer_text :: string where
  "confirm_customer_text = of_bytes [208, 146, 209, 139, 32, 208, 180, 208, 181, 208, 185, 209, 129, 209, 130, 208, 178, 208, 184,
     209, 130, 208, 181, 208, 187, 209, 140, 208, 189, 208, 190, 32, 209, 133, 208, 190, 209, 130,
     208, 184, 209, 130, 208, 181, 32, 209, 131, 208, 180, 208, 176, 208, 187, 208, 184, 209, 130,
     209, 140, 32, 208, 180, 208, 176, 208, 189, 208, 189, 208, 190, 208, 179, 208, 190, 32, 209,
     131, 208, 187, 208, 184, 208, 181, 208, 189, 209, 130, 208, 176, 63]"

section \<open>Errors of a model\<close>

text \<open>The two alternatives of the argument of \<open>Error\<close>.\<close>

datatype error_value = Socket_error_value nat | Text_value string

fun error_argument :: "(nat \<Rightarrow> string) \<Rightarrow> model_error \<Rightarrow> error_value" where
  "error_argument key (Socket_error e) = Socket_error_value e"
| "error_argument key (Socket_error_name e) = Text_value (key e)"
| "error_argument key Bad_response = Text_value ''Bad response!''"
| "error_argument key Unreadable_data = Text_value unreadable_text"
| "error_argument key Wrong_data = Text_value wrong_data_text"

definition OnModelError :: "(nat \<Rightarrow> string) \<Rightarrow> error_value \<Rightarrow> message_box" where
  "OnModelError key error = (case error of
      Socket_error_value e \<Rightarrow> SocketErrorMessageBox key e [Ok_button]
    | Text_value t \<Rightarrow> MessageBox ''Data error'' t [Ok_button] Warning_icon)"

text \<open>The employee's panel has a function of its own.\<close>

definition Employee_OnModelError :: "(nat \<Rightarrow> string) \<Rightarrow> error_value \<Rightarrow> message_box" where
  "Employee_OnModelError key error = (case error of
      Socket_error_value e \<Rightarrow> SocketErrorMessageBox key e [Ok_button]
    | Text_value t \<Rightarrow> MessageBox ''Data error'' t [Ok_button] Warning_icon)"

definition panel_boxes :: "(nat \<Rightarrow> string) \<Rightarrow> model_signal list \<Rightarrow> message_box list" where
  "panel_boxes key ss = concat (map (\<lambda>s. case s of
      Error_signal e \<Rightarrow> [OnModelError key (error_argument key e)] | _ \<Rightarrow> []) ss)"

section \<open>The login and the questions\<close>

fun login_box_shown :: "(nat \<Rightarrow> string) \<Rightarrow> login_box \<Rightarrow> message_box" where
  "login_box_shown key (Socket_box e) = SocketErrorMessageBox key e [Ok_button]"
| "login_box_shown key (Lua_config_box message) = LuaConfigErrorMessageBox message [Ok_button]"
| "login_box_shown key Bad_info_box = MessageBox ''Bad info'' wrong_data_text [Ok_button] Warning_icon"

fun admin_question_box :: "question \<Rightarrow> message_box option" where
  "admin_question_box No_selection = None"
| "admin_question_box Own_account = Some (MessageBox own_account_title own_account_text [Ok_button] Warning_icon)"
| "admin_question_box (Confirm index) =
     Some (MessageBox confirm_title confirm_account_text [Ok_button, Cancel_button] Question_icon)"

fun employee_question_box :: "question \<Rightarrow> message_box option" where
  "employee_question_box No_selection = None"
| "employee_question_box Own_account = None"
| "employee_question_box (Confirm index) =
     Some (MessageBox confirm_title confirm_customer_text [Ok_button, Cancel_button] Question_icon)"

section \<open>Nothing is passed over\<close>

text \<open>The answer is one the slot takes over.\<close>

definition taken_over :: "(string \<Rightarrow> lua) \<Rightarrow> string \<Rightarrow> users_slot \<Rightarrow> bool" where
  "taken_over exec message slot \<longleftrightarrow> (case ParseAndGetResponse exec message of
      None \<Rightarrow> False
    | Some (fenv, response) \<Rightarrow> response = ''success'' \<and>
        (slot = Users_received \<longrightarrow> read_rows read_user_item (get_raw_ref fenv ''users'') \<noteq> None))"

lemma boxes_simps [simp]:
  "panel_boxes key [] = []"
  "panel_boxes key (Error_signal e # ss) = OnModelError key (error_argument key e) # panel_boxes key ss"
  "panel_boxes key (Begin_insert a b # ss) = panel_boxes key ss"
  "panel_boxes key (End_insert # ss) = panel_boxes key ss"
  "panel_boxes key (Begin_remove a b # ss) = panel_boxes key ss"
  "panel_boxes key (End_remove # ss) = panel_boxes key ss"
  by (simp_all add: panel_boxes_def)

lemma no_boxes_update: "panel_boxes key (snd (update_rows old new)) = []"
  by (simp add: update_rows_def)

lemma emit_signals [simp]: "um_signals (users_emit ss m) = um_signals m @ ss" "um_users (users_emit ss m) = um_users m"
  by (simp_all add: users_emit_def)

lemma slot_told:
  assumes "users_slot_run exec slot message m = Value m'"
  shows "\<exists>new. um_signals m' = um_signals m @ new \<and>
     (if taken_over exec message slot then panel_boxes key new = []
      else um_users m' = um_users m \<and> length (panel_boxes key new) = 1)"
proof (cases slot)
  case Users_received
  with assms have m': "m' = users_received exec message m" by (simp add: users_slot_run_def)
  show ?thesis
  proof (cases "\<exists>fenv new. ParseAndGetResponse exec message = Some (fenv, ''success'') \<and>
      read_rows read_user_item (get_raw_ref fenv ''users'') = Some new")
    case True
    then obtain fenv new where new: "ParseAndGetResponse exec message = Some (fenv, ''success'')"
      "read_rows read_user_item (get_raw_ref fenv ''users'') = Some new" by blast
    then have "um_signals m' = um_signals m @ snd (update_rows (um_users m) new)" "taken_over exec message slot"
      by (simp_all add: m' users_received_def case_prod_beta users_emit_def taken_over_def)
    then show ?thesis by (intro exI conjI) (assumption, simp add: no_boxes_update)
  next
    case False
    then have "\<not> taken_over exec message slot"
      by (auto simp: taken_over_def Users_received split: option.splits)
    moreover have "\<exists>e. m' = users_emit [Error_signal e] m"
      using False by (cases "ParseAndGetResponse exec message") (auto simp: m' users_received_def split: option.split)
    ultimately show ?thesis by auto
  qed
next
  case (User_added item)
  then show ?thesis
    using assms by (auto simp: users_slot_run_def user_added_def taken_over_def split: option.splits if_splits)
next
  case (User_removed ind)
  then show ?thesis
    using assms
    by (auto simp: users_slot_run_def user_removed_def taken_over_def split: option.splits outcome.splits if_splits)
qed

text \<open>
  C36: Every answer to a request of the administrator's panel is either taken over, and then no box is shown, or
  leaves the table as it is and shows exactly one box; a failed connection also shows exactly one. The boxes are
  those of the new signals, in their order.
\<close>

theorem answers_told:
  assumes "users_answer exec message k m = Value m'"
  shows "\<exists>new. um_signals m' = um_signals m @ new \<and>
     (if taken_over exec message (snd (um_pending m ! k)) then panel_boxes key new = []
      else um_users m' = um_users m \<and> length (panel_boxes key new) = 1) \<and>
     (\<exists>new'. um_signals (users_error (snd (um_pending m ! k)) e m) = um_signals m @ new' \<and>
        um_users (users_error (snd (um_pending m ! k)) e m) = um_users m \<and> length (panel_boxes key new') = 1)"
proof -
  let ?slot = "snd (um_pending m ! k)"
  have "users_slot_run exec ?slot message (drop_pending k m) = Value m'"
    using assms by (simp add: users_answer_def)
  from slot_told[OF this, of key] obtain new where new: "um_signals m' = um_signals m @ new"
    "if taken_over exec message ?slot then panel_boxes key new = []
      else um_users m' = um_users m \<and> length (panel_boxes key new) = 1"
    by (auto simp: drop_pending_def)
  moreover have "\<exists>new'. um_signals (users_error ?slot e m) = um_signals m @ new' \<and>
      um_users (users_error ?slot e m) = um_users m \<and> length (panel_boxes key new') = 1"
    by (cases ?slot) (auto simp: users_error_def)
  ultimately show ?thesis by (intro exI[of _ new]) (auto split: if_splits)
qed

definition asked_once :: users_model where
  "asked_once = UsersModel\<lparr>um_pending := [([], Users_received)]\<rparr>"

theorem answers_told_witness:
  "\<exists>m'. users_answer echo ''access_denied'' 0 asked_once = Value m' \<and> um_users m' = [] \<and>
     (\<exists>new. um_signals m' = new \<and> length (panel_boxes (\<lambda>e. []) new) = 1)"
proof -
  let ?m' = "users_emit [Error_signal Wrong_data] (drop_pending 0 asked_once)"
  have run: "users_answer echo ''access_denied'' 0 asked_once = Value ?m'"
    by (simp add: users_answer_def users_slot_run_def asked_once_def users_received_def)
  have "\<not> taken_over echo ''access_denied'' (snd (um_pending asked_once ! 0))"
    by (simp add: taken_over_def)
  with answers_told[OF run, of "\<lambda>e. []" 0] show ?thesis
    using run by (auto simp: asked_once_def UsersModel_def)
qed

text \<open>
  The login: a reply opens a panel or shows one box. When the reply cannot be read the box says \<open>Error:\<close> and
  nothing else, since the text it shows is that of the reply which could not be read.
\<close>

theorem login_told:
  assumes "receive_user_existance exec hash message w = Value w'"
  shows "(\<exists>p. lw_panels w' = lw_panels w @ [p] \<and> lw_boxes w' = lw_boxes w) \<or>
     lw_panels w' = lw_panels w \<and> (\<exists>b. lw_boxes w' = lw_boxes w @ [b] \<and>
       (ParseAndGetResponse exec message = None \<longrightarrow> mb_text (login_box_shown key b) = ''Error: ''))"
  using assms by (auto simp: receive_user_existance_def Let_def LuaConfigErrorMessageBox_def MessageBox_def
      split: option.splits if_splits)

theorem login_told_witness:
  "\<exists>w'. receive_user_existance (\<lambda>m. LNil) (\<lambda>p. p) ''???'' LoginWindow = Value w' \<and> lw_panels w' = [] \<and>
     map (mb_text \<circ> login_box_shown (\<lambda>e. [])) (lw_boxes w') = [''Error: '']"
proof -
  let ?w' = "LoginWindow\<lparr>lw_boxes := [Lua_config_box []]\<rparr>"
  have none: "ParseAndGetResponse (\<lambda>m. LNil) ''???'' = None"
    by (simp add: ParseAndGetResponse_def get_raw_string_def get_raw_ref_def)
  then have run: "receive_user_existance (\<lambda>m. LNil) (\<lambda>p. p) ''???'' LoginWindow = Value ?w'"
    by (simp add: receive_user_existance_def LoginWindow_def)
  from login_told[OF run, of "\<lambda>e. []"] none show ?thesis
    using run by (auto simp: LoginWindow_def)
qed

text \<open>The two panels tell errors in the same way.\<close>

lemma panels_tell_alike: "Employee_OnModelError = OnModelError"
  by (simp add: fun_eq_iff Employee_OnModelError_def OnModelError_def)

end
