(* ===== verification/Spec2Isabelle.thy ===== *)
theory Spec2Isabelle
  imports Order_Completion Order_Requests Reply_Types Connection_Properties Server_Uptime
    Server_Startup Wire_Exchange Request_Race Overlap_Uptime Typed_Queries
    Test_Requests Test_Client Lua_Stack Client_Application Client_Socket Client_Dialogs
begin

text \<open>
  A verification library of the order-management system of this repository: the server
  (src/pc_course_server), its database (src/db.sql) and its desktop client (src/pc_course_client).

  The program. The client builds a text (\<open>Utils/Requests.hpp\<close>): a Lua chunk that sets \<open>request\<close>, \<open>user\<close> and
  the request's own fields, ended by a marker, and writes it to a socket
  (\<open>Utils/ServerConnection.cpp\<close>). The server (\<open>Server.cpp\<close>) starts its threads and accepts connections; a
  connection (\<open>Connection.cpp\<close>) reads up to the marker under a timer, runs the chunk in a Lua VM, looks
  the request up in the table of \<open>main.cpp\<close> and calls its handler (\<open>Request.hpp\<close>). A handler checks the
  account with a stored procedure, calls the procedure of the request (\<open>db.sql\<close>), turns the rows of
  the result into Lua tables and prints them (\<open>LuaConfSerialize.hpp\<close>); the connection writes the text
  back. The client collects the reply, runs it as a Lua chunk (\<open>Utils/LuaConf.hpp\<close>) and its models
  (\<open>UsersModel\<close>, \<open>CustomersModel\<close>, \<open>ItemsModel\<close>) take the rows over and announce the change to their views.

  The theories of the server, in the order of their dependencies:
    \<^item> \<open>Prelude\<close>: outcomes of C++ computations (value, exception, failed assertion, endless loop),
      their sequencing, effects that stay within a relation, and step systems with an invariant.
    \<^item> \<open>Text_Format\<close>, \<open>Lua_Value\<close>, \<open>Lua_Serialize\<close>, \<open>Lua_Stack\<close>: integers as text and back, \<open>std::format\<close>, the
      values of the VM as the code sees them, the printer, and the adapters that put the texts of both
      programs on the stack of the VM and take them off.
    \<^item> \<open>Query_Result\<close>: the driver (the calls of mysql++ the code makes, a parameter) and the two
      serialisers with their assertions.
    \<^item> \<open>Database\<close>, \<open>Database_Invariant\<close>, \<open>Sample_Data\<close>, \<open>Order_Completion\<close>: the tables and the
      stored procedures, the invariant every procedure keeps (keys, references, column ranges; locale
      \<open>invariant_system\<close>), the seed data, and the theorems about completing an order.
    \<^item> \<open>Sql_Text\<close>, \<open>Sql_Server\<close>: reading the text of a call back, the conversion of its arguments to
      the parameters of the procedures, and a driver that runs them (locale \<open>sql_server\<close>,
      interpreted for the session model).
    \<^item> \<open>Request\<close>, \<open>Request_Access\<close>, \<open>Request_Table\<close>, \<open>Request_Safety\<close>, \<open>Request_Changes\<close>,
      \<open>Request_Invariant\<close>, \<open>Request_Properties\<close>, \<open>Order_Requests\<close>: the 22 handlers, the check of the
      account, the dispatch, who may change what, what each change does, and the invariant of the
      database of a running server (locale \<open>driver_invariant\<close>).
    \<^item> \<open>Query_Replies\<close>, \<open>Query_Properties\<close>, \<open>Report_Replies\<close>, \<open>Report_Properties\<close>: what the listings and
      reports contain: each row of the database that belongs there exactly once, each column under
      its field name; sums over a period conserve the pieces sold.
    \<^item> \<open>Reply_Types\<close>, \<open>Request_Answers\<close>: the fields of a reply have the declared types; a logic of the ways
      a handler may end (\<open>calm\<close>), and that every message is answered.
    \<^item> \<open>Request_Replay\<close>, \<open>Request_Overlap\<close>: a handler as the sequence of its operations on the database (it is
      run against a driver that hands out recorded answers, locale \<open>replayable\<close>), and the requests of
      several threads interleaved operation by operation.
    \<^item> \<open>Request_Race\<close>, \<open>Request_Progress\<close>, \<open>Overlap_Uptime\<close>: what such requests can and cannot do to each other. An
      account deleted between the check and the change still changes the database; every handler closes
      its transaction (locale \<open>transactional\<close>), no two are open at the same time, the threads can always
      go on until every request is answered, and no interleaving ends the process.
    \<^item> \<open>Typed_Queries\<close>: the query templates of \<open>DatabaseQuery.hpp\<close>, which are not part of the build, over a
      record for the functions they call that are declared nowhere.
    \<^item> \<open>Connection\<close>, \<open>Connection_Properties\<close>: one connection as a step relation, with one thread and
      with several; ordering of the replies and the races of the timer.
    \<^item> \<open>Server_Settings\<close>, \<open>Server_Startup\<close>, \<open>Server_Connections\<close>, \<open>Server_Uptime\<close>: the settings file, its defaults and its
      printing; \<open>Start\<close> and \<open>Stop\<close> with the threads they create, step by step; the acceptor with any
      number of connections over one database, which serve as if one message came after the other, and
      which no message can end, but a client that resets its connection can.

  The theories of the client:
    \<^item> \<open>Client_Requests\<close>, \<open>Client_Connection\<close>, \<open>Client_Socket\<close>: the texts it sends, the loops of its socket, and
      connecting, with what is sent when the connection does not come about.
    \<^item> \<open>Client_Model\<close>, \<open>Users_Model\<close>, \<open>Customers_Model\<close>, \<open>Items_Model\<close>: the table models as step relations
      over every order of replies and errors; what they announce to a view adds up to their rows
      (locale \<open>row_model\<close>, interpreted for the three).
    \<^item> \<open>Client_Windows\<close>: the login and the buttons of the panels as far as they use the models.
    \<^item> \<open>Client_Application\<close>: the windows of the whole application as a step relation, from the first login to
      the end, with a user who waits for answers and with one who does not.
    \<^item> \<open>Client_Dialogs\<close>: the boxes that errors, answers and questions become; no answer is passed over.

  Both sides together:
    \<^item> \<open>Lua_Chunk\<close>, \<open>Lua_Roundtrip\<close>, \<open>Lua_Exchange\<close>: a lexer and parser for the chunks the two programs
      exchange (assignments of constants and table constructors of the Lua manual), and that what one
      side prints is what the other reads; a VM is a parameter that agrees with this reading.
    \<^item> \<open>Client_Server\<close>, \<open>Account_Exchange\<close>, \<open>Wire_Exchange\<close>: from the input field or the refresh button through
      the text, the handler, the database and the reply to the panel or the table, at last in blocks
      of any sizes over the socket.
    \<^item> \<open>Test_Requests\<close>, \<open>Test_Client\<close>: the requests that \<open>main.cpp\<close> holds to try the server out, run from their
      texts on the database of \<open>db.sql\<close>; and the socket calls of \<open>client_func\<close>, which sends none of them, against
      a connection of the server.

  Parameters. What is not in the repository is an argument: the MySQL server's collation, day
  arithmetic and unspecified choices (\<open>sql_config\<close>), its other error texts, what the insert id is,
  the Lua VM (running a chunk, the order of table entries, formatting and reading of doubles, with
  the hypothesis \<open>reads_numbers\<close> that the one reads what the other prints), \<open>QString::arg\<close> and
  \<open>QByteArray::indexOf\<close>, the network and the clock. Server and client have a VM each. The loops
  \<open>while(query.store_next())\<close>, \<open>while(target_size != 0)\<close> and the console loop of \<open>main\<close> are modelled
  without fuel: not returning is a value. The start of the threads has the explicit bound of
  \<open>startup_ends\<close>.

  Not modelled: the library \<open>LuaWay\<close> (not part of the repository; the specialisations of its \<open>Stack\<close> are
  in \<open>Lua_Stack\<close>) and the singleton around its VM, the log output (except \<open>remote_endpoint\<close>, which can
  throw), the bases \<open>NoCopy\<close> and \<open>NoMove\<close>, and the widgets that only lay out windows. In
  \<open>Server_Connections\<close> a request is one step on the database; in \<open>Request_Overlap\<close> the operations of several
  requests are interleaved, except that a transaction is not interleaved with operations of other
  connections, as at the isolation level SERIALIZABLE.
\<close>

end
